(* ===== verification/Prelude.thy ===== *)
theory Prelude
  imports Main
    "HOL-Library.Word"
    "HOL-Library.AList"
    "HOL-Library.Multiset"
    "HOL-Library.Char_ord"
    "HOL-Library.List_Lexorder"
begin

text \<open>
  What the components share: the Go types the sources use (fixed width integers, strings,
  maps, the order in which a \<open>range\<close> loop visits a map), errors and panics as values, and
  the lemmas on them that the component proofs need.

  A Go string is a \<^typ>\<open>string\<close> (a list of bytes); \<open>\<le>\<close> on it is the bytewise
  lexicographic order of Go's comparison operators. A Go map is an association list with
  distinct keys; the order of the list is never observable, because every loop over a map
  goes through \<open>range_map\<close>, which takes the (arbitrary) order as an argument.
\<close>

named_theorems gomap_simps \<open>equations of the Go map operations\<close>
named_theorems inv_intros \<open>preservation of the component invariants\<close>

type_synonym int32 = "32 word"
type_synonym uint32 = "32 word"
type_synonym int64 = "64 word"

section \<open>Errors and panics\<close>

type_synonym go_error = string

datatype panic =
    IndexOutOfRange
  | TypeAssertion
  | PanicErr go_error

text \<open>A computation that may panic: \<open>Inl\<close> is the panic, \<open>Inr\<close> the returned value.\<close>

type_synonym 'a go = "panic + 'a"

fun go_bind :: "'a go \<Rightarrow> ('a \<Rightarrow> 'b go) \<Rightarrow> 'b go" where
  "go_bind (Inl p) f = Inl p"
| "go_bind (Inr x) f = f x"

fun go_must :: "go_error + 'a \<Rightarrow> 'a go" where
  "go_must (Inl e) = Inl (PanicErr e)"
| "go_must (Inr x) = Inr x"

fun go_concat_map :: "('a \<Rightarrow> 'b list go) \<Rightarrow> 'a list \<Rightarrow> 'b list go" where
  "go_concat_map f [] = Inr []"
| "go_concat_map f (x # xs) =
     go_bind (f x) (\<lambda>ys. go_bind (go_concat_map f xs) (\<lambda>zs. Inr (ys @ zs)))"

lemma go_bind_Inr_iff: "go_bind m f = Inr y \<longleftrightarrow> (\<exists>x. m = Inr x \<and> f x = Inr y)"
  by (cases m) auto

lemma go_bind_Inl_iff:
  "go_bind m f = Inl p \<longleftrightarrow> m = Inl p \<or> (\<exists>x. m = Inr x \<and> f x = Inl p)"
  by (cases m) auto

lemma go_must_Inr_iff [simp]: "go_must m = Inr x \<longleftrightarrow> m = Inr x"
  by (cases m) auto

lemma go_concat_map_Inr:
  "go_concat_map f xs = Inr ys \<longleftrightarrow>
     (\<exists>yss. list_all2 (\<lambda>x zs. f x = Inr zs) xs yss \<and> ys = concat yss)"
proof (induction xs arbitrary: ys)
  case Nil
  then show ?case by auto
next
  case (Cons x xs)
  then show ?case
    by (fastforce simp: go_bind_Inr_iff list_all2_Cons1)
qed

lemma go_concat_map_total:
  assumes "\<And>x. x \<in> set xs \<Longrightarrow> f x = Inr (g x)"
  shows "go_concat_map f xs = Inr (concat (map g xs))"
  using assms by (induction xs) auto

text \<open>A loop whose body updates a state and may panic.\<close>

fun go_fold :: "('a \<Rightarrow> 's \<Rightarrow> 's go) \<Rightarrow> 'a list \<Rightarrow> 's \<Rightarrow> 's go" where
  "go_fold f [] s = Inr s"
| "go_fold f (x # xs) s = go_bind (f x s) (go_fold f xs)"

lemma go_fold_total:
  assumes "\<And>x s. x \<in> set xs \<Longrightarrow> f x s = Inr (g x s)"
  shows "go_fold f xs s = Inr (fold g xs s)"
  using assms by (induction xs arbitrary: s) auto

lemma go_fold_Inl_iff:
  assumes "\<And>x s. x \<in> set xs \<Longrightarrow> f x s = (if bad x then Inl p else Inr (g x s))"
  shows "go_fold f xs s = (if \<exists>x \<in> set xs. bad x then Inl p else Inr (fold g xs s))"
  using assms by (induction xs arbitrary: s) auto

text \<open>A loop that appends a view of its items computes the concatenation of the views.\<close>

lemma go_concat_map_view:
  assumes "\<And>x. x \<in> set xs \<Longrightarrow> \<exists>ys. f x = Inr ys \<and> map v ys = g x"
  shows "\<exists>ys. go_concat_map f xs = Inr ys \<and> map v ys = concat (map g xs)"
  using assms
proof (induction xs)
  case Nil
  then show ?case by simp
next
  case (Cons x xs)
  obtain ys where "f x = Inr ys" "map v ys = g x"
    using Cons.prems [of x] by auto
  moreover obtain zs where "go_concat_map f xs = Inr zs" "map v zs = concat (map g xs)"
    using Cons by auto
  ultimately show ?case by auto
qed

lemma go_concat_map_cong:
  "(\<And>x. x \<in> set xs \<Longrightarrow> f x = g x) \<Longrightarrow> go_concat_map f xs = go_concat_map g xs"
  by (induction xs) auto

text \<open>A string splits in one way at the first occurrence of a separator.\<close>

lemma split_at_sep:
  assumes "c \<notin> set xs" "c \<notin> set ys" "xs @ c # us = ys @ c # vs"
  shows "xs = ys \<and> us = vs"
  using assms
proof (induction xs arbitrary: ys)
  case Nil
  then show ?case by (cases ys) auto
next
  case (Cons x xs)
  then show ?case by (cases ys) auto
qed

section \<open>Go maps\<close>

type_synonym ('k, 'v) gomap = "('k \<times> 'v) list"

definition gomap_get :: "('k, 'v) gomap \<Rightarrow> 'k \<Rightarrow> 'v option" where
  "gomap_get m k = map_of m k"

definition gomap_put :: "'k \<Rightarrow> 'v \<Rightarrow> ('k, 'v) gomap \<Rightarrow> ('k, 'v) gomap" where
  "gomap_put k v m = AList.update k v m"

definition gomap_del :: "'k \<Rightarrow> ('k, 'v) gomap \<Rightarrow> ('k, 'v) gomap" where
  "gomap_del k m = AList.delete k m"

definition gomap_wf :: "('k, 'v) gomap \<Rightarrow> bool" where
  "gomap_wf m \<longleftrightarrow> distinct (map fst m)"

text \<open>The interface of a Go map, as the Go language reference describes it.\<close>

locale go_map =
  fixes get :: "'m \<Rightarrow> 'k \<Rightarrow> 'v option"
    and put :: "'k \<Rightarrow> 'v \<Rightarrow> 'm \<Rightarrow> 'm"
    and del :: "'k \<Rightarrow> 'm \<Rightarrow> 'm"
    and emp :: "'m"
    and wf :: "'m \<Rightarrow> bool"
  assumes get_emp: "get emp k = None"
    and get_put: "get (put k v m) k' = (if k' = k then Some v else get m k')"
    and get_del: "get (del k m) k' = (if k' = k then None else get m k')"
    and wf_emp: "wf emp"
    and wf_put: "wf m \<Longrightarrow> wf (put k v m)"
    and wf_del: "wf m \<Longrightarrow> wf (del k m)"
begin

lemma get_put_put: "get (put k v (put k w m)) = get (put k v m)"
  by (rule ext) (simp add: get_put)

lemma get_put_commute: "k \<noteq> l \<Longrightarrow> get (put k v (put l w m)) = get (put l w (put k v m))"
  by (rule ext) (auto simp: get_put)

lemma get_fold_put:
  "get (fold (\<lambda>(k, v). put k v) kvs m) k =
     (case map_of (rev kvs) k of None \<Rightarrow> get m k | Some v \<Rightarrow> Some v)"
proof (induction kvs arbitrary: m)
  case Nil
  then show ?case by simp
next
  case (Cons kv kvs)
  then show ?case
    by (cases kv) (auto simp: get_put map_add_def split: option.split)
qed

lemma wf_fold_put: "wf m \<Longrightarrow> wf (fold (\<lambda>(k, v). put k v) kvs m)"
  by (induction kvs arbitrary: m) (auto simp: wf_put)

end

interpretation gm: go_map gomap_get gomap_put gomap_del "[]" gomap_wf
  by unfold_locales
    (auto simp: gomap_get_def gomap_put_def gomap_del_def gomap_wf_def update_conv' delete_conv'
      distinct_update distinct_delete)

declare gm.get_emp [simp, gomap_simps] gm.get_put [simp, gomap_simps] gm.get_del [simp, gomap_simps]
declare gm.wf_emp [simp] gm.wf_put [simp, inv_intros] gm.wf_del [simp, inv_intros]

lemma gomap_get_Some_mem: "gomap_get m k = Some v \<Longrightarrow> (k, v) \<in> set m"
  by (simp add: gomap_get_def map_of_SomeD)

lemma gomap_get_iff: "gomap_wf m \<Longrightarrow> gomap_get m k = Some v \<longleftrightarrow> (k, v) \<in> set m"
  by (simp add: gomap_get_def gomap_wf_def)

lemma gomap_get_None_iff: "gomap_get m k = None \<longleftrightarrow> k \<notin> fst ` set m"
  by (simp add: gomap_get_def map_of_eq_None_iff)

lemma gomap_put_mem:
  assumes "gomap_wf m"
  shows "(k', v') \<in> set (gomap_put k v m) \<longleftrightarrow>
    (if k' = k then v' = v else (k', v') \<in> set m)"
proof -
  have "(k', v') \<in> set (gomap_put k v m) \<longleftrightarrow> gomap_get (gomap_put k v m) k' = Some v'"
    using assms by (simp only: gomap_get_iff gm.wf_put)
  then show ?thesis using assms by (auto simp: gomap_get_iff)
qed

lemma gomap_del_mem:
  assumes "gomap_wf m"
  shows "(k', v') \<in> set (gomap_del k m) \<longleftrightarrow> k' \<noteq> k \<and> (k', v') \<in> set m"
proof -
  have "(k', v') \<in> set (gomap_del k m) \<longleftrightarrow> gomap_get (gomap_del k m) k' = Some v'"
    using assms by (simp only: gomap_get_iff gm.wf_del)
  then show ?thesis using assms by (auto simp: gomap_get_iff)
qed

lemma gomap_wf_distinct: "gomap_wf m \<Longrightarrow> distinct m"
  by (simp add: gomap_wf_def distinct_map)

lemma gomap_ext_mset:
  assumes "gomap_wf m" "gomap_wf m'" "\<And>k. gomap_get m k = gomap_get m' k"
  shows "mset m = mset m'"
proof -
  have "set m = set m'"
    using assms by (metis (no_types, opaque_lifting) gomap_get_iff subrelI subset_antisym)
  then show ?thesis
    using assms by (simp add: gomap_wf_distinct set_eq_iff_mset_eq_distinct)
qed

section \<open>Iteration order of range loops over maps\<close>

text \<open>
  Go leaves the order in which \<open>range\<close> visits a map unspecified. An order is a function
  that, for a map with \<open>n\<close> entries, lists the positions \<open>0, \<dots>, n - 1\<close> in the order in
  which they are visited. Every definition with such a loop takes an order as an argument,
  and the theorems hold for all of them.
\<close>

type_synonym range_order = "nat \<Rightarrow> nat list"

definition valid_order :: "range_order \<Rightarrow> bool" where
  "valid_order ord \<longleftrightarrow> (\<forall>n. mset (ord n) = mset [0..<n])"

definition in_order :: range_order where
  "in_order n = [0..<n]"

definition rev_order :: range_order where
  "rev_order n = rev [0..<n]"

definition range_map :: "range_order \<Rightarrow> ('k, 'v) gomap \<Rightarrow> ('k \<times> 'v) list" where
  "range_map ord m = map (\<lambda>i. m ! i) (ord (length m))"

lemma valid_in_order [simp]: "valid_order in_order"
  by (simp add: valid_order_def in_order_def)

lemma valid_rev_order [simp]: "valid_order rev_order"
  by (simp add: valid_order_def rev_order_def)

lemma mset_range_map: "valid_order ord \<Longrightarrow> mset (range_map ord m) = mset m"
proof -
  assume "valid_order ord"
  then have "mset (ord (length m)) = mset [0..<length m]"
    by (simp add: valid_order_def)
  then have "mset (map (\<lambda>i. m ! i) (ord (length m))) = mset (map (\<lambda>i. m ! i) [0..<length m])"
    by (simp only: mset_map)
  then show ?thesis
    by (simp add: range_map_def map_nth)
qed

lemma set_range_map: "valid_order ord \<Longrightarrow> set (range_map ord m) = set m"
  using mset_range_map mset_eq_setD by blast

lemma length_range_map: "valid_order ord \<Longrightarrow> length (range_map ord m) = length m"
  using mset_range_map mset_eq_length by blast

lemma range_map_wf: "valid_order ord \<Longrightarrow> gomap_wf m \<Longrightarrow> gomap_wf (range_map ord m)"
proof -
  assume a: "valid_order ord" "gomap_wf m"
  have "mset (map fst (range_map ord m)) = mset (map fst m)"
    using a(1) by (simp add: mset_range_map)
  then show ?thesis
    using a(2) unfolding gomap_wf_def using mset_eq_imp_distinct_iff by blast
qed

lemma range_map_in_order [simp]: "range_map in_order m = m"
  by (simp add: range_map_def in_order_def map_nth)

text \<open>Rebuilding a map entry by entry, in any order, gives a map with the same entries.\<close>

lemma rebuild_map_get:
  assumes "valid_order ord" "gomap_wf m"
  shows "gomap_get (fold (\<lambda>(k, v). gomap_put k v) (range_map ord m) []) k = gomap_get m k"
proof -
  have "gomap_wf (rev (range_map ord m))"
    using range_map_wf [OF assms] by (simp add: gomap_wf_def rev_map [symmetric])
  moreover have "set (rev (range_map ord m)) = set m"
    by (simp add: set_range_map assms)
  ultimately have "map_of (rev (range_map ord m)) = map_of m"
    using assms(2) unfolding gomap_wf_def by (subst map_of_inject_set) auto
  then show ?thesis
    by (simp add: gm.get_fold_put) (simp add: gomap_get_def split: option.split)
qed

lemma rebuild_map_mset:
  assumes "valid_order ord" "gomap_wf m"
  shows "mset (fold (\<lambda>(k, v). gomap_put k v) (range_map ord m) []) = mset m"
  by (rule gomap_ext_mset) (simp_all add: assms gm.wf_fold_put rebuild_map_get)

text \<open>Updating every entry of a map while ranging over it.\<close>

lemma fold_update_get:
  assumes "distinct (map fst xs)"
  shows "gomap_get (fold (\<lambda>(k, v). gomap_put k (g k v)) xs m) k =
    (case map_of xs k of None \<Rightarrow> gomap_get m k | Some v \<Rightarrow> Some (g k v))"
  using assms
proof (induction xs arbitrary: m)
  case Nil
  then show ?case by simp
next
  case (Cons x xs)
  then show ?case
    by (cases x) (auto split: option.split simp: map_of_eq_None_iff dest: map_of_SomeD
        intro: rev_image_eqI)
qed

lemma update_all_get:
  assumes "valid_order ord" "gomap_wf m"
  shows "gomap_get (fold (\<lambda>(k, v). gomap_put k (g k v)) (range_map ord m) m) k =
    map_option (g k) (gomap_get m k)"
proof -
  have "map_of (range_map ord m) = map_of m"
    using assms range_map_wf [OF assms] unfolding gomap_wf_def
    by (subst map_of_inject_set) (auto simp: set_range_map)
  then show ?thesis
    using range_map_wf [OF assms]
    by (simp add: fold_update_get gomap_wf_def) (simp add: gomap_get_def split: option.split)
qed

lemma update_all_wf:
  "gomap_wf m \<Longrightarrow> gomap_wf (fold (\<lambda>(k, v). gomap_put k (g k v)) xs m)"
  by (induction xs arbitrary: m) auto

text \<open>Reading a map with the zero value for a missing key.\<close>

definition gomap_index :: "'v \<Rightarrow> ('k, 'v) gomap \<Rightarrow> 'k \<Rightarrow> 'v" where
  "gomap_index zero m k = (case gomap_get m k of None \<Rightarrow> zero | Some v \<Rightarrow> v)"

lemma gomap_index_put [simp]:
  "gomap_index z (gomap_put k v m) k' = (if k' = k then v else gomap_index z m k')"
  by (simp add: gomap_index_def)

lemma gomap_index_Nil [simp]: "gomap_index z [] k = z"
  by (simp add: gomap_index_def)

lemma gomap_keys: "fst ` set m = {k. gomap_get m k \<noteq> None}"
  by (auto simp: gomap_get_None_iff)

end
