(* ===== verification/Kube_Types.thy ===== *)
theory Kube_Types
  imports Prelude
begin

text \<open>
  The Kubernetes API objects that the program receives (\<open>k8s.io/api/core/v1\<close> and
  \<open>k8s.io/api/discovery/v1\<close>), restricted to the fields that the sources read. Go's
  embedding of \<open>ObjectMeta\<close> in \<open>Service\<close> and \<open>EndpointSlice\<close> is record extension, so
  \<^term>\<open>Name\<close> reads the name of both. A nilable pointer field is an \<open>option\<close>; the
  \<open>pointer.XDeref(p, d)\<close> calls of the sources are a case distinction on it.
  The string constants are the documented values of the API's constants.
\<close>

record ObjectMeta =
  Name :: string
  Namespace :: string
  ResourceVersion :: string
  Labels :: "(string, string) gomap"
  Annotations :: "(string, string) gomap"

record IntOrString =
  IntVal :: int32
  StrVal :: string

record ServicePort =
  port_Name :: string
  port_Protocol :: string
  AppProtocol :: "string option"
  port_Port :: int32
  TargetPort :: IntOrString
  port_NodePort :: int32

record ServiceSpec =
  Ports :: "ServicePort list"
  ClusterIPs :: "string list"
  ExternalIPs :: "string list"
  IPFamilies :: "string list"
  svc_Type :: string

record Service = ObjectMeta +
  Spec :: ServiceSpec

record EndpointConditions =
  Ready :: "bool option"
  Serving :: "bool option"
  Terminating :: "bool option"

record Endpoint =
  Addresses :: "string list"
  Conditions :: EndpointConditions
  NodeName :: "string option"
  Zone :: "string option"

record EndpointPort =
  ep_Port :: "int32 option"

record EndpointSlice = ObjectMeta +
  AddressType :: string
  Endpoints :: "Endpoint list"
  es_Ports :: "EndpointPort list"

abbreviation LabelServiceName :: string where
  "LabelServiceName \<equiv> ''kubernetes.io/service-name''"

abbreviation IPv4Protocol :: string where
  "IPv4Protocol \<equiv> ''IPv4''"

abbreviation IPv6Protocol :: string where
  "IPv6Protocol \<equiv> ''IPv6''"

abbreviation AddressTypeIPv6 :: string where
  "AddressTypeIPv6 \<equiv> ''IPv6''"

abbreviation ProtocolTCP :: string where
  "ProtocolTCP \<equiv> ''TCP''"

text \<open>
  Concrete objects, used by the witnesses of the components: a service with an HTTP port
  and one of its endpoint slices.
\<close>

definition ex_port :: ServicePort where
  "ex_port = \<lparr>port_Name = ''http'', port_Protocol = ''TCP'', AppProtocol = None,
     port_Port = 80, TargetPort = \<lparr>IntVal = 8080, StrVal = []\<rparr>, port_NodePort = 30080\<rparr>"

definition ex_service :: Service where
  "ex_service = \<lparr>Name = ''whoami'', Namespace = ''default'', ResourceVersion = ''5'',
     Labels = [], Annotations = [],
     Spec = \<lparr>Ports = [ex_port], ClusterIPs = [''10.0.0.1''], ExternalIPs = [],
       IPFamilies = [''IPv4''], svc_Type = ''ClusterIP''\<rparr>\<rparr>"

definition ex_endpoint :: Endpoint where
  "ex_endpoint = \<lparr>Addresses = [''10.1.0.7''],
     Conditions = \<lparr>Ready = Some True, Serving = Some True, Terminating = Some False\<rparr>,
     NodeName = Some ''node-a'', Zone = None\<rparr>"

definition ex_slice :: EndpointSlice where
  "ex_slice = \<lparr>Name = ''whoami-x7'', Namespace = ''default'', ResourceVersion = ''6'',
     Labels = [(LabelServiceName, ''whoami'')], Annotations = [],
     AddressType = ''IPv4'', Endpoints = [ex_endpoint], es_Ports = [\<lparr>ep_Port = Some 8080\<rparr>]\<rparr>"

lemmas ex_defs = ex_port_def ex_service_def ex_endpoint_def ex_slice_def

end
