(* ===== verification/Wellknown.thy ===== *)
theory Wellknown
  imports Kube_Types
begin

text \<open>
  \<open>pkg/wellknown/wellknown.go\<close>: names and default values of the per-port settings. A
  \<open>time.Duration\<close> is a signed 64 bit number of nanoseconds.
\<close>

definition time_Second :: int64 where
  "time_Second = 1000000000"

definition LightpathProxyName :: string where
  "LightpathProxyName = ''lightpath.cloud''"

definition LightpathProxyEnabledLabel :: string where
  "LightpathProxyEnabledLabel = ''lightpath.cloud/proxy''"

definition LightpathRedirectIptables :: string where
  "LightpathRedirectIptables = ''iptables''"

definition LightpathEnvoyPort :: int where
  "LightpathEnvoyPort = 1666"

definition PortConfigAnnotationPrefix :: string where
  "PortConfigAnnotationPrefix = ''config.lightpath.cloud/''"

definition PortIdleTimeout :: string where
  "PortIdleTimeout = ''idle-timeout''"

definition PortIdleTimeoutDefault :: int64 where
  "PortIdleTimeoutDefault = 300 * time_Second"

definition PortUpstreamIdleTimeout :: string where
  "PortUpstreamIdleTimeout = ''upstream-idle-timeout''"

definition PortUpstreamIdleTimeoutDefault :: int64 where
  "PortUpstreamIdleTimeoutDefault = 15 * time_Second"

definition PortRequestTimeout :: string where
  "PortRequestTimeout = ''request-timeout''"

definition PortRequestTimeoutDefault :: int64 where
  "PortRequestTimeoutDefault = 15 * time_Second"

definition PortUpstreamRequestTimeout :: string where
  "PortUpstreamRequestTimeout = ''upstream-request-timeout''"

definition PortUpstreamRequestTimeoutDefault :: int64 where
  "PortUpstreamRequestTimeoutDefault = 5 * time_Second"

definition PortUpstreamConnectTimeout :: string where
  "PortUpstreamConnectTimeout = ''upstream-connect-timeout''"

definition PortUpstreamConnectTimeoutDefault :: int64 where
  "PortUpstreamConnectTimeoutDefault = 5 * time_Second"

definition AccessLog :: string where
  "AccessLog = ''access-log''"

definition AccessLogDefault :: bool where
  "AccessLogDefault = True"

definition LoadBalancingPolicy :: string where
  "LoadBalancingPolicy = ''lb-policy''"

definition LoadBalancingPolicyDefault :: string where
  "LoadBalancingPolicyDefault = ''LEAST_REQUEST''"

definition PortRetryEnabled :: string where
  "PortRetryEnabled = ''retry-enabled''"

definition PortRetryOn :: string where
  "PortRetryOn = ''retry-on''"

definition PortNumRetries :: string where
  "PortNumRetries = ''num-retries''"

definition PortRetryEnabledDefault :: bool where
  "PortRetryEnabledDefault = True"

definition PortNumRetriesDefault :: uint32 where
  "PortNumRetriesDefault = 2"

definition PortRetryOnDefault :: string where
  "PortRetryOnDefault = ''5xx,reset,retriable-headers''"

definition PortCircuitBreakerDefaultMaxConnections :: string where
  "PortCircuitBreakerDefaultMaxConnections = ''circuit-breaker-default-max-connections''"

definition PortCircuitBreakerDefaultMaxConnectionsDefault :: uint32 where
  "PortCircuitBreakerDefaultMaxConnectionsDefault = 1000000000"

definition PortCircuitBreakerDefaultMaxPendingRequests :: string where
  "PortCircuitBreakerDefaultMaxPendingRequests = ''circuit-breaker-default-max-pending-requests''"

definition PortCircuitBreakerDefaultMaxPendingRequestsDefault :: uint32 where
  "PortCircuitBreakerDefaultMaxPendingRequestsDefault = 1000000000"

definition PortCircuitBreakerDefaultMaxRequests :: string where
  "PortCircuitBreakerDefaultMaxRequests = ''circuit-breaker-default-max-requests''"

definition PortCircuitBreakerDefaultMaxRequestsDefault :: uint32 where
  "PortCircuitBreakerDefaultMaxRequestsDefault = 1000000000"

definition PortCircuitBreakerDefaultMaxRetries :: string where
  "PortCircuitBreakerDefaultMaxRetries = ''circuit-breaker-default-max-retries''"

definition PortCircuitBreakerDefaultMaxRetriesDefault :: uint32 where
  "PortCircuitBreakerDefaultMaxRetriesDefault = 3"

definition PortCircuitBreakerDefaultTrackRemaining :: string where
  "PortCircuitBreakerDefaultTrackRemaining = ''circuit-breaker-default-track-remaining''"

definition PortCircuitBreakerDefaultTrackRemainingDefault :: bool where
  "PortCircuitBreakerDefaultTrackRemainingDefault = False"

definition PortCircuitBreakerHighMaxConnections :: string where
  "PortCircuitBreakerHighMaxConnections = ''circuit-breaker-high-max-connections''"

definition PortCircuitBreakerHighMaxConnectionsDefault :: uint32 where
  "PortCircuitBreakerHighMaxConnectionsDefault = 1000000000"

definition PortCircuitBreakerHighMaxPendingRequests :: string where
  "PortCircuitBreakerHighMaxPendingRequests = ''circuit-breaker-high-max-pending-requests''"

definition PortCircuitBreakerHighMaxPendingRequestsDefault :: uint32 where
  "PortCircuitBreakerHighMaxPendingRequestsDefault = 1000000000"

definition PortCircuitBreakerHighMaxRequests :: string where
  "PortCircuitBreakerHighMaxRequests = ''circuit-breaker-high-max-requests''"

definition PortCircuitBreakerHighMaxRequestsDefault :: uint32 where
  "PortCircuitBreakerHighMaxRequestsDefault = 1000000000"

definition PortCircuitBreakerHighMaxRetries :: string where
  "PortCircuitBreakerHighMaxRetries = ''circuit-breaker-high-max-retries''"

definition PortCircuitBreakerHighMaxRetriesDefault :: uint32 where
  "PortCircuitBreakerHighMaxRetriesDefault = 3"

definition PortCircuitBreakerHighTrackRemaining :: string where
  "PortCircuitBreakerHighTrackRemaining = ''circuit-breaker-high-track-remaining''"

definition PortCircuitBreakerHighTrackRemainingDefault :: bool where
  "PortCircuitBreakerHighTrackRemainingDefault = False"

definition PortOutlierDetectionInterval :: string where
  "PortOutlierDetectionInterval = ''outlier-detection-interval''"

definition PortOutlierDetectionIntervalDefault :: int64 where
  "PortOutlierDetectionIntervalDefault = 10 * time_Second"

definition PortOutlierDetectionBaseEjectionTime :: string where
  "PortOutlierDetectionBaseEjectionTime = ''outlier-detection-base-ejection-time''"

definition PortOutlierDetectionBaseEjectionTimeDefault :: int64 where
  "PortOutlierDetectionBaseEjectionTimeDefault = 30 * time_Second"

definition PortOutlierDetectionMaxEjectionTime :: string where
  "PortOutlierDetectionMaxEjectionTime = ''outlier-detection-max-ejection-time''"

definition PortOutlierDetectionMaxEjectionTimeDefault :: int64 where
  "PortOutlierDetectionMaxEjectionTimeDefault = 300 * time_Second"

definition PortOutlierDetectionMaxEjectionPercent :: string where
  "PortOutlierDetectionMaxEjectionPercent = ''outlier-detection-max-ejection-percent''"

definition PortOutlierDetectionMaxEjectionPercentDefault :: uint32 where
  "PortOutlierDetectionMaxEjectionPercentDefault = 10"

definition PortOutlierDetectionConsecutive5xx :: string where
  "PortOutlierDetectionConsecutive5xx = ''outlier-detection-consecutive-5xx''"

definition PortOutlierDetectionConsecutive5xxDefault :: uint32 where
  "PortOutlierDetectionConsecutive5xxDefault = 5"

definition PortOutlierDetectionConsecutiveGatewayFailure :: string where
  "PortOutlierDetectionConsecutiveGatewayFailure = ''outlier-detection-consecutive-gateway-failure''"

definition PortOutlierDetectionConsecutiveGatewayFailureDefault :: uint32 where
  "PortOutlierDetectionConsecutiveGatewayFailureDefault = 5"

definition AppProtocolTCP :: string where
  "AppProtocolTCP = ''tcp''"

definition AppProtocolHTTP :: string where
  "AppProtocolHTTP = ''http''"

definition AppProtocolRedis :: string where
  "AppProtocolRedis = ''lightpath.cloud/redis''"

lemmas wellknown_defs =
  time_Second_def
  LightpathProxyName_def LightpathProxyEnabledLabel_def LightpathRedirectIptables_def
  LightpathEnvoyPort_def PortConfigAnnotationPrefix_def PortIdleTimeout_def
  PortIdleTimeoutDefault_def PortUpstreamIdleTimeout_def PortUpstreamIdleTimeoutDefault_def
  PortRequestTimeout_def PortRequestTimeoutDefault_def PortUpstreamRequestTimeout_def
  PortUpstreamRequestTimeoutDefault_def PortUpstreamConnectTimeout_def
  PortUpstreamConnectTimeoutDefault_def AccessLog_def AccessLogDefault_def
  LoadBalancingPolicy_def LoadBalancingPolicyDefault_def PortRetryEnabled_def PortRetryOn_def
  PortNumRetries_def PortRetryEnabledDefault_def PortNumRetriesDefault_def PortRetryOnDefault_def
  PortCircuitBreakerDefaultMaxConnections_def PortCircuitBreakerDefaultMaxConnectionsDefault_def
  PortCircuitBreakerDefaultMaxPendingRequests_def
  PortCircuitBreakerDefaultMaxPendingRequestsDefault_def PortCircuitBreakerDefaultMaxRequests_def
  PortCircuitBreakerDefaultMaxRequestsDefault_def PortCircuitBreakerDefaultMaxRetries_def
  PortCircuitBreakerDefaultMaxRetriesDefault_def PortCircuitBreakerDefaultTrackRemaining_def
  PortCircuitBreakerDefaultTrackRemainingDefault_def PortCircuitBreakerHighMaxConnections_def
  PortCircuitBreakerHighMaxConnectionsDefault_def PortCircuitBreakerHighMaxPendingRequests_def
  PortCircuitBreakerHighMaxPendingRequestsDefault_def PortCircuitBreakerHighMaxRequests_def
  PortCircuitBreakerHighMaxRequestsDefault_def PortCircuitBreakerHighMaxRetries_def
  PortCircuitBreakerHighMaxRetriesDefault_def PortCircuitBreakerHighTrackRemaining_def
  PortCircuitBreakerHighTrackRemainingDefault_def PortOutlierDetectionInterval_def
  PortOutlierDetectionIntervalDefault_def PortOutlierDetectionBaseEjectionTime_def
  PortOutlierDetectionBaseEjectionTimeDefault_def PortOutlierDetectionMaxEjectionTime_def
  PortOutlierDetectionMaxEjectionTimeDefault_def PortOutlierDetectionMaxEjectionPercent_def
  PortOutlierDetectionMaxEjectionPercentDefault_def PortOutlierDetectionConsecutive5xx_def
  PortOutlierDetectionConsecutive5xxDefault_def PortOutlierDetectionConsecutiveGatewayFailure_def
  PortOutlierDetectionConsecutiveGatewayFailureDefault_def AppProtocolTCP_def AppProtocolHTTP_def
  AppProtocolRedis_def

end
