(* ===== verification/Go_Strconv.thy ===== *)
theory Go_Strconv
  imports Prelude
begin

text \<open>
  The parts of Go's \<open>fmt\<close>, \<open>strconv\<close> and \<open>strings\<close> packages that the sources use:
  printing an integer with \<open>%d\<close>, \<open>strconv.ParseInt(s, 10, 64)\<close>, \<open>strconv.ParseBool\<close> and
  \<open>strings.Contains\<close> for one character.
\<close>

section \<open>Printing\<close>

definition digit_char :: "nat \<Rightarrow> char" where
  "digit_char d = ''0123456789'' ! d"

fun fmt_nat :: "nat \<Rightarrow> string" where
  "fmt_nat n = (if n < 10 then [digit_char n] else fmt_nat (n div 10) @ [digit_char (n mod 10)])"

declare fmt_nat.simps [simp del]

definition fmt_int :: "int \<Rightarrow> string" where
  "fmt_int i = (if i < 0 then CHR ''-'' # fmt_nat (nat (- i)) else fmt_nat (nat i))"

definition fmt_int32 :: "int32 \<Rightarrow> string" where
  "fmt_int32 w = fmt_int (sint w)"

section \<open>Parsing\<close>

datatype parse_error = ErrSyntax | ErrRange

definition digit_val :: "char \<Rightarrow> nat option" where
  "digit_val c =
     (let n = of_char c :: nat in if 48 \<le> n \<and> n \<le> 57 then Some (n - 48) else None)"

text \<open>
  \<open>ParseUint\<close> in base 10 with 64 bits: digits are accumulated from the left, the first
  character that is not a digit is a syntax error, and exceeding 64 bits a range error.
\<close>

fun parse_digits :: "nat \<Rightarrow> string \<Rightarrow> parse_error + nat" where
  "parse_digits n [] = Inr n"
| "parse_digits n (c # cs) =
     (case digit_val c of
        None \<Rightarrow> Inl ErrSyntax
      | Some d \<Rightarrow> if n * 10 + d \<ge> 2 ^ 64 then Inl ErrRange else parse_digits (n * 10 + d) cs)"

definition ParseUint :: "string \<Rightarrow> parse_error + nat" where
  "ParseUint s = (if s = [] then Inl ErrSyntax else parse_digits 0 s)"

definition parse_signed :: "bool \<Rightarrow> string \<Rightarrow> parse_error + int" where
  "parse_signed neg s =
     (case ParseUint s of
        Inl e \<Rightarrow> Inl e
      | Inr un \<Rightarrow>
          if \<not> neg \<and> un \<ge> 2 ^ 63 then Inl ErrRange
          else if neg \<and> un > 2 ^ 63 then Inl ErrRange
          else Inr (if neg then - int un else int un))"

definition ParseInt :: "string \<Rightarrow> parse_error + int" where
  "ParseInt s =
     (case s of
        [] \<Rightarrow> Inl ErrSyntax
      | c # cs \<Rightarrow>
          if c = CHR ''+'' then parse_signed False cs
          else if c = CHR ''-'' then parse_signed True cs
          else parse_signed False s)"

definition ParseBool :: "string \<Rightarrow> parse_error + bool" where
  "ParseBool s =
     (if s \<in> {''1'', ''t'', ''T'', ''true'', ''TRUE'', ''True''} then Inr True
      else if s \<in> {''0'', ''f'', ''F'', ''false'', ''FALSE'', ''False''} then Inr False
      else Inl ErrSyntax)"

definition strings_Contains_char :: "string \<Rightarrow> char \<Rightarrow> bool" where
  "strings_Contains_char s c \<longleftrightarrow> c \<in> set s"

section \<open>Digits\<close>

lemma less_10_cases: "(d::nat) < 10 \<Longrightarrow> d \<in> {0, 1, 2, 3, 4, 5, 6, 7, 8, 9}"
  by auto

lemma of_char_digit_char: "d < 10 \<Longrightarrow> of_char (digit_char d) = 48 + d"
  by (drule less_10_cases) (auto simp: digit_char_def numeral_eq_Suc)

lemma digit_val_digit_char [simp]: "d < 10 \<Longrightarrow> digit_val (digit_char d) = Some d"
  by (simp add: digit_val_def of_char_digit_char)

lemma digit_char_inject: "d < 10 \<Longrightarrow> e < 10 \<Longrightarrow> digit_char d = digit_char e \<longleftrightarrow> d = e"
  by (metis digit_val_digit_char option.inject)

lemma digit_char_neq:
  assumes "d < 10" "digit_val c = None"
  shows "digit_char d \<noteq> c" "c \<noteq> digit_char d"
  using assms digit_val_digit_char by fastforce+

lemma digit_char_less_iff: "d < 10 \<Longrightarrow> e < 10 \<Longrightarrow> digit_char d < digit_char e \<longleftrightarrow> d < e"
  by (simp add: less_char_def of_char_digit_char)

lemma fmt_nat_digits: "c \<in> set (fmt_nat n) \<Longrightarrow> \<exists>d < 10. c = digit_char d"
proof (induction n rule: fmt_nat.induct)
  case (1 n)
  then show ?case
    by (cases "n < 10") (auto simp: fmt_nat.simps [of n] intro: exI [of _ "n mod 10"])
qed

lemma fmt_nat_not_Nil [simp]: "fmt_nat n \<noteq> []" "[] \<noteq> fmt_nat n"
  by (subst fmt_nat.simps, simp)+

lemma fmt_nat_no_sep: "digit_val c = None \<Longrightarrow> c \<notin> set (fmt_nat n)"
  using fmt_nat_digits digit_char_neq by blast

lemma hd_fmt_nat_zero: "0 < n \<Longrightarrow> hd (fmt_nat n) \<noteq> CHR ''0''"
proof (induction n rule: fmt_nat.induct)
  case (1 n)
  show ?case
  proof (cases "n < 10")
    case True
    then show ?thesis
      using "1.prems" digit_char_inject [of n 0] by (simp add: fmt_nat.simps [of n] digit_char_def)
  next
    case False
    then show ?thesis using "1.IH" by (simp add: fmt_nat.simps [of n])
  qed
qed

lemma fmt_int_no_sep: "digit_val c = None \<Longrightarrow> c \<noteq> CHR ''-'' \<Longrightarrow> c \<notin> set (fmt_int i)"
  by (simp add: fmt_int_def fmt_nat_no_sep)

section \<open>Round trip\<close>

lemma parse_digits_append:
  "parse_digits n (xs @ ys) =
     (case parse_digits n xs of Inl e \<Rightarrow> Inl e | Inr m \<Rightarrow> parse_digits m ys)"
  by (induction xs arbitrary: n) (auto split: option.split)

lemma parse_digits_fmt_nat: "n < 2 ^ 64 \<Longrightarrow> parse_digits 0 (fmt_nat n) = Inr n"
proof (induction n rule: fmt_nat.induct)
  case (1 n)
  show ?case
  proof (cases "n < 10")
    case True
    then show ?thesis by (simp add: fmt_nat.simps [of n])
  next
    case False
    have "parse_digits 0 (fmt_nat (n div 10)) = Inr (n div 10)"
      using "1" False by auto
    moreover have "n div 10 * 10 + n mod 10 = n" by simp
    ultimately show ?thesis
      using False "1.prems" by (simp add: fmt_nat.simps [of n] parse_digits_append)
  qed
qed

lemma ParseUint_fmt_nat: "n < 2 ^ 64 \<Longrightarrow> ParseUint (fmt_nat n) = Inr n"
  by (simp add: ParseUint_def parse_digits_fmt_nat)

lemma fmt_nat_head_digit:
  "fmt_nat n = c # cs \<Longrightarrow> \<exists>d < 10. c = digit_char d"
  by (rule fmt_nat_digits [of c n]) simp

lemma sign_not_digit [simp]: "digit_val CHR ''+'' = None" "digit_val CHR ''-'' = None"
  by (simp_all add: digit_val_def)

lemma bar_not_digit [simp]: "digit_val CHR ''|'' = None"
  by (simp add: digit_val_def)

lemma ParseInt_fmt_int:
  assumes "- (2 ^ 63) \<le> i" "i < 2 ^ 63"
  shows "ParseInt (fmt_int i) = Inr i"
proof (cases "i < 0")
  case True
  then have "ParseInt (fmt_int i) = parse_signed True (fmt_nat (nat (- i)))"
    by (simp add: ParseInt_def fmt_int_def)
  moreover have "ParseUint (fmt_nat (nat (- i))) = Inr (nat (- i))"
    using assms True by (intro ParseUint_fmt_nat) simp
  ultimately show ?thesis
    using assms True by (simp add: parse_signed_def nat_less_iff)
next
  case False
  obtain c cs where c: "fmt_nat (nat i) = c # cs"
    by (meson fmt_nat_not_Nil(1) neq_Nil_conv)
  then have "c \<noteq> CHR ''+''" "c \<noteq> CHR ''-''"
    using fmt_nat_head_digit digit_char_neq sign_not_digit by metis+
  with False c have "ParseInt (fmt_int i) = parse_signed False (fmt_nat (nat i))"
    by (simp add: ParseInt_def fmt_int_def)
  moreover have "ParseUint (fmt_nat (nat i)) = Inr (nat i)"
    using assms False by (intro ParseUint_fmt_nat) simp
  ultimately show ?thesis
    using assms False by (simp add: parse_signed_def nat_le_iff not_le)
qed

lemma parse_digits_bound: "parse_digits n s = Inr m \<Longrightarrow> n < 2 ^ 64 \<Longrightarrow> m < 2 ^ 64"
  by (induction n s rule: parse_digits.induct) (auto split: option.splits if_splits)

lemma ParseInt_bounds: "ParseInt s = Inr i \<Longrightarrow> - (2 ^ 63) \<le> i \<and> i < 2 ^ 63"
  by (auto simp: ParseInt_def parse_signed_def not_le not_less split: list.splits if_splits sum.splits)

lemma fmt_nat_inject:
  assumes "fmt_nat m = fmt_nat n"
  shows "m = n"
  using assms
proof (induction m arbitrary: n rule: fmt_nat.induct)
  case (1 m)
  have snoc: "\<not> k < 10 \<Longrightarrow> fmt_nat k = fmt_nat (k div 10) @ [digit_char (k mod 10)]" for k
    by (simp add: fmt_nat.simps [of k])
  have single: "k < 10 \<Longrightarrow> fmt_nat k = [digit_char k]" for k
    by (simp add: fmt_nat.simps [of k])
  show ?case
  proof (cases "m < 10"; cases "n < 10")
    assume "m < 10" "n < 10"
    with "1.prems" show ?thesis by (simp add: single digit_char_inject)
  next
    assume "m < 10" "\<not> n < 10"
    with "1.prems" show ?thesis by (simp add: single snoc)
  next
    assume "\<not> m < 10" "n < 10"
    with "1.prems" show ?thesis by (simp add: single snoc)
  next
    assume mn: "\<not> m < 10" "\<not> n < 10"
    with "1.prems" have "fmt_nat (m div 10) = fmt_nat (n div 10)" "m mod 10 = n mod 10"
      by (simp_all add: snoc digit_char_inject)
    with "1.IH" mn have "m div 10 = n div 10" by blast
    with \<open>m mod 10 = n mod 10\<close> show ?thesis by (metis div_mod_decomp)
  qed
qed

lemma minus_notin_fmt_nat: "CHR ''-'' \<notin> set (fmt_nat n)"
  by (simp add: fmt_nat_no_sep)

lemma hd_fmt_nat: "hd (fmt_nat n) \<noteq> CHR ''-''"
proof
  assume "hd (fmt_nat n) = CHR ''-''"
  with hd_in_set [OF fmt_nat_not_Nil(1) [of n]] have "CHR ''-'' \<in> set (fmt_nat n)" by simp
  with minus_notin_fmt_nat [of n] show False by simp
qed

lemma fmt_int_inject: "fmt_int i = fmt_int j \<longleftrightarrow> i = j"
proof
  assume eq: "fmt_int i = fmt_int j"
  have hd: "hd (fmt_int k) = CHR ''-'' \<longleftrightarrow> k < 0" for k
    by (simp add: fmt_int_def hd_fmt_nat)
  from hd [of i] hd [of j] eq have "i < 0 \<longleftrightarrow> j < 0" by simp
  with eq show "i = j"
    by (auto simp: fmt_int_def dest!: fmt_nat_inject split: if_splits)
qed simp

lemma fmt_int32_inject [simp]: "fmt_int32 v = fmt_int32 w \<longleftrightarrow> v = w"
  by (auto simp: fmt_int32_def fmt_int_inject intro: signed_word_eqI)

lemma fmt_int32_no_sep: "digit_val c = None \<Longrightarrow> c \<noteq> CHR ''-'' \<Longrightarrow> c \<notin> set (fmt_int32 i)"
  by (simp add: fmt_int32_def fmt_int_no_sep)

section \<open>String order of decimal numbers\<close>

text \<open>
  The string order of two decimal numbers is their numeric order when they have equally
  many digits. With different lengths it need not be.
\<close>

lemma snoc_less_snoc:
  fixes xs ys :: "'a::linorder list"
  shows "length xs = length ys \<Longrightarrow> xs @ [a] < ys @ [b] \<longleftrightarrow> xs < ys \<or> xs = ys \<and> a < b"
  by (induction xs ys rule: list_induct2) auto

lemma fmt_nat_less_iff:
  assumes "length (fmt_nat m) = length (fmt_nat n)"
  shows "fmt_nat m < fmt_nat n \<longleftrightarrow> m < n"
  using assms
proof (induction m arbitrary: n rule: fmt_nat.induct)
  case (1 m)
  have snoc: "\<not> k < 10 \<Longrightarrow> fmt_nat k = fmt_nat (k div 10) @ [digit_char (k mod 10)]" for k
    by (simp add: fmt_nat.simps [of k])
  have single: "k < 10 \<Longrightarrow> fmt_nat k = [digit_char k]" for k
    by (simp add: fmt_nat.simps [of k])
  show ?case
  proof (cases "m < 10"; cases "n < 10")
    assume "m < 10" "n < 10"
    then show ?thesis by (simp add: single digit_char_less_iff)
  next
    assume "m < 10" "\<not> n < 10"
    with "1.prems" show ?thesis by (simp add: single snoc)
  next
    assume "\<not> m < 10" "n < 10"
    with "1.prems" show ?thesis by (simp add: single snoc)
  next
    assume mn: "\<not> m < 10" "\<not> n < 10"
    with "1.prems" have len: "length (fmt_nat (m div 10)) = length (fmt_nat (n div 10))"
      by (simp add: snoc)
    with "1.IH" mn have IH: "fmt_nat (m div 10) < fmt_nat (n div 10) \<longleftrightarrow> m div 10 < n div 10"
      by blast
    have "fmt_nat (m div 10) = fmt_nat (n div 10) \<longleftrightarrow> m div 10 = n div 10"
      using fmt_nat_inject by auto
    with IH len mn have "fmt_nat m < fmt_nat n \<longleftrightarrow>
        m div 10 < n div 10 \<or> m div 10 = n div 10 \<and> m mod 10 < n mod 10"
      by (simp add: snoc snoc_less_snoc digit_char_less_iff)
    also have "\<dots> \<longleftrightarrow> m < n"
      using div_mult_mod_eq [of m 10] div_mult_mod_eq [of n 10] mod_less_divisor [of 10 m]
        mod_less_divisor [of 10 n] by arith
    finally show ?thesis .
  qed
qed

lemma fmt_nat_le_iff:
  "length (fmt_nat m) = length (fmt_nat n) \<Longrightarrow> fmt_nat m \<le> fmt_nat n \<longleftrightarrow> m \<le> n"
  using fmt_nat_less_iff [of n m] by (auto simp: not_less [symmetric])

lemma fmt_nat_pow10: "fmt_nat (10 ^ k) = CHR ''1'' # replicate k CHR ''0''"
proof (induction k)
  case 0
  then show ?case by (simp add: fmt_nat.simps digit_char_def)
next
  case (Suc k)
  have "\<not> (10::nat) ^ Suc k < 10" by simp
  then have "fmt_nat (10 ^ Suc k) = fmt_nat (10 ^ k) @ [CHR ''0'']"
    by (subst fmt_nat.simps) (simp add: digit_char_def)
  with Suc show ?case by (simp add: replicate_append_same)
qed

lemma fmt_nat_nines: "fmt_nat (10 ^ Suc k - 1) = replicate (Suc k) CHR ''9''"
proof (induction k)
  case 0
  then show ?case by (simp add: fmt_nat.simps digit_char_def)
next
  case (Suc k)
  let ?n = "(10::nat) ^ Suc (Suc k) - 1"
  have pos: "(1::nat) \<le> 10 ^ k" by simp
  have eq: "?n = 10 * (10 ^ Suc k - 1) + 9" using pos by (simp add: algebra_simps)
  have dm: "(10 * m + 9) div 10 = m" "(10 * m + 9) mod 10 = 9" for m :: nat by presburger+
  have "?n div 10 = 10 ^ Suc k - 1" "?n mod 10 = 9" unfolding eq by (rule dm)+
  moreover have "\<not> ?n < 10" using pos unfolding power_Suc by linarith
  ultimately have "fmt_nat ?n = fmt_nat (10 ^ Suc k - 1) @ [CHR ''9'']"
    by (subst fmt_nat.simps) (simp add: digit_char_def)
  with Suc show ?case by (simp add: replicate_append_same)
qed

lemma fmt_nat_pow10_less: "fmt_nat (10 ^ Suc k) < fmt_nat (10 ^ Suc k - 1)"
  by (simp only: fmt_nat_pow10 fmt_nat_nines replicate_Suc) simp

text \<open>Evaluation of printed literals by the simplifier.\<close>

lemmas fmt_eval =
  fmt_nat.simps [of "numeral k" for k] fmt_nat.simps [of 0] fmt_nat.simps [of 1]
  fmt_int_def fmt_int32_def digit_char_def

end
