(* ===== verification/Helper.thy ===== *)
theory Helper
  imports Wellknown Go_Strconv
begin

text \<open>
  \<open>pkg/translations/helper.go\<close>: resource names, and reading one setting of one port from
  the annotations of its service.
\<close>

definition ipStringToIpFamily :: "string \<Rightarrow> string" where
  "ipStringToIpFamily ip =
     (if strings_Contains_char ip CHR '':'' then IPv6Protocol else IPv4Protocol)"

definition getClusterName :: "string \<Rightarrow> string \<Rightarrow> string \<Rightarrow> int32 \<Rightarrow> string" where
  "getClusterName namespace nm ipFamily port =
     ipFamily @ ''|'' @ namespace @ ''|'' @ nm @ ''|'' @ fmt_int32 port"

definition getListenerName :: "string \<Rightarrow> string \<Rightarrow> string \<Rightarrow> int32 \<Rightarrow> string" where
  "getListenerName namespace nm ip port =
     ipStringToIpFamily ip @ ''|'' @ namespace @ ''|'' @ nm @ ''|'' @ ip @ ''|'' @ fmt_int32 port"

definition getPortSettingsAnnotationsKey :: "Service \<Rightarrow> ServicePort \<Rightarrow> string \<Rightarrow> string" where
  "getPortSettingsAnnotationsKey svc port setting =
     PortConfigAnnotationPrefix @ port_Name port @ ''-'' @ setting"

text \<open>\<open>uint32(res)\<close> keeps the low 32 bits of the parsed 64 bit integer.\<close>

definition getUint32Config :: "Service \<Rightarrow> ServicePort \<Rightarrow> string \<Rightarrow> uint32 \<Rightarrow> uint32" where
  "getUint32Config svc port setting defaultValue =
     (let key = getPortSettingsAnnotationsKey svc port setting
      in case gomap_get (Annotations svc) key of
           None \<Rightarrow> defaultValue
         | Some orig \<Rightarrow>
             (case ParseInt orig of
                Inl err \<Rightarrow> defaultValue
              | Inr res \<Rightarrow> word_of_int res))"

text \<open>
  \<open>uint32(d.Seconds())\<close>. \<open>Seconds\<close> is a float, exact for the whole seconds that are the
  defaults; the conversion truncates it.
\<close>

definition duration_seconds :: "int64 \<Rightarrow> uint32" where
  "duration_seconds d = word_of_int (sint d div 1000000000)"

definition getDurationConfig :: "Service \<Rightarrow> ServicePort \<Rightarrow> string \<Rightarrow> int64 \<Rightarrow> int64" where
  "getDurationConfig svc port setting defaultValue =
     (let res = getUint32Config svc port setting (duration_seconds defaultValue)
      in ucast res * time_Second)"

definition getBoolConfig :: "Service \<Rightarrow> ServicePort \<Rightarrow> string \<Rightarrow> bool \<Rightarrow> bool" where
  "getBoolConfig svc port setting defaultValue =
     (let key = getPortSettingsAnnotationsKey svc port setting
      in case gomap_get (Annotations svc) key of
           None \<Rightarrow> defaultValue
         | Some orig \<Rightarrow>
             (case ParseBool orig of
                Inl err \<Rightarrow> defaultValue
              | Inr res \<Rightarrow> res))"

definition getStringConfig :: "Service \<Rightarrow> ServicePort \<Rightarrow> string \<Rightarrow> string \<Rightarrow> string" where
  "getStringConfig svc port setting defaultValue =
     (let key = getPortSettingsAnnotationsKey svc port setting
      in case gomap_get (Annotations svc) key of
           None \<Rightarrow> defaultValue
         | Some orig \<Rightarrow> orig)"

lemmas config_defs =
  getUint32Config_def getDurationConfig_def getBoolConfig_def getStringConfig_def

section \<open>Names\<close>

lemma bar_notin_fmt_int32 [simp]: "CHR ''|'' \<notin> set (fmt_int32 p)"
  by (rule fmt_int32_no_sep) simp_all

definition bar_free :: "string \<Rightarrow> bool" where
  "bar_free s \<longleftrightarrow> CHR ''|'' \<notin> set s"

lemma bar_split:
  assumes "bar_free xs" "bar_free ys" "xs @ ''|'' @ us = ys @ ''|'' @ vs"
  shows "xs = ys \<and> us = vs"
  by (rule split_at_sep [of "CHR ''|''"]) (use assms in \<open>simp_all add: bar_free_def\<close>)

lemma getClusterName_inject:
  assumes free: "bar_free ns" "bar_free n" "bar_free f" "bar_free ns'" "bar_free n'" "bar_free f'"
  shows "getClusterName ns n f p = getClusterName ns' n' f' p' \<longleftrightarrow>
    ns = ns' \<and> n = n' \<and> f = f' \<and> p = p'"
proof
  assume "getClusterName ns n f p = getClusterName ns' n' f' p'"
  from bar_split [OF free(3,6) this [unfolded getClusterName_def]]
  have f: "f = f'" and r1: "ns @ ''|'' @ n @ ''|'' @ fmt_int32 p = ns' @ ''|'' @ n' @ ''|'' @ fmt_int32 p'"
    by (rule conjunct1, rule conjunct2)
  from bar_split [OF free(1,4) r1]
  have ns: "ns = ns'" and r2: "n @ ''|'' @ fmt_int32 p = n' @ ''|'' @ fmt_int32 p'"
    by (rule conjunct1, rule conjunct2)
  from bar_split [OF free(2,5) r2] f ns show "ns = ns' \<and> n = n' \<and> f = f' \<and> p = p'"
    by (simp only: fmt_int32_inject)
qed (simp only: simp_thms)

lemma bar_free_family [simp]: "bar_free (ipStringToIpFamily ip)" "bar_free IPv4Protocol"
    "bar_free IPv6Protocol"
  by (simp_all add: bar_free_def ipStringToIpFamily_def)

section \<open>Settings\<close>

definition annotation :: "Service \<Rightarrow> ServicePort \<Rightarrow> string \<Rightarrow> string option" where
  "annotation svc port setting =
     gomap_get (Annotations svc) (getPortSettingsAnnotationsKey svc port setting)"

lemma getUint32Config_default [simp]:
  "annotation svc port setting = None \<Longrightarrow> getUint32Config svc port setting d = d"
  by (simp add: getUint32Config_def annotation_def)

lemma getBoolConfig_default [simp]:
  "annotation svc port setting = None \<Longrightarrow> getBoolConfig svc port setting d = d"
  by (simp add: getBoolConfig_def annotation_def)

lemma getStringConfig_default [simp]:
  "annotation svc port setting = None \<Longrightarrow> getStringConfig svc port setting d = d"
  by (simp add: getStringConfig_def annotation_def)

lemma getUint32Config_number:
  assumes "annotation svc port setting = Some (fmt_int i)" "- (2 ^ 63) \<le> i" "i < 2 ^ 63"
  shows "getUint32Config svc port setting d = word_of_int i"
  using assms by (simp add: getUint32Config_def annotation_def ParseInt_fmt_int)

lemma sint_seconds: "sint (ucast (w :: uint32) * time_Second :: int64) = uint w * 1000000000"
proof -
  have "uint w < 2 ^ 32" using unsigned_less [of w, where 'a = int] by simp
  then have "(uint w * 1000000000 + 2 ^ 63) mod 2 ^ 64 = uint w * 1000000000 + 2 ^ 63"
    by (intro mod_pos_pos_trivial) simp_all
  moreover have "(ucast w * time_Second :: int64) = word_of_int (uint w * 1000000000)"
    by (simp add: time_Second_def unsigned_ucast_eq)
  ultimately show ?thesis
    by (simp only: int_word_sint) simp
qed

lemma getListenerName_inject:
  assumes free: "bar_free ns" "bar_free n" "bar_free ip" "bar_free ns'" "bar_free n'" "bar_free ip'"
  shows "getListenerName ns n ip p = getListenerName ns' n' ip' p' \<longleftrightarrow>
    ns = ns' \<and> n = n' \<and> ip = ip' \<and> p = p'"
proof
  assume "getListenerName ns n ip p = getListenerName ns' n' ip' p'"
  from bar_split [OF bar_free_family(1) bar_free_family(1) this [unfolded getListenerName_def]]
  have r0: "ns @ ''|'' @ n @ ''|'' @ ip @ ''|'' @ fmt_int32 p =
      ns' @ ''|'' @ n' @ ''|'' @ ip' @ ''|'' @ fmt_int32 p'"
    by (rule conjunct2)
  from bar_split [OF free(1,4) r0]
  have ns: "ns = ns'" and r1: "n @ ''|'' @ ip @ ''|'' @ fmt_int32 p = n' @ ''|'' @ ip' @ ''|'' @ fmt_int32 p'"
    by (rule conjunct1, rule conjunct2)
  from bar_split [OF free(2,5) r1]
  have n: "n = n'" and r2: "ip @ ''|'' @ fmt_int32 p = ip' @ ''|'' @ fmt_int32 p'"
    by (rule conjunct1, rule conjunct2)
  from bar_split [OF free(3,6) r2] n ns show "ns = ns' \<and> n = n' \<and> ip = ip' \<and> p = p'"
    by (simp only: fmt_int32_inject)
qed (simp only: simp_thms)

lemma getUint32Config_decimal:
  assumes "annotation svc port setting = Some (fmt_nat (unat w))"
  shows "getUint32Config svc port setting d = w"
proof -
  have "fmt_nat (unat w) = fmt_int (uint w)" by (simp add: fmt_int_def)
  moreover have "uint w < 2 ^ 32" using unsigned_less [of w, where 'a = int] by simp
  then have "uint w < 2 ^ 63" by simp
  moreover have "- (2 ^ 63) \<le> uint w" by (rule order_trans [of _ 0]) simp_all
  ultimately show ?thesis
    using getUint32Config_number [of svc port setting "uint w" d] assms by simp
qed

section \<open>Properties\<close>

text \<open>
  Cluster names identify their cluster: if the namespaces, names and families contain no
  bar (Kubernetes names never do), equal cluster names have equal components.
\<close>

theorem getClusterName_injective:
  assumes "bar_free ns" "bar_free n" "bar_free f" "bar_free ns'" "bar_free n'" "bar_free f'"
  shows "getClusterName ns n f p = getClusterName ns' n' f' p' \<longleftrightarrow>
    ns = ns' \<and> n = n' \<and> f = f' \<and> p = p'"
  using assms by (rule getClusterName_inject)

theorem getClusterName_injective_witness:
  "getClusterName ''default'' ''whoami'' ''IPv4'' 8080 \<noteq>
     getClusterName ''default'' ''whoami'' ''IPv4'' 8081"
  by (subst getClusterName_injective) (simp_all add: bar_free_def)

text \<open>
  Listener names identify namespace, service, address and port in the same way.
\<close>

theorem getListenerName_injective:
  assumes "bar_free ns" "bar_free n" "bar_free ip" "bar_free ns'" "bar_free n'" "bar_free ip'"
  shows "getListenerName ns n ip p = getListenerName ns' n' ip' p' \<longleftrightarrow>
    ns = ns' \<and> n = n' \<and> ip = ip' \<and> p = p'"
  using assms by (rule getListenerName_inject)

theorem getListenerName_injective_witness:
  "getListenerName ''default'' ''whoami'' ''10.0.0.1'' 80 \<noteq>
     getListenerName ''default'' ''whoami'' ''10.0.0.2'' 80"
  by (subst getListenerName_injective) (simp_all add: bar_free_def)

text \<open>
  Round trip: a 32 bit number written in decimal into the annotation of a port is the
  value of the setting.
\<close>

theorem getUint32Config_roundtrip:
  assumes "annotation svc port setting = Some (fmt_nat (unat w))"
  shows "getUint32Config svc port setting d = w"
  by (rule getUint32Config_decimal [OF assms])

theorem getUint32Config_roundtrip_witness:
  "getUint32Config (ex_service\<lparr>Annotations := [(''config.lightpath.cloud/http-num-retries'',
      fmt_nat (unat (3 :: uint32)))]\<rparr>) ex_port PortNumRetries 2 = 3"
  by (rule getUint32Config_roundtrip)
    (simp add: annotation_def getPortSettingsAnnotationsKey_def wellknown_defs gomap_get_def
      ex_port_def)

text \<open>
  C39. A number outside the 32 bit range is neither rejected nor clamped: its value is the
  number modulo \<open>2 ^ 32\<close>, so \<open>-1\<close> becomes 4294967295 and 4294967296 becomes 0.
\<close>

theorem getUint32Config_wraps:
  assumes "annotation svc port setting = Some (fmt_int i)" "- (2 ^ 63) \<le> i" "i < 2 ^ 63"
  shows "uint (getUint32Config svc port setting d) = i mod 2 ^ 32"
  using getUint32Config_number [OF assms] by (simp add: uint_word_of_int)

theorem getUint32Config_wraps_witness:
  "uint (getUint32Config (ex_service\<lparr>Annotations := [(''config.lightpath.cloud/http-num-retries'',
      fmt_int (-1))]\<rparr>) ex_port PortNumRetries 2) = 4294967295"
  by (subst getUint32Config_wraps [where i = "-1"])
    (simp_all add: annotation_def getPortSettingsAnnotationsKey_def wellknown_defs gomap_get_def
      ex_port_def)

text \<open>
  The multiplication of a configured number of seconds into nanoseconds never overflows
  the 64 bit duration: every duration setting is a whole, non-negative number of seconds below
  \<open>2 ^ 32\<close>.
\<close>

theorem getDurationConfig_no_overflow:
  "\<exists>n. 0 \<le> n \<and> n < 2 ^ 32 \<and>
     n = uint (getUint32Config svc port setting (duration_seconds d)) \<and>
     sint (getDurationConfig svc port setting d) = n * 1000000000"
  using unsigned_less [of "getUint32Config svc port setting (duration_seconds d)", where 'a = int]
  by (simp add: getDurationConfig_def sint_seconds)

text \<open>
  The annotation key is ambiguous: a hyphenated port name and a shorter setting name give
  the key of another port's setting, so the timeout of a port \<open>http-upstream\<close> also sets the
  upstream timeout of a port \<open>http\<close> of the same service.
\<close>

theorem annotation_key_ambiguous:
  assumes "port_Name p = x" "port_Name q = x @ ''-upstream''"
  shows "getPortSettingsAnnotationsKey svc p PortUpstreamIdleTimeout =
    getPortSettingsAnnotationsKey svc q PortIdleTimeout"
  using assms
  by (simp add: getPortSettingsAnnotationsKey_def PortUpstreamIdleTimeout_def PortIdleTimeout_def)

theorem annotation_key_ambiguous_witness:
  "getPortSettingsAnnotationsKey ex_service ex_port PortUpstreamIdleTimeout =
    getPortSettingsAnnotationsKey ex_service (ex_port\<lparr>port_Name := ''http-upstream''\<rparr>) PortIdleTimeout"
  by (rule annotation_key_ambiguous [where x = "''http''"]) (simp_all add: ex_port_def)

end
