(* ===== verification/Port_Settings.thy ===== *)
theory Port_Settings
  imports Helper
begin

text \<open>
  \<open>pkg/translations/portsettings.go\<close> and \<open>types.go\<close>: the settings of one service port,
  read from the annotations of the service with the defaults of \<open>pkg/wellknown\<close>.
  \<open>Cluster_LbPolicy\<close> is Envoy's enumeration, with the constants that the source uses.
\<close>

datatype Protocol = PROTOCOL_TCP | PROTOCOL_HTTP | PROTOCOL_REDIS

datatype Cluster_LbPolicy =
    Cluster_ROUND_ROBIN
  | Cluster_LEAST_REQUEST
  | Cluster_RING_HASH
  | Cluster_RANDOM
  | Cluster_MAGLEV

text \<open>\<open>KubeMapper\<close> is an empty struct: its methods have no receiver state.\<close>

definition getProtocol :: "ServicePort \<Rightarrow> Protocol" where
  "getProtocol port =
     (let appProtocolOrPortName = (case AppProtocol port of Some p \<Rightarrow> p | None \<Rightarrow> port_Name port)
      in if appProtocolOrPortName = AppProtocolRedis then PROTOCOL_REDIS
         else if appProtocolOrPortName = AppProtocolHTTP then PROTOCOL_HTTP
         else if appProtocolOrPortName = AppProtocolTCP then PROTOCOL_TCP
         else PROTOCOL_TCP)"

definition getLbPolicy :: "string \<Rightarrow> Cluster_LbPolicy" where
  "getLbPolicy lbPolicy =
     (if lbPolicy = ''LEAST_REQUEST'' then Cluster_LEAST_REQUEST
      else if lbPolicy = ''ROUND_ROBIN'' then Cluster_ROUND_ROBIN
      else if lbPolicy = ''MAGLEV'' then Cluster_MAGLEV
      else if lbPolicy = ''RANDOM'' then Cluster_RANDOM
      else if lbPolicy = ''RING_HASH'' then Cluster_RING_HASH
      else Cluster_LEAST_REQUEST)"

record PortSettings =
  Protocol :: Protocol
  IdleTimeout :: int64
  RequestTimeout :: int64
  UpstreamRequestTimeout :: int64
  UpstreamIdleTimeout :: int64
  UpstreamConnectTimeout :: int64
  EnableRetry :: bool
  RetryOn :: string
  NumRetries :: uint32
  CircuitBreakerDefaultMaxConnections :: uint32
  CircuitBreakerDefaultMaxPendingRequests :: uint32
  CircuitBreakerDefaultMaxRequests :: uint32
  CircuitBreakerDefaultMaxRetries :: uint32
  CircuitBreakerDefaultTrackRemaining :: bool
  CircuitBreakerHighMaxConnections :: uint32
  CircuitBreakerHighMaxPendingRequests :: uint32
  CircuitBreakerHighMaxRequests :: uint32
  CircuitBreakerHighMaxRetries :: uint32
  CircuitBreakerHighTrackRemaining :: bool
  OutlierDetectionInterval :: int64
  OutlierDetectionBaseEjectionTime :: int64
  OutlierDetectionMaxEjectionTime :: int64
  OutlierDetectionMaxEjectionPercent :: uint32
  OutlierDetectionConsecutive5xx :: uint32
  OutlierDetectionConsecutiveGatewayFailure :: uint32
  AccessLog :: bool
  LoadBalancingPolicy :: Cluster_LbPolicy

definition getPortSetings :: "Service \<Rightarrow> ServicePort \<Rightarrow> PortSettings" where
  "getPortSetings svc port =
     (let protocol = getProtocol port;
          lbPolicy = getLbPolicy (getStringConfig svc port Wellknown.LoadBalancingPolicy
            LoadBalancingPolicyDefault)
      in \<lparr>Protocol = protocol,
         IdleTimeout = getDurationConfig svc port PortIdleTimeout PortIdleTimeoutDefault,
         RequestTimeout = getDurationConfig svc port PortRequestTimeout PortRequestTimeoutDefault,
         UpstreamRequestTimeout =
           getDurationConfig svc port PortUpstreamRequestTimeout
             PortUpstreamRequestTimeoutDefault,
         UpstreamIdleTimeout =
           getDurationConfig svc port PortUpstreamIdleTimeout
             PortUpstreamIdleTimeoutDefault,
         UpstreamConnectTimeout =
           getDurationConfig svc port PortUpstreamConnectTimeout
             PortUpstreamConnectTimeoutDefault,
         EnableRetry = getBoolConfig svc port PortRetryEnabled PortRetryEnabledDefault,
         RetryOn = getStringConfig svc port PortRetryOn PortRetryOnDefault,
         NumRetries = getUint32Config svc port PortNumRetries PortNumRetriesDefault,
         CircuitBreakerDefaultMaxConnections =
           getUint32Config svc port PortCircuitBreakerDefaultMaxConnections
             PortCircuitBreakerDefaultMaxConnectionsDefault,
         CircuitBreakerDefaultMaxPendingRequests =
           getUint32Config svc port PortCircuitBreakerDefaultMaxPendingRequests
             PortCircuitBreakerDefaultMaxPendingRequestsDefault,
         CircuitBreakerDefaultMaxRequests =
           getUint32Config svc port PortCircuitBreakerDefaultMaxRequests
             PortCircuitBreakerDefaultMaxRequestsDefault,
         CircuitBreakerDefaultMaxRetries =
           getUint32Config svc port PortCircuitBreakerDefaultMaxRetries
             PortCircuitBreakerDefaultMaxRetriesDefault,
         CircuitBreakerDefaultTrackRemaining =
           getBoolConfig svc port PortCircuitBreakerDefaultTrackRemaining
             PortCircuitBreakerDefaultTrackRemainingDefault,
         CircuitBreakerHighMaxConnections =
           getUint32Config svc port PortCircuitBreakerHighMaxConnections
             PortCircuitBreakerHighMaxConnectionsDefault,
         CircuitBreakerHighMaxPendingRequests =
           getUint32Config svc port PortCircuitBreakerHighMaxPendingRequests
             PortCircuitBreakerHighMaxPendingRequestsDefault,
         CircuitBreakerHighMaxRequests =
           getUint32Config svc port PortCircuitBreakerHighMaxRequests
             PortCircuitBreakerHighMaxRequestsDefault,
         CircuitBreakerHighMaxRetries =
           getUint32Config svc port PortCircuitBreakerHighMaxRetries
             PortCircuitBreakerHighMaxRetriesDefault,
         CircuitBreakerHighTrackRemaining =
           getBoolConfig svc port PortCircuitBreakerHighTrackRemaining
             PortCircuitBreakerHighTrackRemainingDefault,
         OutlierDetectionInterval =
           getDurationConfig svc port PortOutlierDetectionInterval
             PortOutlierDetectionIntervalDefault,
         OutlierDetectionBaseEjectionTime =
           getDurationConfig svc port PortOutlierDetectionBaseEjectionTime
             PortOutlierDetectionBaseEjectionTimeDefault,
         OutlierDetectionMaxEjectionTime =
           getDurationConfig svc port PortOutlierDetectionMaxEjectionTime
             PortOutlierDetectionMaxEjectionTimeDefault,
         OutlierDetectionMaxEjectionPercent =
           getUint32Config svc port PortOutlierDetectionMaxEjectionPercent
             PortOutlierDetectionMaxEjectionPercentDefault,
         OutlierDetectionConsecutive5xx =
           getUint32Config svc port PortOutlierDetectionConsecutive5xx
             PortOutlierDetectionConsecutive5xxDefault,
         OutlierDetectionConsecutiveGatewayFailure =
           getUint32Config svc port PortOutlierDetectionConsecutiveGatewayFailure
             PortOutlierDetectionConsecutiveGatewayFailureDefault,
         AccessLog = getBoolConfig svc port Wellknown.AccessLog AccessLogDefault,
         LoadBalancingPolicy = lbPolicy\<rparr>)"

section \<open>Defaults\<close>

text \<open>The names of all settings, as they occur in annotation keys.\<close>

definition port_setting_names :: "string list" where
  "port_setting_names =
     [PortIdleTimeout,
      PortRequestTimeout,
      PortUpstreamRequestTimeout,
      PortUpstreamIdleTimeout,
      PortUpstreamConnectTimeout,
      PortRetryEnabled,
      PortRetryOn,
      PortNumRetries,
      PortCircuitBreakerDefaultMaxConnections,
      PortCircuitBreakerDefaultMaxPendingRequests,
      PortCircuitBreakerDefaultMaxRequests,
      PortCircuitBreakerDefaultMaxRetries,
      PortCircuitBreakerDefaultTrackRemaining,
      PortCircuitBreakerHighMaxConnections,
      PortCircuitBreakerHighMaxPendingRequests,
      PortCircuitBreakerHighMaxRequests,
      PortCircuitBreakerHighMaxRetries,
      PortCircuitBreakerHighTrackRemaining,
      PortOutlierDetectionInterval,
      PortOutlierDetectionBaseEjectionTime,
      PortOutlierDetectionMaxEjectionTime,
      PortOutlierDetectionMaxEjectionPercent,
      PortOutlierDetectionConsecutive5xx,
      PortOutlierDetectionConsecutiveGatewayFailure,
      Wellknown.AccessLog,
      Wellknown.LoadBalancingPolicy]"

text \<open>The settings of a port that no annotation configures.\<close>

definition default_PortSettings :: "ServicePort \<Rightarrow> PortSettings" where
  "default_PortSettings port =
     \<lparr>Protocol = getProtocol port,
      IdleTimeout = PortIdleTimeoutDefault,
      RequestTimeout = PortRequestTimeoutDefault,
      UpstreamRequestTimeout = PortUpstreamRequestTimeoutDefault,
      UpstreamIdleTimeout = PortUpstreamIdleTimeoutDefault,
      UpstreamConnectTimeout = PortUpstreamConnectTimeoutDefault,
      EnableRetry = PortRetryEnabledDefault,
      RetryOn = PortRetryOnDefault,
      NumRetries = PortNumRetriesDefault,
      CircuitBreakerDefaultMaxConnections = PortCircuitBreakerDefaultMaxConnectionsDefault,
      CircuitBreakerDefaultMaxPendingRequests =
        PortCircuitBreakerDefaultMaxPendingRequestsDefault,
      CircuitBreakerDefaultMaxRequests = PortCircuitBreakerDefaultMaxRequestsDefault,
      CircuitBreakerDefaultMaxRetries = PortCircuitBreakerDefaultMaxRetriesDefault,
      CircuitBreakerDefaultTrackRemaining = PortCircuitBreakerDefaultTrackRemainingDefault,
      CircuitBreakerHighMaxConnections = PortCircuitBreakerHighMaxConnectionsDefault,
      CircuitBreakerHighMaxPendingRequests = PortCircuitBreakerHighMaxPendingRequestsDefault,
      CircuitBreakerHighMaxRequests = PortCircuitBreakerHighMaxRequestsDefault,
      CircuitBreakerHighMaxRetries = PortCircuitBreakerHighMaxRetriesDefault,
      CircuitBreakerHighTrackRemaining = PortCircuitBreakerHighTrackRemainingDefault,
      OutlierDetectionInterval = PortOutlierDetectionIntervalDefault,
      OutlierDetectionBaseEjectionTime = PortOutlierDetectionBaseEjectionTimeDefault,
      OutlierDetectionMaxEjectionTime = PortOutlierDetectionMaxEjectionTimeDefault,
      OutlierDetectionMaxEjectionPercent = PortOutlierDetectionMaxEjectionPercentDefault,
      OutlierDetectionConsecutive5xx = PortOutlierDetectionConsecutive5xxDefault,
      OutlierDetectionConsecutiveGatewayFailure =
        PortOutlierDetectionConsecutiveGatewayFailureDefault,
      AccessLog = AccessLogDefault,
      LoadBalancingPolicy = Cluster_LEAST_REQUEST\<rparr>"

text \<open>A default duration that is a whole number of seconds survives the way through 32 bits.\<close>

definition whole_seconds :: "int64 \<Rightarrow> bool" where
  "whole_seconds d \<longleftrightarrow>
     0 \<le> sint d \<and> sint d mod 1000000000 = 0 \<and> sint d div 1000000000 < 2 ^ 32"

lemma getDurationConfig_default:
  assumes "annotation svc port setting = None" "whole_seconds d"
  shows "getDurationConfig svc port setting d = d"
proof (rule signed_word_eqI [where 'a = int])
  let ?n = "sint d div 1000000000"
  have n: "0 \<le> ?n" "?n < 2 ^ 32" "?n * 1000000000 = sint d"
    using assms(2) div_mult_mod_eq [of "sint d" 1000000000] by (auto simp: whole_seconds_def)
  have "uint (duration_seconds d) = ?n"
    using n by (simp add: duration_seconds_def uint_word_of_int)
  then show "sint (getDurationConfig svc port setting d) = sint d"
    using assms(1) n(3) by (simp add: getDurationConfig_def sint_seconds)
qed

lemma defaults_whole_seconds:
  "whole_seconds PortIdleTimeoutDefault" "whole_seconds PortRequestTimeoutDefault"
  "whole_seconds PortUpstreamRequestTimeoutDefault" "whole_seconds PortUpstreamIdleTimeoutDefault"
  "whole_seconds PortUpstreamConnectTimeoutDefault"
  "whole_seconds PortOutlierDetectionIntervalDefault"
  "whole_seconds PortOutlierDetectionBaseEjectionTimeDefault"
  "whole_seconds PortOutlierDetectionMaxEjectionTimeDefault"
  by (simp_all add: whole_seconds_def wellknown_defs)

lemma getLbPolicy_default: "getLbPolicy LoadBalancingPolicyDefault = Cluster_LEAST_REQUEST"
  by (simp add: getLbPolicy_def LoadBalancingPolicyDefault_def)

lemma config_cong:
  assumes "annotation svc port setting = annotation svc' port' setting"
  shows "getUint32Config svc port setting d = getUint32Config svc' port' setting d"
    and "getBoolConfig svc port setting b = getBoolConfig svc' port' setting b"
    and "getStringConfig svc port setting s = getStringConfig svc' port' setting s"
  using assms by (simp_all add: config_defs annotation_def)

lemma getDurationConfig_cong:
  assumes "annotation svc port setting = annotation svc' port' setting"
  shows "getDurationConfig svc port setting d = getDurationConfig svc' port' setting d"
  using config_cong(1) [OF assms] by (simp add: getDurationConfig_def)

text \<open>Only the field \<open>EnableRetry\<close> depends on the retry annotation.\<close>

definition other_settings :: "string list" where
  "other_settings = take 5 port_setting_names @ drop 6 port_setting_names"

lemma retry_not_in_other_settings: "PortRetryEnabled \<notin> set other_settings"
  by (simp add: other_settings_def port_setting_names_def wellknown_defs)

lemma getPortSetings_EnableRetry:
  assumes "\<And>n. n \<noteq> PortRetryEnabled \<Longrightarrow> annotation svc' port n = annotation svc port n"
  shows "getPortSetings svc' port = (getPortSetings svc port)
    \<lparr>EnableRetry := getBoolConfig svc' port PortRetryEnabled PortRetryEnabledDefault\<rparr>"
proof -
  have "\<forall>n \<in> set other_settings. annotation svc' port n = annotation svc port n"
    using assms retry_not_in_other_settings by metis
  then show ?thesis
    by (simp add: other_settings_def port_setting_names_def getPortSetings_def Let_def
        config_cong [of svc' port _ svc port] getDurationConfig_cong [of svc' port _ svc port])
qed

lemma getPortSetings_default:
  assumes "\<forall>n \<in> set port_setting_names. annotation svc port n = None"
  shows "getPortSetings svc port = default_PortSettings port"
  using assms
  by (simp add: getPortSetings_def default_PortSettings_def port_setting_names_def Let_def
      getDurationConfig_default defaults_whole_seconds getLbPolicy_default)

section \<open>Properties\<close>

text \<open>
  A port that no annotation configures has the documented defaults in every field; in
  particular the default durations survive the conversion to 32 bit seconds and back.
\<close>

theorem getPortSetings_defaults:
  assumes "\<forall>n \<in> set port_setting_names. annotation svc port n = None"
  shows "getPortSetings svc port = default_PortSettings port"
  by (rule getPortSetings_default [OF assms])

theorem getPortSetings_defaults_witness:
  "getPortSetings ex_service ex_port = default_PortSettings ex_port"
  by (rule getPortSetings_defaults) (simp add: annotation_def ex_service_def)

text \<open>
  The settings of a port depend on the annotations of its own settings only: two services
  that agree on them (and two ports of the same protocol) get the same settings.
\<close>

theorem getPortSetings_frame:
  assumes "\<forall>n \<in> set port_setting_names. annotation svc port n = annotation svc' port' n"
    and "getProtocol port = getProtocol port'"
  shows "getPortSetings svc port = getPortSetings svc' port'"
  using assms(1) unfolding port_setting_names_def list.set ball_simps
  by (simp add: getPortSetings_def Let_def assms(2)
      config_cong [of svc port _ svc' port'] getDurationConfig_cong [of svc port _ svc' port'])

theorem getPortSetings_frame_witness:
  "getPortSetings ex_service ex_port =
    getPortSetings (ex_service\<lparr>Annotations := [(''team'', ''net'')]\<rparr>) ex_port"
  by (rule getPortSetings_frame)
    (simp_all add: annotation_def getPortSettingsAnnotationsKey_def PortConfigAnnotationPrefix_def
      ex_service_def gomap_get_def)

text \<open>
  No two settings of a port are read from the same annotation.
\<close>

theorem annotation_keys_distinct:
  "distinct (map (getPortSettingsAnnotationsKey svc port) port_setting_names)"
proof -
  have "inj (getPortSettingsAnnotationsKey svc port)"
    by (simp add: inj_def getPortSettingsAnnotationsKey_def)
  moreover have "distinct port_setting_names"
    by (simp add: port_setting_names_def wellknown_defs)
  ultimately show ?thesis by (auto simp: distinct_map intro: inj_on_subset)
qed

end
