(* ===== verification/Envoy_Types.thy ===== *)
theory Envoy_Types
  imports Port_Settings
begin

text \<open>
  The Envoy API messages that the mapper builds (\<open>github.com/envoyproxy/go-control-plane\<close>),
  with the fields that the sources set; every other field keeps its zero value. The wrapper
  functions of the protobuf library (\<open>durationpb.New\<close>, \<open>wrapperspb.UInt32\<close>,
  \<open>wrapperspb.Bool\<close>) are free constructors. \<open>anypb.New\<close> packs a message into an \<open>Any\<close> and
  may fail to marshal it: the error of the marshaller is a parameter \<open>marshal\<close>.
\<close>

datatype pb_Duration = durationpb_New int64
datatype pb_UInt32Value = wrapperspb_UInt32 uint32
datatype pb_BoolValue = wrapperspb_Bool bool

datatype 'm Any = Any (any_message: 'm)

text \<open>Messages that are only used as the typed configuration of a part of another message.\<close>

datatype config_message =
    RouterMessage
  | PreviousHostsPredicateMessage
  | StdoutAccessLogMessage "(string, string) gomap"

section \<open>Network filters\<close>

record TcpProxy =
  tcp_StatPrefix :: string
  tcp_Cluster :: string
  tcp_IdleTimeout :: pb_Duration
  tcp_UpstreamIdleTimeout :: pb_Duration
  tcp_MaxConnectAttempts :: pb_UInt32Value

datatype HeadersWithUnderscoresAction = HttpProtocolOptions_REJECT_REQUEST

record HttpProtocolOptions =
  hpo_IdleTimeout :: pb_Duration
  hpo_HeadersWithUnderscoresAction :: HeadersWithUnderscoresAction

record Http2ProtocolOptions =
  MaxConcurrentStreams :: pb_UInt32Value
  InitialStreamWindowSize :: pb_UInt32Value
  InitialConnectionWindowSize :: pb_UInt32Value

record NamedConfig =
  nc_Name :: string
  nc_TypedConfig :: "config_message Any"

record RouteAction =
  ra_Cluster :: string
  ra_IdleTimeout :: pb_Duration
  ra_Timeout :: pb_Duration

record Route =
  route_Name :: string
  route_MatchPrefix :: string
  route_Action :: RouteAction

record RetryPolicy =
  rp_RetryOn :: string
  rp_NumRetries :: pb_UInt32Value
  rp_PerTryTimeout :: pb_Duration
  rp_PerTryIdleTimeout :: pb_Duration
  rp_RetryHostPredicate :: "NamedConfig list"

record VirtualHost =
  vh_Name :: string
  vh_Domains :: "string list"
  vh_IncludeRequestAttemptCount :: bool
  vh_Routes :: "Route list"
  vh_RetryPolicy :: RetryPolicy

record RouteConfiguration =
  rc_Name :: string
  rc_VirtualHosts :: "VirtualHost list"

record HttpConnectionManager =
  hcm_StatPrefix :: string
  hcm_CommonHttpProtocolOptions :: HttpProtocolOptions
  hcm_Http2ProtocolOptions :: Http2ProtocolOptions
  hcm_StreamIdleTimeout :: pb_Duration
  hcm_RequestTimeout :: pb_Duration
  hcm_HttpFilters :: "NamedConfig list"
  hcm_RouteConfig :: RouteConfiguration
  hcm_AccessLog :: "NamedConfig list"

datatype filter_message =
    TcpProxyMessage TcpProxy
  | HttpConnectionManagerMessage HttpConnectionManager

record Filter =
  filter_Name :: string
  filter_TypedConfig :: "filter_message Any"

record FilterChain =
  Filters :: "Filter list"

section \<open>Listeners\<close>

datatype SocketAddress_Protocol = SocketAddress_TCP

record SocketAddress =
  sa_Protocol :: SocketAddress_Protocol
  sa_Address :: string
  sa_PortValue :: uint32

record Listener =
  listener_Name :: string
  listener_Address :: SocketAddress
  PerConnectionBufferLimitBytes :: pb_UInt32Value
  BindToPort :: pb_BoolValue
  FilterChains :: "FilterChain list"

section \<open>Clusters\<close>

datatype Cluster_DiscoveryType = Cluster_EDS

datatype ApiVersion = ApiVersion_V3

datatype ConfigSource = ConfigSource_Ads ApiVersion

datatype RoutingPriority = RoutingPriority_DEFAULT | RoutingPriority_HIGH

record Thresholds =
  th_Priority :: RoutingPriority
  th_MaxConnections :: pb_UInt32Value
  th_MaxPendingRequests :: pb_UInt32Value
  th_MaxRequests :: pb_UInt32Value
  th_MaxRetries :: pb_UInt32Value
  th_TrackRemaining :: bool

record OutlierDetection =
  od_Interval :: pb_Duration
  od_BaseEjectionTime :: pb_Duration
  od_MaxEjectionTime :: pb_Duration
  od_MaxEjectionPercent :: pb_UInt32Value
  od_Consecutive_5Xx :: pb_UInt32Value
  od_ConsecutiveGatewayFailure :: pb_UInt32Value

record Cluster =
  cluster_Name :: string
  cluster_ConnectTimeout :: pb_Duration
  cluster_Type :: Cluster_DiscoveryType
  cluster_EdsConfig :: ConfigSource
  cluster_LbPolicy :: Cluster_LbPolicy
  cluster_Thresholds :: "Thresholds list"
  cluster_OutlierDetection :: OutlierDetection

section \<open>Endpoints\<close>

datatype HealthStatus = HealthStatus_HEALTHY | HealthStatus_UNHEALTHY | HealthStatus_DRAINING

record LbEndpoint =
  lbe_HealthStatus :: HealthStatus
  lbe_Hostname :: string
  lbe_Address :: SocketAddress

record LocalityLbEndpoints =
  lle_Zone :: string
  lle_SubZone :: string
  lle_LbEndpoints :: "LbEndpoint list"

record ClusterLoadAssignment =
  cla_ClusterName :: string
  cla_Endpoints :: "LocalityLbEndpoints list"

section \<open>Packing\<close>

datatype message =
    ConfigMessage config_message
  | FilterMessage filter_message

type_synonym marshaller = "message \<Rightarrow> go_error option"

definition anypb_New :: "marshaller \<Rightarrow> ('m \<Rightarrow> message) \<Rightarrow> 'm \<Rightarrow> go_error + 'm Any" where
  "anypb_New marshal kind m =
     (case marshal (kind m) of Some err \<Rightarrow> Inl err | None \<Rightarrow> Inr (Any m))"

text \<open>The sources state that marshalling their messages never fails.\<close>

definition marshals :: "marshaller \<Rightarrow> bool" where
  "marshals marshal \<longleftrightarrow> (\<forall>m. marshal m = None)"

lemma anypb_New_marshals [simp]: "marshals marshal \<Longrightarrow> anypb_New marshal kind m = Inr (Any m)"
  by (simp add: anypb_New_def marshals_def)

lemma anypb_New_Inr: "anypb_New marshal kind m = Inr a \<Longrightarrow> a = Any m"
  by (auto simp: anypb_New_def split: option.splits)

text \<open>The clusters that a filter sends traffic to.\<close>

fun filter_targets :: "filter_message \<Rightarrow> string list" where
  "filter_targets (TcpProxyMessage t) = [tcp_Cluster t]"
| "filter_targets (HttpConnectionManagerMessage h) =
     map (\<lambda>r. ra_Cluster (route_Action r))
       (concat (map vh_Routes (rc_VirtualHosts (hcm_RouteConfig h))))"

definition chains_targets :: "FilterChain list \<Rightarrow> string list" where
  "chains_targets fcs =
     concat (map (\<lambda>f. filter_targets (any_message (filter_TypedConfig f)))
       (concat (map Filters fcs)))"

definition listener_targets :: "Listener \<Rightarrow> string list" where
  "listener_targets l = chains_targets (FilterChains l)"

lemma chains_targets_Nil [simp]: "chains_targets [] = []"
  by (simp add: chains_targets_def)

lemma chains_targets_single [simp]:
  "chains_targets [\<lparr>Filters = [\<lparr>filter_Name = n, filter_TypedConfig = Any m\<rparr>]\<rparr>] = filter_targets m"
  by (simp add: chains_targets_def)

end
