(* ===== verification/Filters.thy ===== *)
theory Filters
  imports Envoy_Types
begin

text \<open>
  \<open>pkg/translations/filter_tcp.go\<close> and \<open>filter_http.go\<close>: the filter chains of a listener.
  A failing \<open>anypb.New\<close> panics.
\<close>

abbreviation wellknown_Router :: string where
  "wellknown_Router \<equiv> ''envoy.filters.http.router''"

abbreviation wellknown_HTTPConnectionManager :: string where
  "wellknown_HTTPConnectionManager \<equiv> ''envoy.filters.network.http_connection_manager''"

abbreviation wellknown_TCPProxy :: string where
  "wellknown_TCPProxy \<equiv> ''envoy.filters.network.tcp_proxy''"

definition stdoutAccessLogConfig :: config_message where
  "stdoutAccessLogConfig = StdoutAccessLogMessage
     [(''start_time'', ''%START_TIME%''),
      (''method'', ''%REQ(:METHOD)%''),
      (''authority'', ''%REQ(:AUTHORITY)%''),
      (''path'', ''%REQ(X-ENVOY-ORIGINAL-PATH?:PATH)%''),
      (''protocol'', ''%PROTOCOL%''),
      (''response_code'', ''%RESPONSE_CODE%''),
      (''response_flags'', ''%RESPONSE_FLAGS%''),
      (''bytes_received'', ''%BYTES_RECEIVED%''),
      (''bytes_sent'', ''%BYTES_SENT%''),
      (''duration'', ''%DURATION%''),
      (''request_id'', ''%REQ(X-REQUEST-ID)%''),
      (''upstream_host'', ''%UPSTREAM_HOST%''),
      (''upstream_request_attempt_count'', ''%UPSTREAM_REQUEST_ATTEMPT_COUNT%''),
      (''downstream_remote_address'', ''%DOWNSTREAM_REMOTE_ADDRESS%'')]"

definition genTCPFilterChain :: "marshaller \<Rightarrow> PortSettings \<Rightarrow> string \<Rightarrow> FilterChain list go" where
  "genTCPFilterChain marshal portSettings targetClusterName =
     go_bind (go_must (anypb_New marshal FilterMessage (TcpProxyMessage
       \<lparr>tcp_StatPrefix = ''source_tcp'',
        tcp_Cluster = targetClusterName,
        tcp_IdleTimeout = durationpb_New (IdleTimeout portSettings),
        tcp_UpstreamIdleTimeout = durationpb_New (UpstreamIdleTimeout portSettings),
        tcp_MaxConnectAttempts = wrapperspb_UInt32 (NumRetries portSettings)\<rparr>))) (\<lambda>tcpProxy.
     Inr [\<lparr>Filters = [\<lparr>filter_Name = wellknown_TCPProxy, filter_TypedConfig = tcpProxy\<rparr>]\<rparr>])"

definition httpConnectionManager ::
    "PortSettings \<Rightarrow> string \<Rightarrow> config_message Any \<Rightarrow> config_message Any \<Rightarrow> HttpConnectionManager" where
  "httpConnectionManager portSettings targetClusterName routerConfig retryPreviousHostPredicate =
     \<lparr>hcm_StatPrefix = ''source_http'',
      hcm_CommonHttpProtocolOptions =
        \<lparr>hpo_IdleTimeout = durationpb_New (3600 * time_Second),
         hpo_HeadersWithUnderscoresAction = HttpProtocolOptions_REJECT_REQUEST\<rparr>,
      hcm_Http2ProtocolOptions =
        \<lparr>MaxConcurrentStreams = wrapperspb_UInt32 100,
         InitialStreamWindowSize = wrapperspb_UInt32 65536,
         InitialConnectionWindowSize = wrapperspb_UInt32 1048576\<rparr>,
      hcm_StreamIdleTimeout = durationpb_New (IdleTimeout portSettings),
      hcm_RequestTimeout = durationpb_New (RequestTimeout portSettings),
      hcm_HttpFilters = [\<lparr>nc_Name = wellknown_Router, nc_TypedConfig = routerConfig\<rparr>],
      hcm_RouteConfig =
        \<lparr>rc_Name = ''default'',
         rc_VirtualHosts = [\<lparr>
           vh_Name = ''anycast'',
           vh_Domains = [''*''],
           vh_IncludeRequestAttemptCount = True,
           vh_Routes = [\<lparr>
             route_Name = ''catchall'',
             route_MatchPrefix = ''/'',
             route_Action =
               \<lparr>ra_Cluster = targetClusterName,
                ra_IdleTimeout = durationpb_New (UpstreamIdleTimeout portSettings),
                ra_Timeout = durationpb_New (UpstreamRequestTimeout portSettings)\<rparr>\<rparr>],
           vh_RetryPolicy =
             \<lparr>rp_RetryOn = RetryOn portSettings,
              rp_NumRetries = wrapperspb_UInt32 (NumRetries portSettings),
              rp_PerTryTimeout = durationpb_New (UpstreamRequestTimeout portSettings),
              rp_PerTryIdleTimeout = durationpb_New (UpstreamIdleTimeout portSettings),
              rp_RetryHostPredicate =
                [\<lparr>nc_Name = ''envoy.retry_host_predicates.previous_hosts'',
                  nc_TypedConfig = retryPreviousHostPredicate\<rparr>]\<rparr>\<rparr>]\<rparr>,
      hcm_AccessLog = []\<rparr>"

definition genHTTPFilterChain :: "marshaller \<Rightarrow> PortSettings \<Rightarrow> string \<Rightarrow> FilterChain list go" where
  "genHTTPFilterChain marshal portSettings targetClusterName =
     go_bind (go_must (anypb_New marshal ConfigMessage stdoutAccessLogConfig)) (\<lambda>accessLogConfig.
     go_bind (go_must (anypb_New marshal ConfigMessage RouterMessage)) (\<lambda>routerConfig.
     go_bind (go_must (anypb_New marshal ConfigMessage PreviousHostsPredicateMessage))
       (\<lambda>retryPreviousHostPredicate.
     let hcm0 = httpConnectionManager portSettings targetClusterName routerConfig
                  retryPreviousHostPredicate;
         hcm = (if AccessLog portSettings
                then hcm0\<lparr>hcm_AccessLog :=
                  [\<lparr>nc_Name = ''envoy.access_loggers.stdout'', nc_TypedConfig = accessLogConfig\<rparr>]\<rparr>
                else hcm0)
     in go_bind (go_must (anypb_New marshal FilterMessage (HttpConnectionManagerMessage hcm)))
       (\<lambda>tcpProxy.
     Inr [\<lparr>Filters = [\<lparr>filter_Name = wellknown_HTTPConnectionManager,
                        filter_TypedConfig = tcpProxy\<rparr>]\<rparr>]))))"

section \<open>The contract of a filter chain generator\<close>

text \<open>
  What \<open>genListener\<close> relies on: a generator only fails when a message cannot be marshalled,
  and the chains it returns send all traffic to the one cluster it is given.
\<close>

locale filter_chain_generator =
  fixes gen :: "marshaller \<Rightarrow> PortSettings \<Rightarrow> string \<Rightarrow> FilterChain list go"
  assumes gen_total: "marshals marshal \<Longrightarrow> \<exists>fcs. gen marshal ps c = Inr fcs"
    and gen_targets: "gen marshal ps c = Inr fcs \<Longrightarrow> chains_targets fcs = [c]"
    and gen_retry: "gen marshal (ps\<lparr>EnableRetry := b\<rparr>) c = gen marshal ps c"
begin

lemma gen_nonempty: "gen marshal ps c = Inr fcs \<Longrightarrow> fcs \<noteq> []"
  by (drule gen_targets) auto

lemma gen_inject:
  "gen marshal ps c = Inr fcs \<Longrightarrow> gen marshal ps' c' = Inr fcs \<Longrightarrow> c = c'"
  by (drule gen_targets, drule gen_targets) simp

end

lemma httpConnectionManager_targets:
  "filter_targets (HttpConnectionManagerMessage (httpConnectionManager ps c r p)) = [c]"
  "filter_targets (HttpConnectionManagerMessage
     (httpConnectionManager ps c r p\<lparr>hcm_AccessLog := al\<rparr>)) = [c]"
  by (simp_all add: httpConnectionManager_def)

lemma httpConnectionManager_retry:
  "httpConnectionManager (ps\<lparr>EnableRetry := b\<rparr>) = httpConnectionManager ps"
  by (intro ext) (simp add: httpConnectionManager_def)

interpretation tcp_chain: filter_chain_generator genTCPFilterChain
proof
  show "\<exists>fcs. genTCPFilterChain marshal ps c = Inr fcs" if "marshals marshal" for marshal ps c
    using that by (simp add: genTCPFilterChain_def)
  show "chains_targets fcs = [c]" if "genTCPFilterChain marshal ps c = Inr fcs"
    for marshal ps c fcs
    using that by (auto simp: genTCPFilterChain_def go_bind_Inr_iff dest!: anypb_New_Inr)
  show "genTCPFilterChain marshal (ps\<lparr>EnableRetry := b\<rparr>) c = genTCPFilterChain marshal ps c"
    for marshal ps b c
    by (simp add: genTCPFilterChain_def)
qed

interpretation http_chain: filter_chain_generator genHTTPFilterChain
proof
  show "\<exists>fcs. genHTTPFilterChain marshal ps c = Inr fcs" if "marshals marshal" for marshal ps c
    using that by (simp add: genHTTPFilterChain_def Let_def)
  show "chains_targets fcs = [c]" if "genHTTPFilterChain marshal ps c = Inr fcs"
    for marshal ps c fcs
    using that
    by (auto simp: genHTTPFilterChain_def go_bind_Inr_iff Let_def httpConnectionManager_targets
        simp del: filter_targets.simps dest!: anypb_New_Inr)
  show "genHTTPFilterChain marshal (ps\<lparr>EnableRetry := b\<rparr>) c = genHTTPFilterChain marshal ps c"
    for marshal ps b c
    by (simp add: genHTTPFilterChain_def httpConnectionManager_retry)
qed

end
