(* ===== verification/Mapper_Listener.thy ===== *)
theory Mapper_Listener
  imports Filters
begin

text \<open>
  \<open>pkg/translations/mapper_listener.go\<close>: the virtual listeners of one service port, one for
  every cluster IP and, for a service of type NodePort, one for every IP family.
\<close>

definition genListener ::
    "marshaller \<Rightarrow> string \<Rightarrow> string \<Rightarrow> int32 \<Rightarrow> bool \<Rightarrow> PortSettings \<Rightarrow> string \<Rightarrow> Listener go" where
  "genListener marshal listenerName ip port bind portSettings targetClusterName =
     go_bind
       (case Protocol portSettings of
          PROTOCOL_TCP \<Rightarrow> genTCPFilterChain marshal portSettings targetClusterName
        | PROTOCOL_HTTP \<Rightarrow> genHTTPFilterChain marshal portSettings targetClusterName
        | PROTOCOL_REDIS \<Rightarrow> Inr [])
       (\<lambda>filterChains. Inr
         \<lparr>listener_Name = listenerName,
          listener_Address =
            \<lparr>sa_Protocol = SocketAddress_TCP, sa_Address = ip, sa_PortValue = port\<rparr>,
          PerConnectionBufferLimitBytes = wrapperspb_UInt32 32768,
          BindToPort = wrapperspb_Bool bind,
          FilterChains = filterChains\<rparr>)"

definition clusterIPListener ::
    "marshaller \<Rightarrow> Service \<Rightarrow> ServicePort \<Rightarrow> PortSettings \<Rightarrow> string \<Rightarrow> Listener list go" where
  "clusterIPListener marshal svc port portSettings ip =
     (if ip = ''None'' then Inr []
      else let targetClusterName =
                 getClusterName (Namespace svc) (Name svc) (ipStringToIpFamily ip)
                   (IntVal (TargetPort port));
               listenerName = getListenerName (Namespace svc) (Name svc) ip (port_Port port)
           in go_bind (genListener marshal listenerName ip (port_Port port) False portSettings
                targetClusterName) (\<lambda>l. Inr [l]))"

definition nodePortIP :: "string \<Rightarrow> string" where
  "nodePortIP ipFamily = (if ipFamily = IPv6Protocol then ''::'' else ''0.0.0.0'')"

definition nodePortListener ::
    "marshaller \<Rightarrow> Service \<Rightarrow> ServicePort \<Rightarrow> PortSettings \<Rightarrow> string \<Rightarrow> Listener list go" where
  "nodePortListener marshal svc port portSettings ipFamily =
     (let targetClusterName =
            getClusterName (Namespace svc) (Name svc) ipFamily (IntVal (TargetPort port));
          ip = nodePortIP ipFamily;
          listenerName = getListenerName (Namespace svc) (Name svc) ip (port_NodePort port)
      in go_bind (genListener marshal listenerName ip (port_NodePort port) True portSettings
           targetClusterName) (\<lambda>l. Inr [l]))"

definition MapServicePortToListeners ::
    "marshaller \<Rightarrow> Service \<Rightarrow> ServicePort \<Rightarrow> Listener list go" where
  "MapServicePortToListeners marshal svc port =
     (let portSettings = getPortSetings svc port
      in go_bind (go_concat_map (clusterIPListener marshal svc port portSettings)
           (ClusterIPs (Spec svc))) (\<lambda>buf.
         if svc_Type (Spec svc) = ''NodePort''
         then go_bind (go_concat_map (nodePortListener marshal svc port portSettings)
                (IPFamilies (Spec svc))) (\<lambda>nodePorts. Inr (buf @ nodePorts))
         else Inr buf))"

section \<open>Listeners\<close>

text \<open>The address a listener accepts connections on.\<close>

definition listener_key :: "Listener \<Rightarrow> string \<times> uint32 \<times> pb_BoolValue" where
  "listener_key l =
     (sa_Address (listener_Address l), sa_PortValue (listener_Address l), BindToPort l)"

definition proxied :: "ServicePort \<Rightarrow> bool" where
  "proxied port \<longleftrightarrow> getProtocol port \<noteq> PROTOCOL_REDIS"

lemma Protocol_getPortSetings [simp]: "Protocol (getPortSetings svc port) = getProtocol port"
  by (simp add: getPortSetings_def Let_def)

lemma genListener_total:
  "marshals marshal \<Longrightarrow> \<exists>l. genListener marshal n ip p b ps c = Inr l"
  using tcp_chain.gen_total [of marshal ps c] http_chain.gen_total [of marshal ps c]
  by (auto simp: genListener_def split: Protocol.split)

lemma genListener_Inr:
  assumes "genListener marshal n ip p b ps c = Inr l"
  shows "listener_Name l = n" "listener_key l = (ip, p, wrapperspb_Bool b)"
    and "listener_targets l = (if Protocol ps = PROTOCOL_REDIS then [] else [c])"
  using assms
  by (auto simp: genListener_def go_bind_Inr_iff listener_key_def listener_targets_def
      dest: tcp_chain.gen_targets http_chain.gen_targets split: Protocol.splits)

lemma genListener_retry:
  "genListener marshal n ip p b (ps\<lparr>EnableRetry := r\<rparr>) c = genListener marshal n ip p b ps c"
  by (simp add: genListener_def tcp_chain.gen_retry http_chain.gen_retry cong: Protocol.case_cong)

lemma port_listeners_retry:
  "clusterIPListener marshal (svc\<lparr>Annotations := a\<rparr>) port (ps\<lparr>EnableRetry := r\<rparr>) =
     clusterIPListener marshal svc port ps"
  "nodePortListener marshal (svc\<lparr>Annotations := a\<rparr>) port (ps\<lparr>EnableRetry := r\<rparr>) =
     nodePortListener marshal svc port ps"
  by (intro ext, simp add: clusterIPListener_def nodePortListener_def genListener_retry Let_def)+

section \<open>Specification\<close>

text \<open>
  Name, address and target of every listener of a service port: the cluster IPs (a headless
  service has the address \<open>None\<close>) are not bound, the node port is bound on the wildcard
  address of each IP family.
\<close>

type_synonym listener_view = "string \<times> (string \<times> uint32 \<times> pb_BoolValue) \<times> string list"

definition listener_view :: "Listener \<Rightarrow> listener_view" where
  "listener_view l = (listener_Name l, listener_key l, listener_targets l)"

definition targets_of :: "Service \<Rightarrow> ServicePort \<Rightarrow> string \<Rightarrow> string list" where
  "targets_of svc port ipFamily =
     (if proxied port
      then [getClusterName (Namespace svc) (Name svc) ipFamily (IntVal (TargetPort port))] else [])"

definition clusterIP_view :: "Service \<Rightarrow> ServicePort \<Rightarrow> string \<Rightarrow> listener_view" where
  "clusterIP_view svc port ip =
     (getListenerName (Namespace svc) (Name svc) ip (port_Port port),
      (ip, port_Port port, wrapperspb_Bool False),
      targets_of svc port (ipStringToIpFamily ip))"

definition nodePort_view :: "Service \<Rightarrow> ServicePort \<Rightarrow> string \<Rightarrow> listener_view" where
  "nodePort_view svc port ipFamily =
     (let wildcard = (if ipFamily = ''IPv6'' then ''::'' else ''0.0.0.0'')
      in (getListenerName (Namespace svc) (Name svc) wildcard (port_NodePort port),
          (wildcard, port_NodePort port, wrapperspb_Bool True),
          targets_of svc port ipFamily))"

definition listeners_spec :: "Service \<Rightarrow> ServicePort \<Rightarrow> listener_view list" where
  "listeners_spec svc port =
     map (clusterIP_view svc port) (filter (\<lambda>ip. ip \<noteq> ''None'') (ClusterIPs (Spec svc))) @
     (if svc_Type (Spec svc) = ''NodePort''
      then map (nodePort_view svc port) (IPFamilies (Spec svc)) else [])"

lemma genListener_view:
  assumes "marshals marshal"
  shows "\<exists>ls. go_bind (genListener marshal n ip p b ps c) (\<lambda>l. Inr [l]) = Inr ls \<and>
    map listener_view ls = [(n, (ip, p, wrapperspb_Bool b),
      if Protocol ps = PROTOCOL_REDIS then [] else [c])]"
proof -
  obtain l where l: "genListener marshal n ip p b ps c = Inr l"
    using genListener_total [OF assms] by blast
  then show ?thesis
    using genListener_Inr [OF l] by (simp add: listener_view_def)
qed

lemma clusterIPListener_view:
  assumes "marshals marshal"
  shows "\<exists>ls. clusterIPListener marshal svc port (getPortSetings svc port) ip = Inr ls \<and>
    map listener_view ls = (if ip = ''None'' then [] else [clusterIP_view svc port ip])"
  using genListener_view [OF assms, of _ _ _ _ "getPortSetings svc port"]
  by (cases "getProtocol port = PROTOCOL_REDIS")
    (simp_all add: clusterIPListener_def clusterIP_view_def targets_of_def proxied_def Let_def)

lemma nodePortListener_view:
  assumes "marshals marshal"
  shows "\<exists>ls. nodePortListener marshal svc port (getPortSetings svc port) ipFamily = Inr ls \<and>
    map listener_view ls = [nodePort_view svc port ipFamily]"
  using genListener_view [OF assms, of _ _ _ _ "getPortSetings svc port"]
  by (cases "getProtocol port = PROTOCOL_REDIS")
    (simp_all add: nodePortListener_def nodePort_view_def nodePortIP_def targets_of_def
      proxied_def Let_def)

lemma concat_map_filter:
  "concat (map (\<lambda>x. if P x then [] else [f x]) xs) = map f (filter (\<lambda>x. \<not> P x) xs)"
  by (induction xs) auto

lemma listeners_view:
  assumes "marshals marshal"
  shows "\<exists>ls. MapServicePortToListeners marshal svc port = Inr ls \<and>
    map listener_view ls = listeners_spec svc port"
proof -
  let ?ps = "getPortSetings svc port"
  have "\<exists>ls. go_concat_map (clusterIPListener marshal svc port ?ps) (ClusterIPs (Spec svc)) = Inr ls \<and>
    map listener_view ls =
      concat (map (\<lambda>ip. if ip = ''None'' then [] else [clusterIP_view svc port ip])
        (ClusterIPs (Spec svc)))"
    by (rule go_concat_map_view) (rule clusterIPListener_view [OF assms])
  moreover have
    "\<exists>ls. go_concat_map (nodePortListener marshal svc port ?ps) (IPFamilies (Spec svc)) = Inr ls \<and>
    map listener_view ls = concat (map (\<lambda>f. [nodePort_view svc port f]) (IPFamilies (Spec svc)))"
    by (rule go_concat_map_view) (rule nodePortListener_view [OF assms])
  ultimately show ?thesis
    by (auto simp: MapServicePortToListeners_def listeners_spec_def Let_def concat_map_filter
        concat_map_singleton)
qed

lemma ex_listeners_spec:
  "listeners_spec ex_service ex_port =
     [(''IPv4|default|whoami|10.0.0.1|80'', (''10.0.0.1'', 80, wrapperspb_Bool False),
       [''IPv4|default|whoami|8080''])]"
  by (simp add: listeners_spec_def clusterIP_view_def targets_of_def proxied_def getProtocol_def
      getListenerName_def getClusterName_def ipStringToIpFamily_def strings_Contains_char_def
      wellknown_defs fmt_eval ex_defs)

section \<open>Properties\<close>

text \<open>
  C12. The mapper emits exactly the listeners of the specification, in its order: one unbound
  listener per cluster IP and port, one bound listener per IP family for a NodePort service,
  each named after its address and sending its traffic to the cluster of the target port in
  the IP family of the address (a Redis port sends it nowhere).
\<close>

theorem MapServicePortToListeners_refines:
  assumes "marshals marshal"
  shows "\<exists>ls. MapServicePortToListeners marshal svc port = Inr ls \<and>
    map listener_view ls = listeners_spec svc port"
  by (rule listeners_view [OF assms])

theorem MapServicePortToListeners_refines_witness:
  "\<exists>ls. MapServicePortToListeners (\<lambda>_. None) ex_service ex_port = Inr ls \<and>
    map listener_view ls =
      [(''IPv4|default|whoami|10.0.0.1|80'', (''10.0.0.1'', 80, wrapperspb_Bool False),
        [''IPv4|default|whoami|8080''])]"
  using MapServicePortToListeners_refines [of "\<lambda>_. None" ex_service ex_port]
  by (simp only: ex_listeners_spec marshals_def simp_thms True_implies_equals)

text \<open>
  C40. The annotation \<open>retry-enabled\<close> has no effect on the listeners of a port: whatever value
  is written into it, the generated filter chains (and so their retry policy) are the same.
\<close>

theorem retry_enabled_has_no_effect:
  "MapServicePortToListeners marshal
     (svc\<lparr>Annotations := gomap_put (getPortSettingsAnnotationsKey svc port PortRetryEnabled) v
       (Annotations svc)\<rparr>) port =
   MapServicePortToListeners marshal svc port"
proof -
  let ?svc = "svc\<lparr>Annotations := gomap_put (getPortSettingsAnnotationsKey svc port PortRetryEnabled) v
       (Annotations svc)\<rparr>"
  have "getPortSetings ?svc port = (getPortSetings svc port)
      \<lparr>EnableRetry := getBoolConfig ?svc port PortRetryEnabled PortRetryEnabledDefault\<rparr>"
    by (rule getPortSetings_EnableRetry)
      (simp add: annotation_def getPortSettingsAnnotationsKey_def)
  then show ?thesis
    by (simp add: MapServicePortToListeners_def port_listeners_retry Let_def cong: if_cong)
qed

end
