(* ===== verification/Mapper_Cluster.thy ===== *)
theory Mapper_Cluster
  imports Envoy_Types
begin

text \<open>
  \<open>pkg/translations/mapper_cluster.go\<close>: the clusters of one service port, one for every IP
  family of the service.
\<close>

definition circuitBreakers :: "PortSettings \<Rightarrow> Thresholds list" where
  "circuitBreakers portSettings =
     [\<lparr>th_Priority = RoutingPriority_DEFAULT,
       th_MaxConnections = wrapperspb_UInt32 (CircuitBreakerDefaultMaxConnections portSettings),
       th_MaxPendingRequests =
         wrapperspb_UInt32 (CircuitBreakerDefaultMaxPendingRequests portSettings),
       th_MaxRequests = wrapperspb_UInt32 (CircuitBreakerDefaultMaxRequests portSettings),
       th_MaxRetries = wrapperspb_UInt32 (CircuitBreakerDefaultMaxRetries portSettings),
       th_TrackRemaining = CircuitBreakerDefaultTrackRemaining portSettings\<rparr>,
      \<lparr>th_Priority = RoutingPriority_HIGH,
       th_MaxConnections = wrapperspb_UInt32 (CircuitBreakerHighMaxConnections portSettings),
       th_MaxPendingRequests =
         wrapperspb_UInt32 (CircuitBreakerHighMaxPendingRequests portSettings),
       th_MaxRequests = wrapperspb_UInt32 (CircuitBreakerHighMaxRequests portSettings),
       th_MaxRetries = wrapperspb_UInt32 (CircuitBreakerHighMaxRetries portSettings),
       th_TrackRemaining = CircuitBreakerHighTrackRemaining portSettings\<rparr>]"

definition outlierDetection :: "PortSettings \<Rightarrow> OutlierDetection" where
  "outlierDetection portSettings =
     \<lparr>od_Interval = durationpb_New (OutlierDetectionInterval portSettings),
      od_BaseEjectionTime = durationpb_New (OutlierDetectionBaseEjectionTime portSettings),
      od_MaxEjectionTime = durationpb_New (OutlierDetectionMaxEjectionTime portSettings),
      od_MaxEjectionPercent = wrapperspb_UInt32 (OutlierDetectionMaxEjectionPercent portSettings),
      od_Consecutive_5Xx = wrapperspb_UInt32 (OutlierDetectionConsecutive5xx portSettings),
      od_ConsecutiveGatewayFailure =
        wrapperspb_UInt32 (OutlierDetectionConsecutiveGatewayFailure portSettings)\<rparr>"

definition genCluster :: "Service \<Rightarrow> ServicePort \<Rightarrow> PortSettings \<Rightarrow> string \<Rightarrow> Cluster" where
  "genCluster svc port portSettings ipFamily =
     \<lparr>cluster_Name =
        getClusterName (Namespace svc) (Name svc) ipFamily (IntVal (TargetPort port)),
      cluster_ConnectTimeout = durationpb_New (UpstreamConnectTimeout portSettings),
      cluster_Type = Cluster_EDS,
      cluster_EdsConfig = ConfigSource_Ads ApiVersion_V3,
      cluster_LbPolicy = LoadBalancingPolicy portSettings,
      cluster_Thresholds = circuitBreakers portSettings,
      cluster_OutlierDetection = outlierDetection portSettings\<rparr>"

definition MapServicePortToClusters :: "Service \<Rightarrow> ServicePort \<Rightarrow> Cluster list" where
  "MapServicePortToClusters svc port =
     (let portSettings = getPortSetings svc port
      in map (genCluster svc port portSettings) (IPFamilies (Spec svc)))"

lemma cluster_names:
  "map cluster_Name (MapServicePortToClusters svc port) =
     map (\<lambda>f. getClusterName (Namespace svc) (Name svc) f (IntVal (TargetPort port)))
       (IPFamilies (Spec svc))"
  by (simp add: MapServicePortToClusters_def genCluster_def Let_def)

section \<open>Properties\<close>

text \<open>
  C35. From annotation to cluster: a number written in decimal into the annotation of a port for
  the maximal number of connections is the connection limit of the default priority in every
  cluster of that port.
\<close>

theorem max_connections_reach_clusters:
  assumes "annotation svc port PortCircuitBreakerDefaultMaxConnections = Some (fmt_nat (unat w))"
    and "c \<in> set (MapServicePortToClusters svc port)"
  shows "\<exists>th \<in> set (cluster_Thresholds c).
    th_Priority th = RoutingPriority_DEFAULT \<and> th_MaxConnections th = wrapperspb_UInt32 w"
proof -
  have "CircuitBreakerDefaultMaxConnections (getPortSetings svc port) = w"
    using getUint32Config_decimal [OF assms(1)] by (simp add: getPortSetings_def Let_def)
  then show ?thesis
    using assms(2)
    by (auto simp: MapServicePortToClusters_def genCluster_def circuitBreakers_def Let_def)
qed

definition ex_limited_service :: Service where
  "ex_limited_service = ex_service\<lparr>Annotations :=
     [(''config.lightpath.cloud/http-circuit-breaker-default-max-connections'', ''7'')]\<rparr>"

theorem max_connections_reach_clusters_witness:
  "\<exists>th \<in> set (cluster_Thresholds (hd (MapServicePortToClusters ex_limited_service ex_port))).
    th_Priority th = RoutingPriority_DEFAULT \<and> th_MaxConnections th = wrapperspb_UInt32 7"
  by (rule max_connections_reach_clusters [where svc = ex_limited_service and port = ex_port])
    (simp_all add: annotation_def getPortSettingsAnnotationsKey_def wellknown_defs gomap_get_def
      ex_limited_service_def MapServicePortToClusters_def Let_def ex_defs fmt_eval)

text \<open>
  A service port that no annotation configures gets one EDS cluster per IP family, with the
  load balancing policy \<open>LEAST_REQUEST\<close> and the default connect timeout, limits and outlier
  detection.
\<close>

theorem MapServicePortToClusters_defaults:
  assumes "\<forall>n \<in> set port_setting_names. annotation svc port n = None"
  shows "MapServicePortToClusters svc port =
    map (\<lambda>f. \<lparr>cluster_Name =
        getClusterName (Namespace svc) (Name svc) f (IntVal (TargetPort port)),
      cluster_ConnectTimeout = durationpb_New (5 * time_Second),
      cluster_Type = Cluster_EDS,
      cluster_EdsConfig = ConfigSource_Ads ApiVersion_V3,
      cluster_LbPolicy = Cluster_LEAST_REQUEST,
      cluster_Thresholds =
        map (\<lambda>p. \<lparr>th_Priority = p,
          th_MaxConnections = wrapperspb_UInt32 1000000000,
          th_MaxPendingRequests = wrapperspb_UInt32 1000000000,
          th_MaxRequests = wrapperspb_UInt32 1000000000,
          th_MaxRetries = wrapperspb_UInt32 3,
          th_TrackRemaining = False\<rparr>) [RoutingPriority_DEFAULT, RoutingPriority_HIGH],
      cluster_OutlierDetection =
        \<lparr>od_Interval = durationpb_New (10 * time_Second),
         od_BaseEjectionTime = durationpb_New (30 * time_Second),
         od_MaxEjectionTime = durationpb_New (300 * time_Second),
         od_MaxEjectionPercent = wrapperspb_UInt32 10,
         od_Consecutive_5Xx = wrapperspb_UInt32 5,
         od_ConsecutiveGatewayFailure = wrapperspb_UInt32 5\<rparr>\<rparr>)
      (IPFamilies (Spec svc))"
  using getPortSetings_default [OF assms]
  by (simp add: MapServicePortToClusters_def genCluster_def circuitBreakers_def
      outlierDetection_def default_PortSettings_def Let_def wellknown_defs)

theorem MapServicePortToClusters_defaults_witness:
  "map cluster_ConnectTimeout (MapServicePortToClusters ex_service ex_port) =
    [durationpb_New (5 * time_Second)]"
  by (subst MapServicePortToClusters_defaults) (simp_all add: annotation_def ex_service_def)

end
