(* ===== verification/Mapper_Endpoints.thy ===== *)
theory Mapper_Endpoints
  imports Envoy_Types
begin

text \<open>
  \<open>pkg/translations/mapper_endpoints.go\<close>: the load assignments of a service, computed from
  its endpoint slices. The loops over Go maps take their visiting order as an argument: the
  order of the endpoints, of the two loops over the load assignments, and, per cluster, of
  the loop over its localities.
\<close>

record locality =
  loc_Zone :: string
  loc_SubZone :: string

record endpointMeta =
  em_ipFamily :: string
  em_ip :: string
  em_port :: int32
  em_locality :: locality

record endpointState =
  es_ready :: bool
  es_serving :: bool
  es_terminating :: bool

definition sliceIPFamily :: "EndpointSlice \<Rightarrow> string" where
  "sliceIPFamily sl =
     (if AddressType sl = AddressTypeIPv6 then IPv6Protocol else IPv4Protocol)"

definition pointer_Deref :: "'a option \<Rightarrow> 'a \<Rightarrow> 'a" where
  "pointer_Deref p def = (case p of None \<Rightarrow> def | Some v \<Rightarrow> v)"

definition endpointMeta_of :: "string \<Rightarrow> EndpointPort \<Rightarrow> Endpoint \<Rightarrow> endpointMeta go" where
  "endpointMeta_of ipFamily port ep =
     (case Addresses ep of
        [] \<Rightarrow> Inl IndexOutOfRange
      | ip # _ \<Rightarrow> Inr
          \<lparr>em_ipFamily = ipFamily,
           em_ip = ip,
           em_port = pointer_Deref (ep_Port port) 0,
           em_locality =
             \<lparr>loc_Zone = pointer_Deref (Zone ep) ''None'',
              loc_SubZone = pointer_Deref (NodeName ep) ''None''\<rparr>\<rparr>)"

definition endpointState_of :: "Endpoint \<Rightarrow> endpointState" where
  "endpointState_of ep =
     \<lparr>es_ready = pointer_Deref (Ready (Conditions ep)) True,
      es_serving = pointer_Deref (Serving (Conditions ep)) True,
      es_terminating = pointer_Deref (Terminating (Conditions ep)) False\<rparr>"

definition extractEndpointMetaAndState ::
    "EndpointSlice list \<Rightarrow> (endpointMeta, endpointState) gomap go" where
  "extractEndpointMetaAndState endpointslices =
     go_fold (\<lambda>endpointslice res.
       let ipFamily = sliceIPFamily endpointslice
       in go_fold (\<lambda>port res.
            go_fold (\<lambda>ep res.
              go_bind (endpointMeta_of ipFamily port ep) (\<lambda>meta.
                Inr (gomap_put meta (endpointState_of ep) res)))
              (Endpoints endpointslice) res)
            (es_Ports endpointslice) res)
       endpointslices []"

definition mapEndpointMetaAndStateToEndpoint :: "endpointMeta \<Rightarrow> endpointState \<Rightarrow> LbEndpoint" where
  "mapEndpointMetaAndStateToEndpoint meta state =
     (let healthStatus = HealthStatus_HEALTHY;
          healthStatus = (if es_terminating state then HealthStatus_DRAINING else healthStatus);
          healthStatus = (if \<not> es_ready state then HealthStatus_UNHEALTHY else healthStatus)
      in \<lparr>lbe_HealthStatus = healthStatus,
          lbe_Hostname = em_ip meta @ ''-'' @ fmt_int32 (em_port meta),
          lbe_Address =
            \<lparr>sa_Protocol = SocketAddress_TCP, sa_Address = em_ip meta, sa_PortValue = em_port meta\<rparr>\<rparr>)"

type_synonym assignments = "(string, ClusterLoadAssignment) gomap"
type_synonym grouped_endpoints = "(string, (locality, LbEndpoint list) gomap) gomap"

definition metaClusterName :: "Service \<Rightarrow> endpointMeta \<Rightarrow> string" where
  "metaClusterName svc meta =
     getClusterName (Namespace svc) (Name svc) (em_ipFamily meta) (em_port meta)"

definition groupEndpoint ::
    "Service \<Rightarrow> endpointMeta \<times> endpointState \<Rightarrow> assignments \<times> grouped_endpoints \<Rightarrow>
     assignments \<times> grouped_endpoints" where
  "groupEndpoint svc ms tabs =
     (let (meta, state) = ms;
          (loadAssignmentsMap, endpoints) = tabs;
          clusterName = metaClusterName svc meta;
          loadAssignmentsMap =
            (if gomap_get loadAssignmentsMap clusterName = None
             then gomap_put clusterName \<lparr>cla_ClusterName = clusterName, cla_Endpoints = []\<rparr>
               loadAssignmentsMap
             else loadAssignmentsMap);
          endpoints =
            (if gomap_get endpoints clusterName = None
             then gomap_put clusterName [] endpoints else endpoints);
          localities = gomap_index [] endpoints clusterName;
          localities =
            (if gomap_get localities (em_locality meta) = None
             then gomap_put (em_locality meta) [] localities else localities);
          localities =
            gomap_put (em_locality meta)
              (gomap_index [] localities (em_locality meta) @
               [mapEndpointMetaAndStateToEndpoint meta state]) localities
      in (loadAssignmentsMap, gomap_put clusterName localities endpoints))"

definition assignEndpoints ::
    "range_order \<Rightarrow> (locality, LbEndpoint list) gomap \<Rightarrow> ClusterLoadAssignment \<Rightarrow>
     ClusterLoadAssignment" where
  "assignEndpoints ord localities loadAssignment =
     fold (\<lambda>(loc, eps) a. a\<lparr>cla_Endpoints := cla_Endpoints a @
         [\<lparr>lle_Zone = loc_Zone loc, lle_SubZone = loc_SubZone loc, lle_LbEndpoints = eps\<rparr>]\<rparr>)
       (range_map ord localities) loadAssignment"

record endpoint_orders =
  ord_meta :: range_order
  ord_assign :: range_order
  ord_locality :: "string \<Rightarrow> range_order"
  ord_result :: range_order

definition MapEndpointSliceToLocalityEndpoints ::
    "endpoint_orders \<Rightarrow> Service \<Rightarrow> EndpointSlice list \<Rightarrow> ClusterLoadAssignment list go" where
  "MapEndpointSliceToLocalityEndpoints ords svc endpointslices =
     go_bind (extractEndpointMetaAndState endpointslices) (\<lambda>metas.
       let (loadAssignmentsMap, endpoints) =
             fold (groupEndpoint svc) (range_map (ord_meta ords) metas) ([], []);
           loadAssignmentsMap =
             fold (\<lambda>(clusterName, loadAssignment).
                 gomap_put clusterName
                   (assignEndpoints (ord_locality ords clusterName)
                     (gomap_index [] endpoints clusterName) loadAssignment))
               (range_map (ord_assign ords) loadAssignmentsMap) loadAssignmentsMap
       in Inr (map snd (range_map (ord_result ords) loadAssignmentsMap)))"

section \<open>Extraction\<close>

text \<open>The entries that extraction writes, in its order; later writes override earlier ones.\<close>

definition endpoint_entry :: "string \<Rightarrow> EndpointPort \<Rightarrow> Endpoint \<Rightarrow> endpointMeta \<times> endpointState" where
  "endpoint_entry ipFamily port ep =
     (\<lparr>em_ipFamily = ipFamily, em_ip = hd (Addresses ep),
       em_port = pointer_Deref (ep_Port port) 0,
       em_locality =
         \<lparr>loc_Zone = pointer_Deref (Zone ep) ''None'',
          loc_SubZone = pointer_Deref (NodeName ep) ''None''\<rparr>\<rparr>,
      endpointState_of ep)"

definition port_entries :: "EndpointSlice \<Rightarrow> EndpointPort \<Rightarrow> (endpointMeta \<times> endpointState) list" where
  "port_entries sl port = map (endpoint_entry (sliceIPFamily sl) port) (Endpoints sl)"

definition slice_entries :: "EndpointSlice \<Rightarrow> (endpointMeta \<times> endpointState) list" where
  "slice_entries sl = concat (map (port_entries sl) (es_Ports sl))"

definition endpoint_entries :: "EndpointSlice list \<Rightarrow> (endpointMeta \<times> endpointState) list" where
  "endpoint_entries slices = concat (map slice_entries slices)"

definition has_bad_endpoint :: "EndpointSlice \<Rightarrow> bool" where
  "has_bad_endpoint sl \<longleftrightarrow>
     es_Ports sl \<noteq> [] \<and> (\<exists>ep \<in> set (Endpoints sl). Addresses ep = [])"

lemma extract_port:
  "go_fold (\<lambda>ep res. go_bind (endpointMeta_of (sliceIPFamily sl) port ep) (\<lambda>meta.
       Inr (gomap_put meta (endpointState_of ep) res))) (Endpoints sl) res =
   (if \<exists>ep \<in> set (Endpoints sl). Addresses ep = [] then Inl IndexOutOfRange
    else Inr (fold (\<lambda>(k, v). gomap_put k v) (port_entries sl port) res))"
  unfolding port_entries_def fold_map
  by (rule go_fold_Inl_iff)
    (simp add: endpointMeta_of_def endpoint_entry_def split: list.split)

lemma fold_concat_map: "fold f (concat (map g xs)) s = fold (\<lambda>x. fold f (g x)) xs s"
  by (induction xs arbitrary: s) simp_all

lemma extract_slice:
  "go_fold (\<lambda>port res. go_fold (\<lambda>ep res. go_bind (endpointMeta_of (sliceIPFamily sl) port ep)
       (\<lambda>meta. Inr (gomap_put meta (endpointState_of ep) res))) (Endpoints sl) res) (es_Ports sl) res =
   (if has_bad_endpoint sl then Inl IndexOutOfRange
    else Inr (fold (\<lambda>(k, v). gomap_put k v) (slice_entries sl) res))"
  unfolding extract_port
  by (subst go_fold_Inl_iff [where bad = "\<lambda>_. \<exists>ep \<in> set (Endpoints sl). Addresses ep = []"
        and g = "\<lambda>port. fold (\<lambda>(k, v). gomap_put k v) (port_entries sl port)"
        and p = IndexOutOfRange])
    (auto simp: has_bad_endpoint_def slice_entries_def fold_concat_map)

lemma extract_eq:
  "extractEndpointMetaAndState slices =
   (if \<exists>sl \<in> set slices. has_bad_endpoint sl then Inl IndexOutOfRange
    else Inr (fold (\<lambda>(k, v). gomap_put k v) (endpoint_entries slices) []))"
  unfolding extractEndpointMetaAndState_def Let_def extract_slice
  by (subst go_fold_Inl_iff [where bad = has_bad_endpoint and p = IndexOutOfRange
        and g = "\<lambda>sl. fold (\<lambda>(k, v). gomap_put k v) (slice_entries sl)"])
    (simp_all add: endpoint_entries_def fold_concat_map)

lemma extract_get:
  assumes "extractEndpointMetaAndState slices = Inr metas"
  shows "gomap_wf metas" "gomap_get metas k = map_of (rev (endpoint_entries slices)) k"
  using assms
  by (auto simp: extract_eq gm.get_fold_put gm.wf_fold_put split: if_splits option.split)

lemma extract_mem:
  assumes "extractEndpointMetaAndState slices = Inr metas" "sl \<in> set slices"
    and "port \<in> set (es_Ports sl)" "ep \<in> set (Endpoints sl)"
    and "endpointMeta_of (sliceIPFamily sl) port ep = Inr meta"
  shows "\<exists>state. (meta, state) \<in> set metas"
proof -
  have "fst (endpoint_entry (sliceIPFamily sl) port ep) = meta"
    using assms(5) by (auto simp: endpointMeta_of_def endpoint_entry_def split: list.splits)
  then have "meta \<in> fst ` set (endpoint_entries slices)"
    using assms(2-4) by (force simp: endpoint_entries_def slice_entries_def port_entries_def)
  then obtain state where "gomap_get metas meta = Some state"
    unfolding extract_get(2) [OF assms(1)] by (metis map_of_eq_None_iff not_None_eq set_rev)
  then show ?thesis by (blast dest: gomap_get_Some_mem)
qed

section \<open>Grouping\<close>

definition to_endpoint :: "endpointMeta \<times> endpointState \<Rightarrow> LbEndpoint" where
  "to_endpoint ms = mapEndpointMetaAndStateToEndpoint (fst ms) (snd ms)"

definition in_cluster :: "Service \<Rightarrow> string \<Rightarrow> endpointMeta \<times> endpointState \<Rightarrow> bool" where
  "in_cluster svc cn ms \<longleftrightarrow> metaClusterName svc (fst ms) = cn"

definition in_group :: "Service \<Rightarrow> string \<Rightarrow> locality \<Rightarrow> endpointMeta \<times> endpointState \<Rightarrow> bool" where
  "in_group svc cn loc ms \<longleftrightarrow> in_cluster svc cn ms \<and> em_locality (fst ms) = loc"

text \<open>
  What the tables of the first loop hold after the endpoints \<open>seen\<close>: an empty load assignment
  for every cluster seen, and its endpoints by locality, in the order of the visits.
\<close>

definition grouped ::
    "Service \<Rightarrow> (endpointMeta \<times> endpointState) list \<Rightarrow> assignments \<times> grouped_endpoints \<Rightarrow> bool" where
  "grouped svc seen tabs \<longleftrightarrow>
     gomap_wf (fst tabs) \<and>
     (\<forall>cn. gomap_get (fst tabs) cn =
        (if \<exists>ms \<in> set seen. in_cluster svc cn ms
         then Some \<lparr>cla_ClusterName = cn, cla_Endpoints = []\<rparr> else None)) \<and>
     (\<forall>cn. gomap_get (snd tabs) cn = None \<longleftrightarrow> gomap_get (fst tabs) cn = None) \<and>
     (\<forall>cn. gomap_wf (gomap_index [] (snd tabs) cn)) \<and>
     (\<forall>cn loc. gomap_get (gomap_index [] (snd tabs) cn) loc =
        (if \<exists>ms \<in> set seen. in_group svc cn loc ms
         then Some (map to_endpoint (filter (in_group svc cn loc) seen)) else None))"

lemma groupEndpoint_assignments:
  "gomap_get (fst (groupEndpoint svc ms tabs)) cn =
     (if in_cluster svc cn ms \<and> gomap_get (fst tabs) cn = None
      then Some \<lparr>cla_ClusterName = cn, cla_Endpoints = []\<rparr> else gomap_get (fst tabs) cn)"
  "gomap_wf (fst tabs) \<Longrightarrow> gomap_wf (fst (groupEndpoint svc ms tabs))"
  by (auto simp: groupEndpoint_def Let_def in_cluster_def split: prod.split)

lemma groupEndpoint_clusters:
  "gomap_get (snd (groupEndpoint svc ms tabs)) cn = None \<longleftrightarrow>
     \<not> in_cluster svc cn ms \<and> gomap_get (snd tabs) cn = None"
  by (auto simp: groupEndpoint_def Let_def in_cluster_def split: prod.split)

lemma groupEndpoint_localities:
  "gomap_get (gomap_index [] (snd (groupEndpoint svc ms tabs)) cn) loc =
     (if in_group svc cn loc ms
      then Some (gomap_index [] (gomap_index [] (snd tabs) cn) loc @ [to_endpoint ms])
      else gomap_get (gomap_index [] (snd tabs) cn) loc)"
  by (cases ms; cases tabs;
      simp add: groupEndpoint_def Let_def in_group_def in_cluster_def to_endpoint_def
        gomap_index_def [of "[]" _ "metaClusterName _ _"]; fastforce simp: gomap_index_def)

lemma groupEndpoint_localities_wf:
  assumes "\<forall>cn. gomap_wf (gomap_index [] (snd tabs) cn)"
  shows "gomap_wf (gomap_index [] (snd (groupEndpoint svc ms tabs)) cn)"
  using assms by (cases ms; cases tabs) (simp add: groupEndpoint_def Let_def)

lemma grouped_index:
  assumes "grouped svc seen tabs"
  shows "gomap_index [] (gomap_index [] (snd tabs) cn) loc =
    map to_endpoint (filter (in_group svc cn loc) seen)"
  using assms by (auto simp: grouped_def gomap_index_def [of "[]" "gomap_index _ _ _"] filter_empty_conv)

lemma grouped_step:
  assumes "grouped svc seen tabs"
  shows "grouped svc (seen @ [ms]) (groupEndpoint svc ms tabs)"
  unfolding grouped_def
  by (intro conjI allI; use assms grouped_index [OF assms] in
      \<open>auto simp: grouped_def groupEndpoint_assignments groupEndpoint_clusters
        groupEndpoint_localities
        groupEndpoint_localities_wf filter_empty_conv\<close>)

lemma grouped_fold: "grouped svc seen tabs \<Longrightarrow> grouped svc (seen @ xs) (fold (groupEndpoint svc) xs tabs)"
proof (induction xs arbitrary: seen tabs)
  case Nil
  then show ?case by simp
next
  case (Cons x xs)
  then show ?case using grouped_step [of svc seen tabs x] by fastforce
qed

lemma grouped_all: "grouped svc xs (fold (groupEndpoint svc) xs ([], []))"
proof -
  have "grouped svc [] ([], [])" by (simp add: grouped_def)
  then show ?thesis using grouped_fold by fastforce
qed

lemma assignEndpoints_eq:
  "assignEndpoints ord localities a = a\<lparr>cla_Endpoints := cla_Endpoints a @
     map (\<lambda>(loc, eps). \<lparr>lle_Zone = loc_Zone loc, lle_SubZone = loc_SubZone loc,
       lle_LbEndpoints = eps\<rparr>) (range_map ord localities)\<rparr>"
proof -
  have "fold (\<lambda>(loc, eps) a. a\<lparr>cla_Endpoints := cla_Endpoints a @
       [\<lparr>lle_Zone = loc_Zone loc, lle_SubZone = loc_SubZone loc, lle_LbEndpoints = eps\<rparr>]\<rparr>) xs a =
     a\<lparr>cla_Endpoints := cla_Endpoints a @
     map (\<lambda>(loc, eps). \<lparr>lle_Zone = loc_Zone loc, lle_SubZone = loc_SubZone loc,
       lle_LbEndpoints = eps\<rparr>) xs\<rparr>" for xs
    by (induction xs arbitrary: a) auto
  then show ?thesis by (simp add: assignEndpoints_def)
qed

section \<open>Specification\<close>

definition lle_locality :: "LocalityLbEndpoints \<Rightarrow> locality" where
  "lle_locality l = \<lparr>loc_Zone = lle_Zone l, loc_SubZone = lle_SubZone l\<rparr>"

text \<open>
  A list of load assignments partitions the endpoints \<open>metas\<close>: there is one assignment for
  every cluster with an endpoint, in it one group for every locality with an endpoint of the
  cluster, and in the group exactly the endpoints of the cluster and the locality, each once.
\<close>

definition partitions_locality ::
    "Service \<Rightarrow> (endpointMeta, endpointState) gomap \<Rightarrow> string \<Rightarrow> LocalityLbEndpoints \<Rightarrow> bool" where
  "partitions_locality svc metas cn l \<longleftrightarrow>
     mset (lle_LbEndpoints l) =
       image_mset to_endpoint (filter_mset (in_group svc cn (lle_locality l)) (mset metas))"

definition partitions_cluster ::
    "Service \<Rightarrow> (endpointMeta, endpointState) gomap \<Rightarrow> ClusterLoadAssignment \<Rightarrow> bool" where
  "partitions_cluster svc metas a \<longleftrightarrow>
     distinct (map lle_locality (cla_Endpoints a)) \<and>
     set (map lle_locality (cla_Endpoints a)) =
       (\<lambda>ms. em_locality (fst ms)) ` {ms \<in> set metas. in_cluster svc (cla_ClusterName a) ms} \<and>
     (\<forall>l \<in> set (cla_Endpoints a). partitions_locality svc metas (cla_ClusterName a) l)"

definition partitions_endpoints ::
    "Service \<Rightarrow> (endpointMeta, endpointState) gomap \<Rightarrow> ClusterLoadAssignment list \<Rightarrow> bool" where
  "partitions_endpoints svc metas cls \<longleftrightarrow>
     distinct (map cla_ClusterName cls) \<and>
     set (map cla_ClusterName cls) = metaClusterName svc ` fst ` set metas \<and>
     (\<forall>a \<in> set cls. partitions_cluster svc metas a)"

definition valid_orders :: "endpoint_orders \<Rightarrow> bool" where
  "valid_orders ords \<longleftrightarrow>
     valid_order (ord_meta ords) \<and> valid_order (ord_assign ords) \<and>
     (\<forall>cn. valid_order (ord_locality ords cn)) \<and> valid_order (ord_result ords)"

text \<open>A group that the second loop writes.\<close>

lemma lle_locality_group [simp]:
  "lle_locality \<lparr>lle_Zone = loc_Zone loc, lle_SubZone = loc_SubZone loc, lle_LbEndpoints = eps\<rparr> = loc"
  by (simp add: lle_locality_def)

lemma assigned_partitions:
  assumes "grouped svc seen tabs" "mset seen = mset metas" "valid_order ord"
  shows "partitions_cluster svc metas (assignEndpoints ord (gomap_index [] (snd tabs) cn)
    \<lparr>cla_ClusterName = cn, cla_Endpoints = []\<rparr>)"
proof -
  let ?m = "gomap_index [] (snd tabs) cn"
  have wf: "gomap_wf ?m" and get: "\<And>loc. gomap_get ?m loc =
      (if \<exists>ms \<in> set seen. in_group svc cn loc ms
       then Some (map to_endpoint (filter (in_group svc cn loc) seen)) else None)"
    using assms(1) by (auto simp: grouped_def)
  have seen: "set seen = set metas" using assms(2) by (rule mset_eq_setD)
  have keys: "map lle_locality (map (\<lambda>(loc, eps). \<lparr>lle_Zone = loc_Zone loc,
      lle_SubZone = loc_SubZone loc, lle_LbEndpoints = eps\<rparr>) (range_map ord ?m)) =
    map fst (range_map ord ?m)"
    by (auto simp: case_prod_unfold)
  have "fst ` set ?m = (\<lambda>ms. em_locality (fst ms)) ` {ms \<in> set metas. in_cluster svc cn ms}"
    unfolding gomap_keys get seen by (auto simp: in_group_def)
  moreover have "mset eps = image_mset to_endpoint (filter_mset (in_group svc cn loc) (mset metas))"
    if "(loc, eps) \<in> set ?m" for loc eps
    using that wf get [of loc] assms(2)
    by (auto simp: gomap_get_iff [symmetric] split: if_splits)
  ultimately show ?thesis
    using range_map_wf [OF assms(3) wf]
    by (auto simp: partitions_cluster_def assignEndpoints_eq keys set_range_map assms(3)
        gomap_wf_def partitions_locality_def simp del: map_map)
qed

lemma MapEndpointSlice_partitions:
  assumes "valid_orders ords" "extractEndpointMetaAndState slices = Inr metas"
  shows "\<exists>cls. MapEndpointSliceToLocalityEndpoints ords svc slices = Inr cls \<and>
    partitions_endpoints svc metas cls"
proof -
  note ords = assms(1) [unfolded valid_orders_def]
  let ?seen = "range_map (ord_meta ords) metas"
  obtain la eps where tabs: "fold (groupEndpoint svc) ?seen ([], []) = (la, eps)"
    by fastforce
  then have gr: "grouped svc ?seen (la, eps)" using grouped_all [of svc ?seen] by simp
  let ?g = "\<lambda>cn. assignEndpoints (ord_locality ords cn) (gomap_index [] eps cn)"
  let ?la = "fold (\<lambda>(cn, a). gomap_put cn (?g cn a)) (range_map (ord_assign ords) la) la"
  let ?cls = "map snd (range_map (ord_result ords) ?la)"
  have seen: "mset ?seen = mset metas" "set ?seen = set metas"
    using ords by (simp_all add: mset_range_map set_range_map)
  have wf: "gomap_wf la" "gomap_wf ?la" using gr by (simp_all add: grouped_def update_all_wf)
  have get: "gomap_get ?la cn =
      (if \<exists>ms \<in> set metas. in_cluster svc cn ms
       then Some (?g cn \<lparr>cla_ClusterName = cn, cla_Endpoints = []\<rparr>) else None)" for cn
    using gr ords wf(1) seen(2) by (simp add: update_all_get grouped_def)
  have elem: "(cn, a) \<in> set (range_map (ord_result ords) ?la) \<longleftrightarrow>
      (\<exists>ms \<in> set metas. in_cluster svc cn ms) \<and>
      a = ?g cn \<lparr>cla_ClusterName = cn, cla_Endpoints = []\<rparr>" for cn a
    using ords wf(2) get [of cn] by (auto simp: set_range_map gomap_get_iff [symmetric])
  have names: "map cla_ClusterName ?cls = map fst (range_map (ord_result ords) ?la)"
    using elem by (auto simp: assignEndpoints_eq)
  have "set (map cla_ClusterName ?cls) = metaClusterName svc ` fst ` set metas"
    unfolding names using elem by (force simp: in_cluster_def image_iff)
  moreover have "distinct (map cla_ClusterName ?cls)"
    unfolding names using range_map_wf [OF _ wf(2)] ords by (simp add: gomap_wf_def)
  moreover have "partitions_cluster svc metas a" if "a \<in> set ?cls" for a
    using that elem assigned_partitions [OF gr seen(1)] ords by auto
  ultimately have "partitions_endpoints svc metas ?cls"
    unfolding partitions_endpoints_def by blast
  then show ?thesis
    using assms(2) tabs by (simp add: MapEndpointSliceToLocalityEndpoints_def)
qed

lemma endpoints_panic_iff:
  "MapEndpointSliceToLocalityEndpoints ords svc slices = Inl p \<longleftrightarrow>
     p = IndexOutOfRange \<and> (\<exists>sl \<in> set slices. has_bad_endpoint sl)"
  by (auto simp: MapEndpointSliceToLocalityEndpoints_def extract_eq split: if_splits prod.splits)

section \<open>Properties\<close>

definition ex_ep_orders :: endpoint_orders where
  "ex_ep_orders = \<lparr>ord_meta = rev_order, ord_assign = in_order, ord_locality = (\<lambda>_. rev_order),
     ord_result = rev_order\<rparr>"

lemma ex_ep_orders_valid [simp]: "valid_orders ex_ep_orders"
  by (simp add: valid_orders_def ex_ep_orders_def)

definition ex_metas :: "(endpointMeta, endpointState) gomap" where
  "ex_metas =
     [(\<lparr>em_ipFamily = ''IPv4'', em_ip = ''10.1.0.7'', em_port = 8080,
        em_locality = \<lparr>loc_Zone = ''None'', loc_SubZone = ''node-a''\<rparr>\<rparr>,
       \<lparr>es_ready = True, es_serving = True, es_terminating = False\<rparr>)]"

lemma ex_metas: "extractEndpointMetaAndState [ex_slice] = Inr ex_metas"
  by (simp add: extractEndpointMetaAndState_def endpointMeta_of_def endpointState_of_def
      sliceIPFamily_def pointer_Deref_def gomap_put_def ex_metas_def ex_defs)

text \<open>
  C11. Whatever the order in which the loops visit their maps, the load assignments of a service
  partition its extracted endpoints: one assignment for every cluster with an endpoint, in it
  one group for every locality with an endpoint of that cluster, and in that group every
  endpoint of the cluster and the locality exactly once.
\<close>

theorem MapEndpointSliceToLocalityEndpoints_partitions:
  assumes "valid_orders ords" "extractEndpointMetaAndState slices = Inr metas"
  shows "\<exists>cls. MapEndpointSliceToLocalityEndpoints ords svc slices = Inr cls \<and>
    partitions_endpoints svc metas cls"
  by (rule MapEndpointSlice_partitions [OF assms])

theorem MapEndpointSliceToLocalityEndpoints_partitions_witness:
  "\<exists>cls. MapEndpointSliceToLocalityEndpoints ex_ep_orders ex_service [ex_slice] = Inr cls \<and>
    partitions_endpoints ex_service ex_metas cls"
  by (rule MapEndpointSliceToLocalityEndpoints_partitions) (simp_all add: ex_metas)

text \<open>
  The extracted endpoints: an endpoint is identified by its IP family, its first address,
  its port and its locality, and the last slice entry with that identity decides its state.
\<close>

theorem extract_last_entry_wins:
  assumes "extractEndpointMetaAndState slices = Inr metas"
  shows "gomap_wf metas \<and>
    (\<forall>meta. gomap_get metas meta = map_of (rev (endpoint_entries slices)) meta)"
  using extract_get [OF assms] by blast

theorem extract_last_entry_wins_witness:
  "gomap_wf ex_metas \<and>
    (\<forall>meta. gomap_get ex_metas meta = map_of (rev (endpoint_entries [ex_slice])) meta)"
  by (rule extract_last_entry_wins [OF ex_metas])

text \<open>
  The mapping of endpoint slices panics exactly when a slice with a port has an endpoint
  without addresses, and then with an index out of range.
\<close>

theorem endpoints_without_address_panic:
  "MapEndpointSliceToLocalityEndpoints ords svc slices = Inl p \<longleftrightarrow>
     p = IndexOutOfRange \<and> (\<exists>sl \<in> set slices. has_bad_endpoint sl)"
  by (rule endpoints_panic_iff)

text \<open>
  The health of an endpoint: conditions that are not set count as ready and not terminating;
  an endpoint that is not ready is unhealthy even while it terminates, a ready one that
  terminates drains; the condition \<open>serving\<close> has no influence.
\<close>

theorem endpoint_health:
  "lbe_HealthStatus (mapEndpointMetaAndStateToEndpoint meta (endpointState_of ep)) =
     (if Ready (Conditions ep) = Some False then HealthStatus_UNHEALTHY
      else if Terminating (Conditions ep) = Some True then HealthStatus_DRAINING
      else HealthStatus_HEALTHY)"
  by (auto simp: mapEndpointMetaAndStateToEndpoint_def endpointState_of_def pointer_Deref_def Let_def
      split: option.split)

end
