(* ===== verification/Versioned_Store.thy ===== *)
theory Versioned_Store
  imports Prelude
begin

text \<open>
  The contract that the two stores of \<open>pkg/state\<close> share: \<open>updateService\<close> of the cache and
  \<open>updateEndpointSlice\<close> of a service container both keep, under each name, the object with
  the greatest \<open>ResourceVersion\<close> seen, in the string order the code compares with. What
  follows from the contract alone is proved here once, for both: versions never go back,
  a repeated delivery is harmless, and the order of delivery does not matter.
\<close>

locale versioned_store =
  fixes get :: "'s \<Rightarrow> string \<Rightarrow> 'o option"
    and upd :: "'o \<Rightarrow> 's \<Rightarrow> 's"
    and name :: "'o \<Rightarrow> string"
    and ver :: "'o \<Rightarrow> string"
    and inv :: "'s \<Rightarrow> bool"
  assumes inv_upd: "inv s \<Longrightarrow> inv (upd x s)"
    and get_upd: "inv s \<Longrightarrow> get (upd x s) k =
      (if k = name x \<and> (\<forall>y. get s k = Some y \<longrightarrow> ver y < ver x) then Some x else get s k)"
    and get_name: "inv s \<Longrightarrow> get s k = Some x \<Longrightarrow> name x = k"
begin

lemma inv_fold: "inv s \<Longrightarrow> inv (fold upd xs s)"
  by (induction xs arbitrary: s) (auto intro: inv_upd)

lemma version_mono:
  "inv s \<Longrightarrow> get s k = Some x \<Longrightarrow> \<exists>y. get (upd z s) k = Some y \<and> ver x \<le> ver y"
  by (auto simp: get_upd)

lemma version_mono_fold:
  "inv s \<Longrightarrow> get s k = Some x \<Longrightarrow> \<exists>y. get (fold upd zs s) k = Some y \<and> ver x \<le> ver y"
proof (induction zs arbitrary: s x)
  case Nil
  then show ?case by simp
next
  case (Cons z zs)
  obtain y where y: "get (upd z s) k = Some y" "ver x \<le> ver y"
    using version_mono Cons.prems by blast
  with Cons.IH [OF inv_upd [OF Cons.prems(1)] y(1)] show ?case
    by (auto intro: order_trans)
qed

lemma upd_idem: "inv s \<Longrightarrow> get (upd x (upd x s)) = get (upd x s)"
  by (rule ext) (auto simp: get_upd inv_upd)

text \<open>Two deliveries commute unless they are two versions of one name that compare equal.\<close>

lemma upd_commute:
  assumes "inv s" "name x = name y \<Longrightarrow> ver x \<noteq> ver y"
  shows "get (upd x (upd y s)) k = get (upd y (upd x s)) k"
proof (cases "name x = name y \<and> k = name x")
  case True
  with assms(2) have "ver x < ver y \<or> ver y < ver x" by auto
  then show ?thesis
  proof
    assume "ver x < ver y"
    with True assms(1) show ?thesis
      by (cases "get s k") (auto simp: get_upd inv_upd intro: order.strict_trans)
  next
    assume "ver y < ver x"
    with True assms(1) show ?thesis
      by (cases "get s k") (auto simp: get_upd inv_upd intro: order.strict_trans)
  qed
next
  case False
  then consider "k \<noteq> name x" | "k \<noteq> name y" by auto
  then show ?thesis
    using assms(1) by cases (simp_all add: get_upd inv_upd, blast+)
qed

lemma get_fold_mem:
  "inv s \<Longrightarrow> get (fold upd xs s) k = Some x \<Longrightarrow> get s k = Some x \<or> (x \<in> set xs \<and> name x = k)"
proof (induction xs arbitrary: s)
  case Nil
  then show ?case by simp
next
  case (Cons a xs)
  from Cons.prems(2) have "get (fold upd xs (upd a s)) k = Some x" by simp
  from Cons.IH [OF inv_upd [OF Cons.prems(1)] this] Cons.prems(1) show ?case
    by (auto simp: get_upd split: if_splits)
qed

lemma get_fold_max:
  "inv s \<Longrightarrow> x \<in> set xs \<Longrightarrow> \<exists>y. get (fold upd xs s) (name x) = Some y \<and> ver x \<le> ver y"
proof (induction xs arbitrary: s)
  case Nil
  then show ?case by simp
next
  case (Cons a xs)
  show ?case
  proof (cases "x = a")
    case True
    have "\<exists>y. get (upd a s) (name a) = Some y \<and> ver a \<le> ver y"
      using Cons.prems(1) by (auto simp: get_upd not_less)
    then obtain y where y: "get (upd a s) (name a) = Some y" "ver a \<le> ver y"
      by blast
    from version_mono_fold [OF inv_upd [OF Cons.prems(1)] y(1)] y(2) True show ?thesis
      by (auto intro: order_trans)
  next
    case False
    with Cons show ?thesis by (auto intro: inv_upd)
  qed
qed

text \<open>
  The result of a batch of deliveries depends only on which objects were delivered, if no
  two different ones carry the same name and version.
\<close>

definition unambiguous :: "'o set \<Rightarrow> bool" where
  "unambiguous X \<longleftrightarrow> (\<forall>x \<in> X. \<forall>y \<in> X. name x = name y \<longrightarrow> ver x = ver y \<longrightarrow> x = y)"

lemma get_fold_unique:
  assumes inv: "inv s" "inv t" and same: "\<And>k. get s k = None" "\<And>k. get t k = None"
    and sets: "set xs = set ys" and un: "unambiguous (set xs)"
  shows "get (fold upd xs s) k = get (fold upd ys t) k"
proof (cases "get (fold upd xs s) k")
  case None
  have "get (fold upd ys t) k = None"
  proof (rule ccontr)
    assume "get (fold upd ys t) k \<noteq> None"
    then obtain y where "get (fold upd ys t) k = Some y" by blast
    with get_fold_mem [OF inv(2)] same(2) have "y \<in> set xs" "name y = k"
      by (auto simp: sets)
    with get_fold_max [OF inv(1)] None show False by force
  qed
  with None show ?thesis by simp
next
  case (Some x)
  with get_fold_mem [OF inv(1)] same(1) have x: "x \<in> set xs" "name x = k"
    by fastforce+
  with get_fold_max [OF inv(2)] sets obtain y
    where y: "get (fold upd ys t) k = Some y" "ver x \<le> ver y" by blast
  with get_fold_mem [OF inv(2)] same(2) have y': "y \<in> set xs" "name y = k"
    by (auto simp: sets)
  with get_fold_max [OF inv(1)] Some have "ver y \<le> ver x" by fastforce
  with y(2) have "ver x = ver y" by simp
  with un x y' have "x = y" unfolding unambiguous_def by auto
  with Some y(1) show ?thesis by simp
qed

end

end
