(* ===== verification/State_Service.thy ===== *)
theory State_Service
  imports Kube_Types Versioned_Store
begin

text \<open>
  \<open>pkg/state/service.go\<close> and \<open>pkg/state/snapshot/snapshot.go\<close>: a service container, which
  holds one Kubernetes service and its endpoint slices by name. The container's mutex makes
  each method atomic; a method is a function from the container to the new container and
  the method's result. Log lines have no counterpart.
\<close>

section \<open>The result of an endpoint slice operation\<close>

datatype EndpointSliceOperationStatus =
    ENDPOINTSLICE_OPERATION_STATUS_NOOP
  | ENDPOINTSLICE_OPERATION_STATUS_UPDATED
  | ENDPOINTSLICE_OPERATION_STATUS_DELETED
  | ENDPOINTSLICE_OPERATION_STATUS_INVALID_SERVICE_LABEL
  | ENDPOINTSLICE_OPERATION_STATUS_ERROR

text \<open>The constants are an \<open>iota\<close> sequence, and the cache compares them as integers.\<close>

fun status_iota :: "EndpointSliceOperationStatus \<Rightarrow> nat" where
  "status_iota ENDPOINTSLICE_OPERATION_STATUS_NOOP = 0"
| "status_iota ENDPOINTSLICE_OPERATION_STATUS_UPDATED = 1"
| "status_iota ENDPOINTSLICE_OPERATION_STATUS_DELETED = 2"
| "status_iota ENDPOINTSLICE_OPERATION_STATUS_INVALID_SERVICE_LABEL = 3"
| "status_iota ENDPOINTSLICE_OPERATION_STATUS_ERROR = 4"

lemma status_iota_inject: "status_iota a = status_iota b \<Longrightarrow> a = b"
  by (cases a; cases b) auto

instantiation EndpointSliceOperationStatus :: linorder
begin

definition less_eq_EndpointSliceOperationStatus ::
    "EndpointSliceOperationStatus \<Rightarrow> EndpointSliceOperationStatus \<Rightarrow> bool" where
  "a \<le> b \<longleftrightarrow> status_iota a \<le> status_iota b"

definition less_EndpointSliceOperationStatus ::
    "EndpointSliceOperationStatus \<Rightarrow> EndpointSliceOperationStatus \<Rightarrow> bool" where
  "a < b \<longleftrightarrow> status_iota a < status_iota b"

instance
  by standard
    (auto simp: less_eq_EndpointSliceOperationStatus_def less_EndpointSliceOperationStatus_def
      status_iota_inject)

end

fun EndpointSliceOperationStatus_String :: "EndpointSliceOperationStatus \<Rightarrow> string" where
  "EndpointSliceOperationStatus_String ENDPOINTSLICE_OPERATION_STATUS_DELETED =
     ''EndpointSlice deleted''"
| "EndpointSliceOperationStatus_String ENDPOINTSLICE_OPERATION_STATUS_UPDATED =
     ''EndpointSlice updated''"
| "EndpointSliceOperationStatus_String ENDPOINTSLICE_OPERATION_STATUS_INVALID_SERVICE_LABEL =
     ''EndpointSlice update failed, invalid service label''"
| "EndpointSliceOperationStatus_String ENDPOINTSLICE_OPERATION_STATUS_ERROR =
     ''EndpointSlice update failed, invalid reference''"
| "EndpointSliceOperationStatus_String ENDPOINTSLICE_OPERATION_STATUS_NOOP =
     ''EndpointSlice updated not required''"

section \<open>The service container\<close>

datatype serviceOpts = ServiceOpts

definition serviceOpts_Update :: "serviceOpts \<Rightarrow> Service \<Rightarrow> serviceOpts" where
  "serviceOpts_Update so svc = so"

definition NewServiceOpts :: "Service \<Rightarrow> serviceOpts" where
  "NewServiceOpts svc = serviceOpts_Update ServiceOpts svc"

record serviceContainer =
  obj :: Service
  opts :: serviceOpts
  endpointSlices :: "(string, EndpointSlice) gomap"

record snap_Service =
  Obj :: Service
  EndpointSlices :: "EndpointSlice list"

record snap_Snapshot =
  Services :: "snap_Service list"

definition NewServiceContainer :: "Service \<Rightarrow> serviceContainer" where
  "NewServiceContainer svc =
     \<lparr>obj = svc, opts = NewServiceOpts svc, endpointSlices = []\<rparr>"

text \<open>
  \<open>obj.DeepCopy()\<close> and \<open>v.DeepCopy()\<close> are the API types' generated copies: fresh objects
  with the same contents, so the same values. The map is rebuilt entry by entry in the
  order of the \<open>range\<close> loop.
\<close>

definition serviceContainer_DeepCopy :: "range_order \<Rightarrow> serviceContainer \<Rightarrow> serviceContainer" where
  "serviceContainer_DeepCopy ord s =
     \<lparr>obj = obj s, opts = opts s,
      endpointSlices = fold (\<lambda>(k, v). gomap_put k v) (range_map ord (endpointSlices s)) []\<rparr>"

definition serviceContainer_Update ::
    "serviceContainer \<Rightarrow> Service option \<Rightarrow> go_error + serviceContainer" where
  "serviceContainer_Update s new =
     (case new of
        None \<Rightarrow> Inl ''nullptr''
      | Some svc \<Rightarrow> Inr (s\<lparr>obj := svc, opts := serviceOpts_Update (opts s) svc\<rparr>))"

definition updateEndpointSlice ::
    "serviceContainer \<Rightarrow> EndpointSlice \<Rightarrow> serviceContainer \<times> EndpointSliceOperationStatus" where
  "updateEndpointSlice s es =
     (case gomap_get (endpointSlices s) (Name es) of
        Some existing \<Rightarrow>
          if ResourceVersion existing \<ge> ResourceVersion es
          then (s, ENDPOINTSLICE_OPERATION_STATUS_NOOP)
          else (s\<lparr>endpointSlices := gomap_put (Name es) es (endpointSlices s)\<rparr>,
                ENDPOINTSLICE_OPERATION_STATUS_UPDATED)
      | None \<Rightarrow> (s\<lparr>endpointSlices := gomap_put (Name es) es (endpointSlices s)\<rparr>,
                 ENDPOINTSLICE_OPERATION_STATUS_UPDATED))"

definition deleteEndpointSlice ::
    "serviceContainer \<Rightarrow> EndpointSlice \<Rightarrow> serviceContainer \<times> EndpointSliceOperationStatus" where
  "deleteEndpointSlice s es =
     (case gomap_get (endpointSlices s) (Name es) of
        Some _ \<Rightarrow> (s\<lparr>endpointSlices := gomap_del (Name es) (endpointSlices s)\<rparr>,
                   ENDPOINTSLICE_OPERATION_STATUS_DELETED)
      | None \<Rightarrow> (s, ENDPOINTSLICE_OPERATION_STATUS_NOOP))"

definition UpdatEndpointslices ::
    "serviceContainer \<Rightarrow> EndpointSlice option \<Rightarrow> bool \<Rightarrow>
     serviceContainer \<times> EndpointSliceOperationStatus" where
  "UpdatEndpointslices s endpointslice delete =
     (case endpointslice of
        None \<Rightarrow> (s, ENDPOINTSLICE_OPERATION_STATUS_ERROR)
      | Some es \<Rightarrow>
          (case gomap_get (Labels es) LabelServiceName of
             None \<Rightarrow> (s, ENDPOINTSLICE_OPERATION_STATUS_INVALID_SERVICE_LABEL)
           | Some svcName \<Rightarrow>
               if svcName \<noteq> Name (obj s)
               then (s, ENDPOINTSLICE_OPERATION_STATUS_INVALID_SERVICE_LABEL)
               else if delete then deleteEndpointSlice s es
               else updateEndpointSlice s es))"

definition serviceContainer_Snapshot :: "range_order \<Rightarrow> serviceContainer \<Rightarrow> snap_Service" where
  "serviceContainer_Snapshot ord s =
     \<lparr>Obj = obj s, EndpointSlices = map snd (range_map ord (endpointSlices s))\<rparr>"

lemmas container_defs =
  NewServiceContainer_def NewServiceOpts_def serviceOpts_Update_def serviceContainer_Update_def
  updateEndpointSlice_def deleteEndpointSlice_def UpdatEndpointslices_def

section \<open>Invariant\<close>

text \<open>
  The slices are keyed by their names, and every slice carries the service label of the
  container's service.
\<close>

definition slices_inv :: "serviceContainer \<Rightarrow> bool" where
  "slices_inv s \<longleftrightarrow> gomap_wf (endpointSlices s) \<and>
     (\<forall>(k, es) \<in> set (endpointSlices s). Name es = k)"

definition container_inv :: "serviceContainer \<Rightarrow> bool" where
  "container_inv s \<longleftrightarrow> slices_inv s \<and>
     (\<forall>(k, es) \<in> set (endpointSlices s).
        gomap_get (Labels es) LabelServiceName = Some (Name (obj s)))"

lemma slices_inv_update [inv_intros]: "slices_inv s \<Longrightarrow> slices_inv (fst (updateEndpointSlice s es))"
  by (auto simp: slices_inv_def updateEndpointSlice_def gomap_put_mem split: option.split if_splits)

lemma slices_inv_delete [inv_intros]: "slices_inv s \<Longrightarrow> slices_inv (fst (deleteEndpointSlice s es))"
  by (auto simp: slices_inv_def deleteEndpointSlice_def gomap_del_mem split: option.split)

lemma slices_inv_get: "slices_inv s \<Longrightarrow> gomap_get (endpointSlices s) k = Some es \<Longrightarrow> Name es = k"
  by (auto simp: slices_inv_def dest: gomap_get_Some_mem)

lemma container_inv_New [inv_intros, simp]: "container_inv (NewServiceContainer svc)"
  by (simp add: container_inv_def slices_inv_def NewServiceContainer_def)

lemma container_inv_Update [inv_intros]:
  "container_inv s \<Longrightarrow> serviceContainer_Update s (Some svc) = Inr s' \<Longrightarrow> Name svc = Name (obj s)
    \<Longrightarrow> container_inv s'"
  by (auto simp: container_inv_def slices_inv_def serviceContainer_Update_def)

lemma container_inv_wf: "container_inv s \<Longrightarrow> gomap_wf (endpointSlices s)"
  by (simp add: container_inv_def slices_inv_def)

lemma UpdatEndpointslices_obj [simp]: "obj (fst (UpdatEndpointslices s es d)) = obj s"
  by (auto simp: UpdatEndpointslices_def updateEndpointSlice_def deleteEndpointSlice_def
      split: option.split)

text \<open>A request that fails the label check, or with a nil slice, leaves the container alone.\<close>

lemma UpdatEndpointslices_unchanged:
  assumes "UpdatEndpointslices s es d = (s', st)"
    and "st \<noteq> ENDPOINTSLICE_OPERATION_STATUS_UPDATED" "st \<noteq> ENDPOINTSLICE_OPERATION_STATUS_DELETED"
  shows "s' = s"
  using assms
  by (auto simp: UpdatEndpointslices_def updateEndpointSlice_def deleteEndpointSlice_def
      split: option.splits if_splits)

section \<open>The container as a versioned store of slices\<close>

interpretation slices: versioned_store
  "\<lambda>s. gomap_get (endpointSlices s)" "\<lambda>es s. fst (updateEndpointSlice s es)"
  Name ResourceVersion slices_inv
proof
  fix s :: serviceContainer and es :: EndpointSlice and k
  assume inv: "slices_inv s"
  show "slices_inv (fst (updateEndpointSlice s es))"
    using inv by (rule slices_inv_update)
  show "gomap_get (endpointSlices (fst (updateEndpointSlice s es))) k =
      (if k = Name es \<and> (\<forall>y. gomap_get (endpointSlices s) k = Some y \<longrightarrow>
           ResourceVersion y < ResourceVersion es)
       then Some es else gomap_get (endpointSlices s) k)"
    by (auto simp: updateEndpointSlice_def not_le split: option.split)
  show "gomap_get (endpointSlices s) k = Some x \<Longrightarrow> Name x = k" for x
    using inv by (rule slices_inv_get)
qed

end
