(* ===== verification/Mapper.thy ===== *)
theory Mapper
  imports Mapper_Listener Mapper_Cluster Mapper_Endpoints State_Service
begin

text \<open>
  \<open>pkg/translations/mapper.go\<close>: the Envoy resources of a snapshot of the cluster state.
  \<open>cache.NewSnapshot\<close> and the version string (the current time) are parameters. The loops of
  the endpoint mapping have their own visiting orders for every service of the snapshot.
\<close>

record resources =
  res_clusters :: "Cluster list"
  res_listeners :: "Listener list"
  res_endpoints :: "ClusterLoadAssignment list"

definition no_resources :: resources where
  "no_resources = \<lparr>res_clusters = [], res_listeners = [], res_endpoints = []\<rparr>"

definition mapPort :: "marshaller \<Rightarrow> Service \<Rightarrow> ServicePort \<Rightarrow> resources \<Rightarrow> resources go" where
  "mapPort marshal svc port res =
     (if port_Protocol port \<noteq> ProtocolTCP then Inr res
      else let res = res\<lparr>res_clusters := res_clusters res @ MapServicePortToClusters svc port\<rparr>
           in go_bind (MapServicePortToListeners marshal svc port) (\<lambda>listeners.
                Inr (res\<lparr>res_listeners := res_listeners res @ listeners\<rparr>)))"

definition mapService ::
    "marshaller \<Rightarrow> endpoint_orders \<Rightarrow> snap_Service \<Rightarrow> resources \<Rightarrow> resources go" where
  "mapService marshal ords svc res =
     go_bind (go_fold (mapPort marshal (Obj svc)) (Ports (Spec (Obj svc))) res) (\<lambda>res.
     go_bind (MapEndpointSliceToLocalityEndpoints ords (Obj svc) (EndpointSlices svc)) (\<lambda>endpoints.
       Inr (res\<lparr>res_endpoints := res_endpoints res @ endpoints\<rparr>)))"

definition mapServices ::
    "marshaller \<Rightarrow> (nat \<Rightarrow> endpoint_orders) \<Rightarrow> snap_Snapshot \<Rightarrow> resources go" where
  "mapServices marshal ords snap =
     go_fold (\<lambda>(i, svc). mapService marshal (ords i) svc) (List.enumerate 0 (Services snap)) no_resources"

definition EnvoySnapshotFromKubeSnapshot ::
    "marshaller \<Rightarrow> (nat \<Rightarrow> endpoint_orders) \<Rightarrow> (string \<Rightarrow> resources \<Rightarrow> 'snap \<times> go_error option) \<Rightarrow>
     string \<Rightarrow> snap_Snapshot \<Rightarrow> ('snap \<times> go_error option) go" where
  "EnvoySnapshotFromKubeSnapshot marshal ords NewSnapshot version snap =
     go_bind (mapServices marshal ords snap) (\<lambda>res. Inr (NewSnapshot version res))"

section \<open>What the loops compute\<close>

definition tcp_ports :: "Service \<Rightarrow> ServicePort list" where
  "tcp_ports svc = filter (\<lambda>p. port_Protocol p = ProtocolTCP) (Ports (Spec svc))"

definition service_clusters :: "Service \<Rightarrow> Cluster list" where
  "service_clusters svc = concat (map (MapServicePortToClusters svc) (tcp_ports svc))"

definition service_listeners :: "Service \<Rightarrow> listener_view list" where
  "service_listeners svc = concat (map (listeners_spec svc) (tcp_ports svc))"

definition bad_snapshot :: "snap_Snapshot \<Rightarrow> bool" where
  "bad_snapshot snap \<longleftrightarrow>
     (\<exists>svc \<in> set (Services snap). \<exists>sl \<in> set (EndpointSlices svc). has_bad_endpoint sl)"

lemma mapPorts:
  assumes "marshals marshal"
  shows "\<exists>ls. go_fold (mapPort marshal svc) ports res = Inr (res
      \<lparr>res_clusters := res_clusters res @ concat (map (MapServicePortToClusters svc)
        (filter (\<lambda>p. port_Protocol p = ProtocolTCP) ports)),
       res_listeners := res_listeners res @ ls\<rparr>) \<and>
    map listener_view ls =
      concat (map (listeners_spec svc) (filter (\<lambda>p. port_Protocol p = ProtocolTCP) ports))"
proof (induction ports arbitrary: res)
  case Nil
  then show ?case by simp
next
  case (Cons p ports)
  obtain ls where ls: "MapServicePortToListeners marshal svc p = Inr ls"
    "map listener_view ls = listeners_spec svc p"
    using listeners_view [OF assms] by blast
  show ?case
    using Cons [of res] Cons [of "res\<lparr>res_clusters := res_clusters res @ MapServicePortToClusters svc p,
        res_listeners := res_listeners res @ ls\<rparr>"] ls
    by (cases "port_Protocol p = ProtocolTCP") (auto simp: mapPort_def Let_def)
qed

text \<open>The resources of a list of services, whose endpoint loops use the orders from \<open>i\<close> on.\<close>

definition resources_of ::
    "nat \<Rightarrow> (nat \<Rightarrow> endpoint_orders) \<Rightarrow> snap_Service list \<Rightarrow> resources \<Rightarrow> bool" where
  "resources_of i ords svcs res \<longleftrightarrow>
     res_clusters res = concat (map (\<lambda>s. service_clusters (Obj s)) svcs) \<and>
     map listener_view (res_listeners res) = concat (map (\<lambda>s. service_listeners (Obj s)) svcs) \<and>
     (\<exists>epss. list_all2 (\<lambda>(i, s) eps.
         MapEndpointSliceToLocalityEndpoints (ords i) (Obj s) (EndpointSlices s) = Inr eps)
         (List.enumerate i svcs) epss \<and>
       res_endpoints res = concat epss)"

lemma mapService_result:
  assumes "marshals marshal"
    and "MapEndpointSliceToLocalityEndpoints ords (Obj s) (EndpointSlices s) = Inr eps"
  shows "\<exists>ls. mapService marshal ords s res = Inr (res
      \<lparr>res_clusters := res_clusters res @ service_clusters (Obj s),
       res_listeners := res_listeners res @ ls,
       res_endpoints := res_endpoints res @ eps\<rparr>) \<and>
    map listener_view ls = service_listeners (Obj s)"
  using mapPorts [OF assms(1), of "Obj s" "Ports (Spec (Obj s))" res] assms(2)
  by (auto simp: mapService_def service_clusters_def service_listeners_def tcp_ports_def)

lemma endpoints_total:
  assumes "\<forall>sl \<in> set slices. \<not> has_bad_endpoint sl"
  shows "\<exists>eps. MapEndpointSliceToLocalityEndpoints ords svc slices = Inr eps"
  using assms endpoints_panic_iff [of ords svc slices]
  by (cases "MapEndpointSliceToLocalityEndpoints ords svc slices") auto

definition res_append :: "resources \<Rightarrow> resources \<Rightarrow> resources" where
  "res_append a b =
     \<lparr>res_clusters = res_clusters a @ res_clusters b,
      res_listeners = res_listeners a @ res_listeners b,
      res_endpoints = res_endpoints a @ res_endpoints b\<rparr>"

lemma res_append_empty [simp]: "res_append no_resources a = a"
  by (simp add: res_append_def no_resources_def)

lemma resources_of_Cons:
  assumes "MapEndpointSliceToLocalityEndpoints (ords i) (Obj s) (EndpointSlices s) = Inr eps"
    and "map listener_view ls = service_listeners (Obj s)"
    and "resources_of (Suc i) ords svcs add"
  shows "resources_of i ords (s # svcs) (res_append
    \<lparr>res_clusters = service_clusters (Obj s), res_listeners = ls, res_endpoints = eps\<rparr> add)"
proof -
  obtain epss where "list_all2 (\<lambda>(i, s) eps.
       MapEndpointSliceToLocalityEndpoints (ords i) (Obj s) (EndpointSlices s) = Inr eps)
      (List.enumerate (Suc i) svcs) epss" "res_endpoints add = concat epss"
    using assms(3) unfolding resources_of_def by blast
  with assms show ?thesis
    by (auto simp: resources_of_def res_append_def intro!: exI [of _ "eps # epss"])
qed

lemma mapServices_loop:
  assumes "marshals marshal" "\<forall>s \<in> set svcs. \<forall>sl \<in> set (EndpointSlices s). \<not> has_bad_endpoint sl"
  shows "\<exists>add. go_fold (\<lambda>(i, svc). mapService marshal (ords i) svc) (List.enumerate i svcs) res =
      Inr (res_append res add) \<and> resources_of i ords svcs add"
  using assms(2)
proof (induction svcs arbitrary: i res)
  case Nil
  then show ?case
    by (auto intro!: exI [of _ no_resources] simp: res_append_def no_resources_def resources_of_def)
next
  case (Cons s svcs)
  obtain eps where eps: "MapEndpointSliceToLocalityEndpoints (ords i) (Obj s) (EndpointSlices s) = Inr eps"
    using endpoints_total [of "EndpointSlices s" "ords i" "Obj s"] Cons.prems by auto
  let ?s = "\<lambda>ls. \<lparr>res_clusters = service_clusters (Obj s), res_listeners = ls, res_endpoints = eps\<rparr>"
  obtain ls where ls: "mapService marshal (ords i) s res = Inr (res_append res (?s ls))"
    "map listener_view ls = service_listeners (Obj s)"
    using mapService_result [OF assms(1) eps, of res]
    by (cases res) (auto simp: res_append_def)
  obtain add where add: "go_fold (\<lambda>(i, svc). mapService marshal (ords i) svc)
      (List.enumerate (Suc i) svcs) (res_append res (?s ls)) =
        Inr (res_append (res_append res (?s ls)) add)" "resources_of (Suc i) ords svcs add"
    using Cons.IH [of "Suc i" "res_append res (?s ls)"] Cons.prems by auto
  moreover have "res_append (res_append res (?s ls)) add = res_append res (res_append (?s ls) add)"
    by (simp add: res_append_def)
  ultimately show ?case
    using ls eps resources_of_Cons [OF eps ls(2) add(2)] by auto
qed

lemma mapServices_result:
  assumes "marshals marshal" "\<not> bad_snapshot snap"
  obtains res where "mapServices marshal ords snap = Inr res"
    and "resources_of 0 ords (Services snap) res"
  using mapServices_loop [OF assms(1), of "Services snap" ords 0 no_resources] assms(2)
  by (auto simp: mapServices_def bad_snapshot_def)

text \<open>A service whose endpoints cannot be mapped stops the loop with a panic.\<close>

lemma mapServices_loop_panics:
  assumes "marshals marshal" "\<exists>s \<in> set svcs. \<exists>sl \<in> set (EndpointSlices s). has_bad_endpoint sl"
  shows "go_fold (\<lambda>(i, svc). mapService marshal (ords i) svc) (List.enumerate i svcs) res =
      Inl IndexOutOfRange"
  using assms(2)
proof (induction svcs arbitrary: i res)
  case Nil
  then show ?case by simp
next
  case (Cons s svcs)
  show ?case
  proof (cases "\<exists>sl \<in> set (EndpointSlices s). has_bad_endpoint sl")
    case True
    then have "MapEndpointSliceToLocalityEndpoints (ords i) (Obj s) (EndpointSlices s) = Inl IndexOutOfRange"
      by (simp add: endpoints_panic_iff)
    then show ?thesis
      using mapPorts [OF assms(1), of "Obj s" "Ports (Spec (Obj s))" res]
      by (auto simp: mapService_def)
  next
    case False
    then obtain eps where "MapEndpointSliceToLocalityEndpoints (ords i) (Obj s) (EndpointSlices s) = Inr eps"
      using endpoints_total by meson
    from mapService_result [OF assms(1) this, of res] Cons False show ?thesis by auto
  qed
qed

section \<open>References between the resources\<close>

definition cluster_name_of :: "Service \<Rightarrow> ServicePort \<Rightarrow> string \<Rightarrow> string" where
  "cluster_name_of svc port f =
     getClusterName (Namespace svc) (Name svc) f (IntVal (TargetPort port))"

text \<open>Kubernetes assigns every cluster IP from one of the IP families of the service.\<close>

definition families_match :: "Service \<Rightarrow> bool" where
  "families_match svc \<longleftrightarrow>
     (\<forall>ip \<in> set (ClusterIPs (Spec svc)). ip = ''None'' \<or>
        ipStringToIpFamily ip \<in> set (IPFamilies (Spec svc)))"

text \<open>
  Every listener is one of a TCP port of a service in the snapshot. It sends its traffic to
  exactly one cluster, one of this service that is part of the resources, unless the port
  speaks Redis, for which the code generates no filter chain: such a listener has no target.
\<close>

definition targets_resolved :: "snap_Service list \<Rightarrow> resources \<Rightarrow> bool" where
  "targets_resolved svcs res \<longleftrightarrow>
     (\<forall>l \<in> set (res_listeners res). \<exists>s \<in> set svcs. \<exists>port \<in> set (tcp_ports (Obj s)).
        listener_view l \<in> set (listeners_spec (Obj s) port) \<and>
        (if proxied port
         then \<exists>c \<in> set (service_clusters (Obj s)) \<inter> set (res_clusters res).
           listener_targets l = [cluster_Name c]
         else listener_targets l = []))"

lemma service_cluster_names:
  "cluster_Name ` set (service_clusters svc) =
     {cluster_name_of svc p f | p f. p \<in> set (tcp_ports svc) \<and> f \<in> set (IPFamilies (Spec svc))}"
proof -
  have "cluster_Name ` set (MapServicePortToClusters svc p) =
      cluster_name_of svc p ` set (IPFamilies (Spec svc))" for p
    using arg_cong [OF cluster_names [of svc p], of set] by (simp add: cluster_name_of_def)
  then show ?thesis
    by (auto simp: service_clusters_def image_UN)
qed

lemma listeners_spec_targets:
  assumes "families_match svc" "(n, k, ts) \<in> set (listeners_spec svc port)"
  shows "if proxied port then \<exists>f \<in> set (IPFamilies (Spec svc)). ts = [cluster_name_of svc port f] else ts = []"
  using assms
  by (auto simp: listeners_spec_def clusterIP_view_def nodePort_view_def Let_def targets_of_def
      families_match_def cluster_name_of_def split: if_splits)

lemma resources_targets_resolved:
  assumes "resources_of i ords svcs res" "\<forall>s \<in> set svcs. families_match (Obj s)"
  shows "targets_resolved svcs res"
  unfolding targets_resolved_def
proof
  fix l
  assume l: "l \<in> set (res_listeners res)"
  then have "listener_view l \<in> set (map listener_view (res_listeners res))" by simp
  then have "listener_view l \<in> set (concat (map (\<lambda>s. service_listeners (Obj s)) svcs))"
    using assms(1) unfolding resources_of_def by metis
  then obtain s p where s: "s \<in> set svcs" and p: "p \<in> set (tcp_ports (Obj s))"
    and v: "listener_view l \<in> set (listeners_spec (Obj s) p)"
    by (auto simp: service_listeners_def)
  have targets: "if proxied p
      then \<exists>f \<in> set (IPFamilies (Spec (Obj s))). listener_targets l = [cluster_name_of (Obj s) p f]
      else listener_targets l = []"
    using listeners_spec_targets [of "Obj s"] assms(2) s v unfolding listener_view_def by blast
  have "\<exists>c \<in> set (service_clusters (Obj s)) \<inter> set (res_clusters res). cluster_name_of (Obj s) p f = cluster_Name c"
    if "f \<in> set (IPFamilies (Spec (Obj s)))" for f
  proof -
    have "cluster_name_of (Obj s) p f \<in> cluster_Name ` set (service_clusters (Obj s))"
      using that p unfolding service_cluster_names by blast
    then show ?thesis using assms(1) s by (auto simp: resources_of_def)
  qed
  then have "if proxied p
      then \<exists>c \<in> set (service_clusters (Obj s)) \<inter> set (res_clusters res). listener_targets l = [cluster_Name c]
      else listener_targets l = []"
    using targets by (cases "proxied p") (simp_all, metis)
  with s p v show "\<exists>s \<in> set svcs. \<exists>port \<in> set (tcp_ports (Obj s)).
      listener_view l \<in> set (listeners_spec (Obj s) port) \<and>
      (if proxied port
       then \<exists>c \<in> set (service_clusters (Obj s)) \<inter> set (res_clusters res). listener_targets l = [cluster_Name c]
       else listener_targets l = [])"
    by blast
qed

text \<open>An endpoint is served by a cluster when the load assignment of the cluster lists it.\<close>

definition serves :: "resources \<Rightarrow> string \<Rightarrow> endpointMeta \<times> endpointState \<Rightarrow> bool" where
  "serves res cn ms \<longleftrightarrow>
     (\<exists>a \<in> set (res_endpoints res). cla_ClusterName a = cn \<and>
       (\<exists>l \<in> set (cla_Endpoints a). lle_locality l = em_locality (fst ms) \<and>
          to_endpoint ms \<in> set (lle_LbEndpoints l)))"

lemma partitions_endpoints_serves:
  assumes "partitions_endpoints svc metas eps" "ms \<in> set metas"
  shows "\<exists>a \<in> set eps. cla_ClusterName a = metaClusterName svc (fst ms) \<and>
    (\<exists>l \<in> set (cla_Endpoints a). lle_locality l = em_locality (fst ms) \<and>
      to_endpoint ms \<in> set (lle_LbEndpoints l))"
proof -
  have "metaClusterName svc (fst ms) \<in> set (map cla_ClusterName eps)"
    using assms by (auto simp: partitions_endpoints_def)
  then obtain a where a: "a \<in> set eps" "cla_ClusterName a = metaClusterName svc (fst ms)" by auto
  with assms(1) have pc: "partitions_cluster svc metas a" by (simp add: partitions_endpoints_def)
  have "em_locality (fst ms) \<in> set (map lle_locality (cla_Endpoints a))"
    using pc assms(2) a(2) unfolding partitions_cluster_def in_cluster_def by auto
  then obtain l where l: "l \<in> set (cla_Endpoints a)" "lle_locality l = em_locality (fst ms)" by auto
  with pc have "mset (lle_LbEndpoints l) = image_mset to_endpoint
      (filter_mset (in_group svc (cla_ClusterName a) (em_locality (fst ms))) (mset metas))"
    by (auto simp: partitions_cluster_def partitions_locality_def)
  moreover have "in_group svc (cla_ClusterName a) (em_locality (fst ms)) ms"
    by (simp add: in_group_def in_cluster_def a(2))
  ultimately have "to_endpoint ms \<in># mset (lle_LbEndpoints l)"
    using assms(2) by auto
  with a l show ?thesis by auto
qed

lemma resources_serve:
  assumes "resources_of i ords svcs res" "\<forall>i. valid_orders (ords i)" "s \<in> set svcs"
    and "extractEndpointMetaAndState (EndpointSlices s) = Inr metas" "ms \<in> set metas"
  shows "serves res (metaClusterName (Obj s) (fst ms)) ms"
proof -
  obtain epss where epss: "list_all2 (\<lambda>(i, s) eps.
       MapEndpointSliceToLocalityEndpoints (ords i) (Obj s) (EndpointSlices s) = Inr eps)
      (List.enumerate i svcs) epss" "res_endpoints res = concat epss"
    using assms(1) unfolding resources_of_def by blast
  obtain k where k: "k < length svcs" "svcs ! k = s"
    using assms(3) by (auto simp: in_set_conv_nth)
  then have "MapEndpointSliceToLocalityEndpoints (ords (i + k)) (Obj s) (EndpointSlices s) = Inr (epss ! k)"
    using list_all2_nthD [OF epss(1), of k] by (simp add: nth_enumerate_eq)
  then have "partitions_endpoints (Obj s) metas (epss ! k)"
    using MapEndpointSlice_partitions [OF _ assms(4), of "ords (i + k)" "Obj s"] assms(2) by auto
  moreover have "set (epss ! k) \<subseteq> set (res_endpoints res)"
    using epss(2) k(1) list_all2_lengthD [OF epss(1)] by (auto intro!: bexI [of _ "epss ! k"])
  ultimately show ?thesis
    using partitions_endpoints_serves [OF _ assms(5)] unfolding serves_def by blast
qed

section \<open>Cluster names\<close>

text \<open>Kubernetes names are DNS labels, and the IP families of a service are distinct.\<close>

definition well_named :: "Service \<Rightarrow> bool" where
  "well_named svc \<longleftrightarrow> bar_free (Namespace svc) \<and> bar_free (Name svc) \<and>
     (\<forall>f \<in> set (IPFamilies (Spec svc)). bar_free f) \<and> distinct (IPFamilies (Spec svc))"

definition distinct_target_ports :: "Service \<Rightarrow> bool" where
  "distinct_target_ports svc \<longleftrightarrow> distinct (map (\<lambda>p. IntVal (TargetPort p)) (tcp_ports svc))"

lemma distinct_concat_map:
  assumes "distinct xs" "\<And>x. x \<in> set xs \<Longrightarrow> distinct (f x)"
    and "\<And>x y. x \<in> set xs \<Longrightarrow> y \<in> set xs \<Longrightarrow> x \<noteq> y \<Longrightarrow> set (f x) \<inter> set (f y) = {}"
  shows "distinct (concat (map f xs))"
  using assms by (induction xs) auto

lemma map_cluster_name_service:
  "map cluster_Name (service_clusters svc) =
     concat (map (\<lambda>p. map (cluster_name_of svc p) (IPFamilies (Spec svc))) (tcp_ports svc))"
  by (simp add: service_clusters_def map_concat comp_def cluster_names cluster_name_of_def [abs_def])

lemma service_clusters_distinct:
  assumes "well_named svc" "distinct_target_ports svc"
  shows "distinct (map cluster_Name (service_clusters svc))"
  unfolding map_cluster_name_service
proof (rule distinct_concat_map)
  note inj = getClusterName_inject [of "Namespace svc" "Name svc" _ "Namespace svc" "Name svc"]
  show "distinct (tcp_ports svc)"
    using assms(2) by (simp add: distinct_target_ports_def distinct_map)
  show "distinct (map (cluster_name_of svc p) (IPFamilies (Spec svc)))" for p
    using assms(1) inj by (auto simp: distinct_map inj_on_def cluster_name_of_def well_named_def)
  show "set (map (cluster_name_of svc p) (IPFamilies (Spec svc))) \<inter>
      set (map (cluster_name_of svc q) (IPFamilies (Spec svc))) = {}"
    if "p \<in> set (tcp_ports svc)" "q \<in> set (tcp_ports svc)" "p \<noteq> q" for p q
    using assms inj that
    by (auto simp: cluster_name_of_def well_named_def distinct_target_ports_def distinct_map
        inj_on_def)
qed

lemma service_clusters_disjoint:
  assumes "well_named svc" "well_named svc'"
    and "(Namespace svc, Name svc) \<noteq> (Namespace svc', Name svc')"
  shows "cluster_Name ` set (service_clusters svc) \<inter> cluster_Name ` set (service_clusters svc') = {}"
  using assms
  by (auto simp: service_cluster_names cluster_name_of_def well_named_def getClusterName_inject)

lemma snapshot_clusters_distinct:
  assumes "\<forall>s \<in> set svcs. well_named (Obj s) \<and> distinct_target_ports (Obj s)"
    and "distinct (map (\<lambda>s. (Namespace (Obj s), Name (Obj s))) svcs)"
  shows "distinct (map cluster_Name (concat (map (\<lambda>s. service_clusters (Obj s)) svcs)))"
proof -
  have "distinct (concat (map (\<lambda>s. map cluster_Name (service_clusters (Obj s))) svcs))"
  proof (rule distinct_concat_map)
    show "distinct svcs" using assms(2) by (simp add: distinct_map)
    show "distinct (map cluster_Name (service_clusters (Obj s)))" if "s \<in> set svcs" for s
      using that assms(1) by (simp add: service_clusters_distinct)
    show "set (map cluster_Name (service_clusters (Obj s))) \<inter>
        set (map cluster_Name (service_clusters (Obj t))) = {}"
      if "s \<in> set svcs" "t \<in> set svcs" "s \<noteq> t" for s t
    proof -
      have "(Namespace (Obj s), Name (Obj s)) \<noteq> (Namespace (Obj t), Name (Obj t))"
        using assms(2) that by (auto simp: distinct_map inj_on_def)
      then show ?thesis
        using service_clusters_disjoint [of "Obj s" "Obj t"] assms(1) that by simp
    qed
  qed
  then show ?thesis by (simp add: map_concat comp_def)
qed

section \<open>Load assignments\<close>

definition distinct_services :: "snap_Service list \<Rightarrow> bool" where
  "distinct_services svcs \<longleftrightarrow>
     (\<forall>s \<in> set svcs. well_named (Obj s)) \<and>
     distinct (map (\<lambda>s. (Namespace (Obj s), Name (Obj s))) svcs)"

lemma extract_keys:
  assumes "extractEndpointMetaAndState slices = Inr metas"
  shows "fst ` set metas = fst ` set (endpoint_entries slices)"
proof -
  have "m \<in> fst ` set metas \<longleftrightarrow> gomap_get metas m \<noteq> None" for m
    using extract_get(1) [OF assms] by (force simp: gomap_get_iff)
  then show ?thesis
    using extract_get(2) [OF assms] by (auto simp: map_of_eq_None_iff image_iff)
qed

lemma extract_families:
  assumes "extractEndpointMetaAndState slices = Inr metas" "ms \<in> set metas"
  shows "bar_free (em_ipFamily (fst ms))"
proof -
  have "fst ms \<in> fst ` set (endpoint_entries slices)"
    using assms(2) extract_keys [OF assms(1)] by blast
  then show ?thesis
    by (auto simp: endpoint_entries_def slice_entries_def port_entries_def endpoint_entry_def
        sliceIPFamily_def)
qed

text \<open>
  The slices have an endpoint for a port number in an IP family; a slice port without a number
  counts as port zero.
\<close>

definition has_endpoint_for :: "string \<Rightarrow> int32 \<Rightarrow> EndpointSlice list \<Rightarrow> bool" where
  "has_endpoint_for f n slices \<longleftrightarrow>
     (\<exists>es \<in> set slices. sliceIPFamily es = f \<and> Endpoints es \<noteq> [] \<and>
        (\<exists>p \<in> set (es_Ports es). pointer_Deref (ep_Port p) 0 = n))"

lemma extract_has_endpoint:
  assumes "extractEndpointMetaAndState slices = Inr metas"
  shows "(\<exists>ms \<in> set metas. em_ipFamily (fst ms) = f \<and> em_port (fst ms) = n) \<longleftrightarrow> has_endpoint_for f n slices"
proof -
  have "(\<exists>ms \<in> set metas. em_ipFamily (fst ms) = f \<and> em_port (fst ms) = n) \<longleftrightarrow>
      (\<exists>m \<in> fst ` set (endpoint_entries slices). em_ipFamily m = f \<and> em_port m = n)"
    unfolding extract_keys [OF assms, symmetric] by auto
  also have "\<dots> \<longleftrightarrow> has_endpoint_for f n slices"
  proof -
    have entries: "set (endpoint_entries slices) =
        (\<Union>es \<in> set slices. \<Union>p \<in> set (es_Ports es). endpoint_entry (sliceIPFamily es) p ` set (Endpoints es))"
      by (simp add: endpoint_entries_def slice_entries_def port_entries_def)
    have meta: "em_ipFamily (fst (endpoint_entry i p ep)) = i"
      "em_port (fst (endpoint_entry i p ep)) = pointer_Deref (ep_Port p) 0" for i p ep
      by (simp_all add: endpoint_entry_def)
    have nonempty: "Endpoints es \<noteq> [] \<longleftrightarrow> (\<exists>ep. ep \<in> set (Endpoints es))" for es
      by (cases "Endpoints es") auto
    show ?thesis unfolding has_endpoint_for_def nonempty entries by (auto simp: meta)
  qed
  finally show ?thesis .
qed

lemma resources_assignment_names:
  assumes "resources_of i ords svcs res" "\<forall>i. valid_orders (ords i)" "a \<in> set (res_endpoints res)"
  shows "\<exists>s \<in> set svcs. \<exists>metas. extractEndpointMetaAndState (EndpointSlices s) = Inr metas \<and>
    cla_ClusterName a \<in> metaClusterName (Obj s) ` fst ` set metas"
proof -
  obtain epss where epss: "list_all2 (\<lambda>(i, s) eps.
       MapEndpointSliceToLocalityEndpoints (ords i) (Obj s) (EndpointSlices s) = Inr eps)
      (List.enumerate i svcs) epss" "res_endpoints res = concat epss"
    using assms(1) unfolding resources_of_def by blast
  obtain k where k: "k < length epss" "a \<in> set (epss ! k)"
    using assms(3) epss(2) by (metis UN_E in_set_conv_nth set_concat)
  then have "k < length svcs" using list_all2_lengthD [OF epss(1)] by simp
  then have m: "MapEndpointSliceToLocalityEndpoints (ords (i + k)) (Obj (svcs ! k))
      (EndpointSlices (svcs ! k)) = Inr (epss ! k)"
    using list_all2_nthD [OF epss(1), of k] by (simp add: nth_enumerate_eq)
  then obtain metas where metas: "extractEndpointMetaAndState (EndpointSlices (svcs ! k)) = Inr metas"
    by (auto simp: MapEndpointSliceToLocalityEndpoints_def go_bind_Inr_iff)
  have "partitions_endpoints (Obj (svcs ! k)) metas (epss ! k)"
    using MapEndpointSlice_partitions [OF _ metas, of "ords (i + k)" "Obj (svcs ! k)"] assms(2) m
    by auto
  then have "cla_ClusterName a \<in> metaClusterName (Obj (svcs ! k)) ` fst ` set metas"
    using k(2) by (auto simp: partitions_endpoints_def)
  with metas \<open>k < length svcs\<close> show ?thesis using nth_mem by blast
qed

lemma resources_assignment_iff:
  assumes "resources_of i ords svcs res" "\<forall>i. valid_orders (ords i)" "distinct_services svcs"
    and "s \<in> set svcs" "extractEndpointMetaAndState (EndpointSlices s) = Inr metas"
    and "f \<in> set (IPFamilies (Spec (Obj s)))"
  shows "cluster_name_of (Obj s) p f \<in> cla_ClusterName ` set (res_endpoints res) \<longleftrightarrow>
    (\<exists>ms \<in> set metas. em_ipFamily (fst ms) = f \<and> em_port (fst ms) = IntVal (TargetPort p))"
    (is "?lhs \<longleftrightarrow> ?rhs")
proof
  assume ?lhs
  then obtain t metas' ms where t: "t \<in> set svcs" "ms \<in> set metas'"
    "extractEndpointMetaAndState (EndpointSlices t) = Inr metas'"
    and eq: "cluster_name_of (Obj s) p f = metaClusterName (Obj t) (fst ms)"
    using resources_assignment_names [OF assms(1,2)] by fastforce
  have wn: "well_named (Obj s)" "well_named (Obj t)"
    using assms(3,4) t(1) by (auto simp: distinct_services_def)
  have same: "Namespace (Obj s) = Namespace (Obj t)" "Name (Obj s) = Name (Obj t)"
    "em_ipFamily (fst ms) = f" "em_port (fst ms) = IntVal (TargetPort p)"
    using eq wn assms(6) extract_families [OF t(3,2)]
    by (auto simp: cluster_name_of_def metaClusterName_def well_named_def getClusterName_inject)
  then have "s = t"
    using assms(3,4) t(1) by (auto simp: distinct_services_def distinct_map inj_on_def)
  then have "metas' = metas" using t(3) assms(5) by simp
  then show ?rhs using t(2) same by blast
next
  assume ?rhs
  then obtain ms where "ms \<in> set metas" "metaClusterName (Obj s) (fst ms) = cluster_name_of (Obj s) p f"
    by (auto simp: metaClusterName_def cluster_name_of_def)
  then show ?lhs
    using resources_serve [OF assms(1,2,4,5)] unfolding serves_def by (metis image_eqI)
qed

section \<open>Other protocols\<close>

definition only_tcp :: "snap_Service \<Rightarrow> snap_Service" where
  "only_tcp s = s\<lparr>Obj := (Obj s)\<lparr>Spec := (Spec (Obj s))\<lparr>Ports := tcp_ports (Obj s)\<rparr>\<rparr>\<rparr>"

lemma getPortSetings_Spec [simp]: "getPortSetings (svc\<lparr>Spec := sp\<rparr>) port = getPortSetings svc port"
proof -
  have "annotation (svc\<lparr>Spec := sp\<rparr>) port n = annotation svc port n" for n
    by (simp add: annotation_def getPortSettingsAnnotationsKey_def)
  then show ?thesis
    by (simp add: getPortSetings_def Let_def config_cong [of "svc\<lparr>Spec := sp\<rparr>" port _ svc port]
        getDurationConfig_cong [of "svc\<lparr>Spec := sp\<rparr>" port _ svc port])
qed

lemma port_resources_only_tcp:
  "clusterIPListener marshal (svc\<lparr>Spec := sp\<rparr>) = clusterIPListener marshal svc"
  "nodePortListener marshal (svc\<lparr>Spec := sp\<rparr>) = nodePortListener marshal svc"
  "genCluster (svc\<lparr>Spec := sp\<rparr>) = genCluster svc"
  by (intro ext, simp add: clusterIPListener_def nodePortListener_def genCluster_def Let_def)+

lemma mapPort_only_tcp:
  "mapPort marshal (svc\<lparr>Spec := (Spec svc)\<lparr>Ports := ps\<rparr>\<rparr>) = mapPort marshal svc"
  by (intro ext)
    (simp add: mapPort_def MapServicePortToClusters_def MapServicePortToListeners_def Let_def
      port_resources_only_tcp cong: if_cong)

lemma mapEndpoints_only_tcp:
  "MapEndpointSliceToLocalityEndpoints ords (svc\<lparr>Spec := sp\<rparr>) =
     MapEndpointSliceToLocalityEndpoints ords svc"
proof -
  have "groupEndpoint (svc\<lparr>Spec := sp\<rparr>) = groupEndpoint svc"
    by (intro ext) (simp add: groupEndpoint_def metaClusterName_def)
  then show ?thesis
    by (intro ext) (simp add: MapEndpointSliceToLocalityEndpoints_def)
qed

lemma go_fold_filter:
  assumes "\<And>x s. \<not> P x \<Longrightarrow> f x s = Inr s"
  shows "go_fold f (filter P xs) s = go_fold f xs s"
proof (induction xs arbitrary: s)
  case Nil
  then show ?case by simp
next
  case (Cons x xs)
  then show ?case using assms by (cases "f x s") auto
qed

lemma mapService_only_tcp: "mapService marshal ords (only_tcp s) = mapService marshal ords s"
proof
  fix res
  have "go_fold (mapPort marshal (Obj s)) (tcp_ports (Obj s)) res =
      go_fold (mapPort marshal (Obj s)) (Ports (Spec (Obj s))) res"
    unfolding tcp_ports_def by (rule go_fold_filter) (simp add: mapPort_def)
  then show "mapService marshal ords (only_tcp s) res = mapService marshal ords s res"
    by (simp add: mapService_def only_tcp_def mapPort_only_tcp mapEndpoints_only_tcp)
qed

lemma mapServices_only_tcp:
  "go_fold (\<lambda>(i, svc). mapService marshal (ords i) svc) (List.enumerate i (map only_tcp svcs)) res =
   go_fold (\<lambda>(i, svc). mapService marshal (ords i) svc) (List.enumerate i svcs) res"
proof (induction svcs arbitrary: i res)
  case Nil
  then show ?case by simp
next
  case (Cons s svcs)
  then show ?case
    by (cases "mapService marshal (ords i) s res") (simp_all add: mapService_only_tcp)
qed

section \<open>Properties\<close>

definition ex_snapshot :: snap_Snapshot where
  "ex_snapshot = \<lparr>Services = [\<lparr>Obj = ex_service, EndpointSlices = [ex_slice]\<rparr>]\<rparr>"

definition ex_NewSnapshot :: "string \<Rightarrow> resources \<Rightarrow> (string \<times> resources) \<times> go_error option" where
  "ex_NewSnapshot version res = ((version, res), None)"

lemma ex_snapshot_ok:
  "marshals (\<lambda>_. None)" "\<not> bad_snapshot ex_snapshot"
  "\<forall>s \<in> set (Services ex_snapshot). families_match (Obj s)"
  "\<forall>s \<in> set (Services ex_snapshot). distinct_target_ports (Obj s)"
  "distinct_services (Services ex_snapshot)"
  by (simp_all add: marshals_def bad_snapshot_def ex_snapshot_def has_bad_endpoint_def
      families_match_def ipStringToIpFamily_def strings_Contains_char_def distinct_target_ports_def
      tcp_ports_def distinct_services_def well_named_def bar_free_def ex_defs)

text \<open>
  C5. The resources of a snapshot: the clusters and listeners of all TCP ports of all services,
  in their order. When every cluster IP belongs to an IP family of its service, every listener
  of a port that does not speak Redis sends its traffic to exactly one cluster, a cluster of its
  service that is part of the same snapshot; the listeners of a Redis port have no target at
  all. The messages can be marshalled and no endpoint has an empty list of addresses.
\<close>

theorem EnvoySnapshot_targets_resolved:
  assumes "marshals marshal" "\<not> bad_snapshot snap"
    and "\<forall>s \<in> set (Services snap). families_match (Obj s)"
  shows "\<exists>res. EnvoySnapshotFromKubeSnapshot marshal ords NewSnapshot version snap =
      Inr (NewSnapshot version res) \<and>
    res_clusters res = concat (map (\<lambda>s. service_clusters (Obj s)) (Services snap)) \<and>
    map listener_view (res_listeners res) =
      concat (map (\<lambda>s. service_listeners (Obj s)) (Services snap)) \<and>
    targets_resolved (Services snap) res"
proof -
  obtain res where res: "mapServices marshal ords snap = Inr res"
    "resources_of 0 ords (Services snap) res"
    using mapServices_result [OF assms(1,2)] by blast
  then show ?thesis
    using resources_targets_resolved [OF res(2) assms(3)]
    by (auto simp: EnvoySnapshotFromKubeSnapshot_def resources_of_def)
qed

text \<open>A service with an HTTP port and a Redis port.\<close>

definition ex_redis_snapshot :: snap_Snapshot where
  "ex_redis_snapshot = \<lparr>Services = [\<lparr>Obj = ex_service\<lparr>Spec := Spec ex_service\<lparr>Ports :=
       [ex_port, ex_port\<lparr>port_Name := ''redis'', port_Port := 6379\<rparr>]\<rparr>\<rparr>, EndpointSlices = [ex_slice]\<rparr>]\<rparr>"

lemma ex_redis_snapshot_ok:
  "marshals (\<lambda>_. None)" "\<not> bad_snapshot ex_redis_snapshot"
  "\<forall>s \<in> set (Services ex_redis_snapshot). families_match (Obj s)"
  by (simp_all add: marshals_def bad_snapshot_def ex_redis_snapshot_def has_bad_endpoint_def
      families_match_def ipStringToIpFamily_def strings_Contains_char_def ex_defs)

theorem EnvoySnapshot_targets_resolved_witness:
  "\<exists>res. EnvoySnapshotFromKubeSnapshot (\<lambda>_. None) (\<lambda>_. ex_ep_orders) ex_NewSnapshot ''v1'' ex_redis_snapshot =
      Inr (ex_NewSnapshot ''v1'' res) \<and>
    res_clusters res = concat (map (\<lambda>s. service_clusters (Obj s)) (Services ex_redis_snapshot)) \<and>
    map listener_view (res_listeners res) =
      concat (map (\<lambda>s. service_listeners (Obj s)) (Services ex_redis_snapshot)) \<and>
    targets_resolved (Services ex_redis_snapshot) res"
  by (rule EnvoySnapshot_targets_resolved) (rule ex_redis_snapshot_ok)+

text \<open>
  C15. Cluster names identify clusters: when the services have different names, names without a
  bar, and the TCP ports of a service have different numeric target ports, no two clusters of
  a snapshot have the same name.
\<close>

theorem EnvoySnapshot_cluster_names_distinct:
  assumes "marshals marshal" "\<not> bad_snapshot snap" "distinct_services (Services snap)"
    and "\<forall>s \<in> set (Services snap). distinct_target_ports (Obj s)"
  shows "\<exists>res. EnvoySnapshotFromKubeSnapshot marshal ords NewSnapshot version snap =
      Inr (NewSnapshot version res) \<and> distinct (map cluster_Name (res_clusters res))"
proof -
  obtain res where res: "mapServices marshal ords snap = Inr res"
    "resources_of 0 ords (Services snap) res"
    using mapServices_result [OF assms(1,2)] by blast
  moreover have "distinct (map cluster_Name (res_clusters res))"
    using res(2) snapshot_clusters_distinct [of "Services snap"] assms(3,4)
    by (auto simp: resources_of_def distinct_services_def)
  ultimately show ?thesis by (auto simp: EnvoySnapshotFromKubeSnapshot_def)
qed

theorem EnvoySnapshot_cluster_names_distinct_witness:
  "\<exists>res. EnvoySnapshotFromKubeSnapshot (\<lambda>_. None) (\<lambda>_. ex_ep_orders) ex_NewSnapshot ''v1'' ex_snapshot =
      Inr (ex_NewSnapshot ''v1'' res) \<and> distinct (map cluster_Name (res_clusters res))"
  by (rule EnvoySnapshot_cluster_names_distinct) (rule ex_snapshot_ok)+

text \<open>
  Two TCP ports of a service with the same target port number give two clusters of the same
  name; so do all ports whose target port is a name, because its number is zero.
\<close>

theorem same_target_port_duplicates_cluster:
  assumes "marshals marshal" "\<not> bad_snapshot snap" "s \<in> set (Services snap)"
    and "tcp_ports (Obj s) = xs @ p # ys @ q # zs" "IntVal (TargetPort p) = IntVal (TargetPort q)"
    and "IPFamilies (Spec (Obj s)) \<noteq> []"
  shows "\<exists>res. EnvoySnapshotFromKubeSnapshot marshal ords NewSnapshot version snap =
      Inr (NewSnapshot version res) \<and> \<not> distinct (map cluster_Name (res_clusters res))"
proof -
  obtain res where res: "mapServices marshal ords snap = Inr res"
    "resources_of 0 ords (Services snap) res"
    using mapServices_result [OF assms(1,2)] by blast
  obtain before after where "Services snap = before @ s # after"
    using assms(3) by (meson split_list)
  moreover have "\<not> distinct (map cluster_Name (service_clusters (Obj s)))"
    using assms(5,6)
    by (cases "IPFamilies (Spec (Obj s))")
      (simp_all add: map_cluster_name_service assms(4) cluster_name_of_def)
  ultimately have "\<not> distinct (map cluster_Name (res_clusters res))"
    using res(2) by (auto simp: resources_of_def)
  with res(1) show ?thesis by (auto simp: EnvoySnapshotFromKubeSnapshot_def)
qed

definition ex_two_ports :: snap_Snapshot where
  "ex_two_ports = \<lparr>Services = [\<lparr>Obj = ex_service\<lparr>Spec := Spec ex_service\<lparr>Ports :=
       [ex_port, ex_port\<lparr>port_Name := ''alt'', port_Port := 81\<rparr>]\<rparr>\<rparr>, EndpointSlices = [ex_slice]\<rparr>]\<rparr>"

theorem same_target_port_duplicates_cluster_witness:
  "\<exists>res. EnvoySnapshotFromKubeSnapshot (\<lambda>_. None) (\<lambda>_. ex_ep_orders) ex_NewSnapshot ''v1'' ex_two_ports =
      Inr (ex_NewSnapshot ''v1'' res) \<and> \<not> distinct (map cluster_Name (res_clusters res))"
  by (rule same_target_port_duplicates_cluster [where s = "hd (Services ex_two_ports)"
        and xs = "[]" and ys = "[]" and zs = "[]" and p = ex_port
        and q = "ex_port\<lparr>port_Name := ''alt'', port_Port := 81\<rparr>"])
    (simp_all add: ex_two_ports_def marshals_def bad_snapshot_def has_bad_endpoint_def tcp_ports_def
      ex_defs)

text \<open>
  Endpoints reach their clusters: an endpoint whose port is the numeric target port of a TCP
  port of its service, in an IP family of the service, is listed in the load assignment of the
  cluster that the listeners of this port send their traffic to, in its own locality.
\<close>

theorem EnvoySnapshot_serves_endpoints:
  assumes "marshals marshal" "\<not> bad_snapshot snap" "\<forall>i. valid_orders (ords i)"
    and "s \<in> set (Services snap)" "port \<in> set (tcp_ports (Obj s))"
    and "extractEndpointMetaAndState (EndpointSlices s) = Inr metas" "ms \<in> set metas"
    and "em_ipFamily (fst ms) \<in> set (IPFamilies (Spec (Obj s)))"
    and "em_port (fst ms) = IntVal (TargetPort port)"
  shows "\<exists>res. EnvoySnapshotFromKubeSnapshot marshal ords NewSnapshot version snap =
      Inr (NewSnapshot version res) \<and>
    cluster_name_of (Obj s) port (em_ipFamily (fst ms)) \<in> cluster_Name ` set (res_clusters res) \<and>
    serves res (cluster_name_of (Obj s) port (em_ipFamily (fst ms))) ms"
proof -
  obtain res where res: "mapServices marshal ords snap = Inr res"
    "resources_of 0 ords (Services snap) res"
    using mapServices_result [OF assms(1,2)] by blast
  have "serves res (metaClusterName (Obj s) (fst ms)) ms"
    by (rule resources_serve [OF res(2) assms(3,4,6,7)])
  moreover have "cluster_name_of (Obj s) port (em_ipFamily (fst ms)) \<in>
      cluster_Name ` set (service_clusters (Obj s))"
    unfolding service_cluster_names using assms(5,8) by blast
  then have "cluster_name_of (Obj s) port (em_ipFamily (fst ms)) \<in> cluster_Name ` set (res_clusters res)"
    using res(2) assms(4) by (auto simp: resources_of_def)
  ultimately show ?thesis
    using res(1) assms(9)
    by (auto simp: EnvoySnapshotFromKubeSnapshot_def metaClusterName_def cluster_name_of_def)
qed

theorem EnvoySnapshot_serves_endpoints_witness:
  "\<exists>res. EnvoySnapshotFromKubeSnapshot (\<lambda>_. None) (\<lambda>_. ex_ep_orders) ex_NewSnapshot ''v1'' ex_snapshot =
      Inr (ex_NewSnapshot ''v1'' res) \<and>
    cluster_name_of (Obj (hd (Services ex_snapshot))) ex_port (em_ipFamily (fst (hd ex_metas))) \<in>
      cluster_Name ` set (res_clusters res) \<and>
    serves res (cluster_name_of (Obj (hd (Services ex_snapshot))) ex_port
      (em_ipFamily (fst (hd ex_metas)))) (hd ex_metas)"
  by (rule EnvoySnapshot_serves_endpoints [where metas = ex_metas])
    (simp_all add: ex_snapshot_ok, simp_all add: ex_snapshot_def ex_metas,
      simp_all add: ex_metas_def tcp_ports_def ex_defs)

text \<open>
  C16. For every port and every IP family of a service in a snapshot of well-named services with
  different names: the cluster of this port and family has a load assignment exactly when a
  slice of the service, of this family, has an endpoint and a port with the number of the target
  port. A target port given by its name has the number zero here, and only a slice port without
  a number, or with number zero, has that, too: otherwise its cluster has no endpoint.
\<close>

theorem EnvoySnapshot_assignment_iff:
  assumes "marshals marshal" "\<not> bad_snapshot snap" "\<forall>i. valid_orders (ords i)"
    and "distinct_services (Services snap)" "s \<in> set (Services snap)"
    and "f \<in> set (IPFamilies (Spec (Obj s)))"
  shows "\<exists>res. EnvoySnapshotFromKubeSnapshot marshal ords NewSnapshot version snap =
      Inr (NewSnapshot version res) \<and>
    (cluster_name_of (Obj s) port f \<in> cla_ClusterName ` set (res_endpoints res) \<longleftrightarrow>
      has_endpoint_for f (IntVal (TargetPort port)) (EndpointSlices s))"
proof -
  obtain res where res: "mapServices marshal ords snap = Inr res"
    "resources_of 0 ords (Services snap) res"
    using mapServices_result [OF assms(1,2)] by blast
  obtain metas where metas: "extractEndpointMetaAndState (EndpointSlices s) = Inr metas"
    using assms(2,5) by (auto simp: extract_eq bad_snapshot_def)
  have "EnvoySnapshotFromKubeSnapshot marshal ords NewSnapshot version snap =
      Inr (NewSnapshot version res)"
    using res(1) by (simp add: EnvoySnapshotFromKubeSnapshot_def)
  then show ?thesis
    using resources_assignment_iff [OF res(2) assms(3-5) metas assms(6)]
    unfolding extract_has_endpoint [OF metas] by blast
qed

definition ex_named_port :: ServicePort where
  "ex_named_port = ex_port\<lparr>TargetPort := \<lparr>IntVal = 0, StrVal = ''http''\<rparr>\<rparr>"

theorem EnvoySnapshot_assignment_iff_witness:
  "\<exists>res. EnvoySnapshotFromKubeSnapshot (\<lambda>_. None) (\<lambda>_. ex_ep_orders) ex_NewSnapshot ''v1'' ex_snapshot =
      Inr (ex_NewSnapshot ''v1'' res) \<and>
    cluster_name_of ex_service ex_named_port ''IPv4'' \<notin> cla_ClusterName ` set (res_endpoints res)"
proof -
  let ?s = "\<lparr>Obj = ex_service, EndpointSlices = [ex_slice]\<rparr>"
  have s: "?s \<in> set (Services ex_snapshot)" "''IPv4'' \<in> set (IPFamilies (Spec (Obj ?s)))"
    by (simp_all add: ex_snapshot_def ex_service_def)
  have "\<not> has_endpoint_for ''IPv4'' (IntVal (TargetPort ex_named_port)) (EndpointSlices ?s)"
    by (simp add: has_endpoint_for_def ex_named_port_def ex_slice_def pointer_Deref_def)
  moreover have "\<forall>i::nat. valid_orders ((\<lambda>_. ex_ep_orders) i)" by simp
  note EnvoySnapshot_assignment_iff [OF ex_snapshot_ok(1,2) this ex_snapshot_ok(5) s]
  ultimately show ?thesis by simp blast
qed

text \<open>
  A panic in the mapping of a snapshot: it comes from an endpoint without addresses in a slice
  with a port, and from nothing else.
\<close>

theorem EnvoySnapshot_panics_iff:
  assumes "marshals marshal"
  shows "EnvoySnapshotFromKubeSnapshot marshal ords NewSnapshot version snap = Inl p \<longleftrightarrow>
    p = IndexOutOfRange \<and> bad_snapshot snap"
proof (cases "bad_snapshot snap")
  case True
  then show ?thesis
    using mapServices_loop_panics [OF assms, of "Services snap" ords 0 no_resources]
    by (auto simp: EnvoySnapshotFromKubeSnapshot_def mapServices_def bad_snapshot_def)
next
  case False
  then obtain res where "mapServices marshal ords snap = Inr res"
    using mapServices_result [OF assms] by blast
  with False show ?thesis by (simp add: EnvoySnapshotFromKubeSnapshot_def)
qed

definition ex_bad_snapshot :: snap_Snapshot where
  "ex_bad_snapshot = \<lparr>Services = [\<lparr>Obj = ex_service, EndpointSlices =
     [ex_slice\<lparr>Endpoints := [ex_endpoint\<lparr>Addresses := []\<rparr>]\<rparr>]\<rparr>]\<rparr>"

theorem EnvoySnapshot_panics_iff_witness:
  "EnvoySnapshotFromKubeSnapshot (\<lambda>_. None) (\<lambda>_. ex_ep_orders) ex_NewSnapshot ''v1'' ex_bad_snapshot =
     Inl IndexOutOfRange"
  by (subst EnvoySnapshot_panics_iff)
    (simp_all add: marshals_def bad_snapshot_def ex_bad_snapshot_def has_bad_endpoint_def ex_slice_def)

text \<open>
  C28. Ports of other protocols are ignored: the Envoy snapshot does not change when they are
  removed from all services.
\<close>

theorem EnvoySnapshot_ignores_other_protocols:
  "EnvoySnapshotFromKubeSnapshot marshal ords NewSnapshot version
     \<lparr>Services = map only_tcp (Services snap)\<rparr> =
   EnvoySnapshotFromKubeSnapshot marshal ords NewSnapshot version snap"
  by (simp add: EnvoySnapshotFromKubeSnapshot_def mapServices_def mapServices_only_tcp)

end
