(* ===== verification/State_Cache.thy ===== *)
theory State_Cache
  imports State_Service Go_Strconv
begin

text \<open>
  \<open>pkg/state/cache.go\<close>: the cache of all services. Its mutex is held for the whole of each
  method, so a method is one atomic function from the cache to the new cache and the
  returned flag. A nil pointer argument is \<^term>\<open>None\<close>.
\<close>

record clusterServiceStateCache =
  services :: "(string, serviceContainer) gomap"

definition NewClusterServiceStateCache :: clusterServiceStateCache where
  "NewClusterServiceStateCache = \<lparr>services = []\<rparr>"

definition updateService ::
    "clusterServiceStateCache \<Rightarrow> Service \<Rightarrow> clusterServiceStateCache \<times> bool" where
  "updateService c svc =
     (case gomap_get (services c) (Name svc) of
        Some existing \<Rightarrow>
          if ResourceVersion (obj existing) \<ge> ResourceVersion svc then (c, False)
          else (case serviceContainer_Update existing (Some svc) of
                  Inl err \<Rightarrow> (c, False)
                | Inr existing' \<Rightarrow>
                    (c\<lparr>services := gomap_put (Name svc) existing' (services c)\<rparr>, True))
      | None \<Rightarrow>
          (c\<lparr>services := gomap_put (Name svc) (NewServiceContainer svc) (services c)\<rparr>, True))"

definition deleteService ::
    "clusterServiceStateCache \<Rightarrow> Service \<Rightarrow> clusterServiceStateCache \<times> bool" where
  "deleteService c svc =
     (case gomap_get (services c) (Name svc) of
        Some _ \<Rightarrow> (c\<lparr>services := gomap_del (Name svc) (services c)\<rparr>, True)
      | None \<Rightarrow> (c, False))"

definition UpdateServices ::
    "clusterServiceStateCache \<Rightarrow> Service option \<Rightarrow> bool \<Rightarrow> clusterServiceStateCache \<times> bool" where
  "UpdateServices c service delete =
     (case service of
        None \<Rightarrow> (c, False)
      | Some svc \<Rightarrow> if delete then deleteService c svc else updateService c svc)"

definition UpdatEndpointSlice ::
    "clusterServiceStateCache \<Rightarrow> EndpointSlice option \<Rightarrow> bool \<Rightarrow>
     clusterServiceStateCache \<times> bool" where
  "UpdatEndpointSlice c endpointslice delete =
     (case endpointslice of
        None \<Rightarrow> (c, False)
      | Some es \<Rightarrow>
          (case gomap_get (Labels es) LabelServiceName of
             None \<Rightarrow> (c, False)
           | Some svcName \<Rightarrow>
               (case gomap_get (services c) svcName of
                  Some svc \<Rightarrow>
                    (let (svc', res) = UpdatEndpointslices svc (Some es) delete;
                         c' = c\<lparr>services := gomap_put svcName svc' (services c)\<rparr>
                     in if res \<ge> ENDPOINTSLICE_OPERATION_STATUS_DELETED then (c', True)
                        else if res = ENDPOINTSLICE_OPERATION_STATUS_NOOP then (c', False)
                        else (c', True))
                | None \<Rightarrow> (c, True))))"

text \<open>
  The orders of the four \<open>range\<close> loops behind a snapshot: over the services and over each
  service's slices, first in the deep copy and then in the snapshot of the copy.
\<close>

record snapshot_orders =
  copy_services :: range_order
  copy_slices :: "string \<Rightarrow> range_order"
  snap_services :: range_order
  snap_slices :: "string \<Rightarrow> range_order"

definition valid_snapshot_orders :: "snapshot_orders \<Rightarrow> bool" where
  "valid_snapshot_orders os \<longleftrightarrow>
     valid_order (copy_services os) \<and> (\<forall>k. valid_order (copy_slices os k)) \<and>
     valid_order (snap_services os) \<and> (\<forall>k. valid_order (snap_slices os k))"

definition cache_DeepCopy ::
    "snapshot_orders \<Rightarrow> clusterServiceStateCache \<Rightarrow> clusterServiceStateCache" where
  "cache_DeepCopy os c =
     \<lparr>services = fold (\<lambda>(k, v). gomap_put k (serviceContainer_DeepCopy (copy_slices os k) v))
        (range_map (copy_services os) (services c)) []\<rparr>"

definition cache_Snapshot :: "snapshot_orders \<Rightarrow> clusterServiceStateCache \<Rightarrow> snap_Snapshot" where
  "cache_Snapshot os orig =
     (let c = cache_DeepCopy os orig
      in \<lparr>Services = map (\<lambda>(k, svc). serviceContainer_Snapshot (snap_slices os k) svc)
            (range_map (snap_services os) (services c))\<rparr>)"

lemmas cache_defs =
  updateService_def deleteService_def UpdateServices_def UpdatEndpointSlice_def

section \<open>Invariant\<close>

text \<open>
  Containers are keyed by the names of their services and satisfy the container invariant.
\<close>

definition cache_inv :: "clusterServiceStateCache \<Rightarrow> bool" where
  "cache_inv c \<longleftrightarrow> gomap_wf (services c) \<and>
     (\<forall>(k, sc) \<in> set (services c). Name (obj sc) = k \<and> container_inv sc)"

lemma cache_inv_get:
  "cache_inv c \<Longrightarrow> gomap_get (services c) k = Some sc \<Longrightarrow> Name (obj sc) = k \<and> container_inv sc"
  by (auto simp: cache_inv_def dest: gomap_get_Some_mem)

lemma cache_inv_put:
  "cache_inv c \<Longrightarrow> Name (obj sc) = k \<Longrightarrow> container_inv sc \<Longrightarrow>
    cache_inv (c\<lparr>services := gomap_put k sc (services c)\<rparr>)"
  by (auto simp: cache_inv_def gomap_put_mem split: if_splits)

lemma cache_inv_New [inv_intros, simp]: "cache_inv NewClusterServiceStateCache"
  by (simp add: cache_inv_def NewClusterServiceStateCache_def)

lemma cache_inv_updateService [inv_intros]: "cache_inv c \<Longrightarrow> cache_inv (fst (updateService c svc))"
  by (auto simp: updateService_def serviceContainer_Update_def NewServiceContainer_def
      container_inv_def slices_inv_def
      intro!: cache_inv_put split: option.split dest: cache_inv_get)

lemma cache_inv_deleteService [inv_intros]: "cache_inv c \<Longrightarrow> cache_inv (fst (deleteService c svc))"
  by (auto simp: deleteService_def cache_inv_def gomap_del_mem split: option.split)

lemma cache_inv_UpdateServices [inv_intros]:
  "cache_inv c \<Longrightarrow> cache_inv (fst (UpdateServices c svc d))"
  by (auto simp: UpdateServices_def intro: inv_intros split: option.split)

lemma container_inv_UpdatEndpointslices [inv_intros]:
  "container_inv s \<Longrightarrow> container_inv (fst (UpdatEndpointslices s es d))"
  by (auto simp: container_inv_def slices_inv_def UpdatEndpointslices_def updateEndpointSlice_def
      deleteEndpointSlice_def gomap_put_mem gomap_del_mem split: option.splits if_splits)

lemma UpdatEndpointSlice_cases:
  obtains (rejected) "UpdatEndpointSlice c es d = (c, False)"
  | (unregistered) "UpdatEndpointSlice c es d = (c, True)"
  | (routed) e n sc where "es = Some e" "gomap_get (Labels e) LabelServiceName = Some n"
      "gomap_get (services c) n = Some sc"
      "UpdatEndpointSlice c es d =
         (c\<lparr>services := gomap_put n (fst (UpdatEndpointslices sc (Some e) d)) (services c)\<rparr>,
          snd (UpdatEndpointslices sc (Some e) d) \<noteq> ENDPOINTSLICE_OPERATION_STATUS_NOOP)"
proof (cases "es")
  case None
  then show ?thesis using that(1) by (simp add: UpdatEndpointSlice_def)
next
  case (Some e)
  show ?thesis
  proof (cases "gomap_get (Labels e) LabelServiceName")
    case None
    with Some show ?thesis using that(1) by (simp add: UpdatEndpointSlice_def)
  next
    case n: (Some n)
    show ?thesis
    proof (cases "gomap_get (services c) n")
      case None
      with Some n show ?thesis using that(2) by (simp add: UpdatEndpointSlice_def)
    next
      case sc: (Some sc)
      with Some n show ?thesis
        by (intro that(3) [of e n sc])
          (auto simp: UpdatEndpointSlice_def Let_def split_beta
            less_eq_EndpointSliceOperationStatus_def)
    qed
  qed
qed

lemma cache_inv_UpdatEndpointSlice [inv_intros]:
  assumes "cache_inv c"
  shows "cache_inv (fst (UpdatEndpointSlice c es d))"
proof (cases rule: UpdatEndpointSlice_cases [of c es d])
  case rejected
  with assms show ?thesis by simp
next
  case unregistered
  with assms show ?thesis by simp
next
  case (routed e n sc)
  from cache_inv_get [OF assms routed(3)] have "Name (obj sc) = n" "container_inv sc"
    by simp_all
  with assms have "cache_inv
      (c\<lparr>services := gomap_put n (fst (UpdatEndpointslices sc (Some e) d)) (services c)\<rparr>)"
    by (intro cache_inv_put) (simp_all add: container_inv_UpdatEndpointslices)
  with routed(4) show ?thesis by simp
qed

section \<open>Abstract view and refinement\<close>

text \<open>
  What the cache promises, free of containers, statuses and association lists: for each
  service name the newest service object and its newest endpoint slices by name.
\<close>

type_synonym cluster_view = "string \<Rightarrow> (Service \<times> (string \<Rightarrow> EndpointSlice option)) option"

definition cache_view :: "clusterServiceStateCache \<Rightarrow> cluster_view" where
  "cache_view c k =
     map_option (\<lambda>sc. (obj sc, gomap_get (endpointSlices sc))) (gomap_get (services c) k)"

definition view_put_service :: "Service \<Rightarrow> cluster_view \<Rightarrow> cluster_view" where
  "view_put_service svc v =
     (case v (Name svc) of
        None \<Rightarrow> v(Name svc \<mapsto> (svc, Map.empty))
      | Some (old, slices) \<Rightarrow>
          if ResourceVersion old < ResourceVersion svc then v(Name svc \<mapsto> (svc, slices)) else v)"

definition view_put_slice :: "string \<Rightarrow> EndpointSlice \<Rightarrow> cluster_view \<Rightarrow> cluster_view" where
  "view_put_slice n es v =
     (case v n of
        None \<Rightarrow> v
      | Some (svc, slices) \<Rightarrow>
          if (\<forall>old. slices (Name es) = Some old \<longrightarrow> ResourceVersion old < ResourceVersion es)
          then v(n \<mapsto> (svc, slices(Name es \<mapsto> es))) else v)"

definition view_del_slice :: "string \<Rightarrow> EndpointSlice \<Rightarrow> cluster_view \<Rightarrow> cluster_view" where
  "view_del_slice n es v =
     (case v n of
        None \<Rightarrow> v
      | Some (svc, slices) \<Rightarrow> v(n \<mapsto> (svc, slices(Name es := None))))"

definition view_UpdateServices :: "Service option \<Rightarrow> bool \<Rightarrow> cluster_view \<Rightarrow> cluster_view" where
  "view_UpdateServices service delete v =
     (case service of
        None \<Rightarrow> v
      | Some svc \<Rightarrow> if delete then v(Name svc := None) else view_put_service svc v)"

definition view_UpdatEndpointSlice ::
    "EndpointSlice option \<Rightarrow> bool \<Rightarrow> cluster_view \<Rightarrow> cluster_view" where
  "view_UpdatEndpointSlice endpointslice delete v =
     (case endpointslice of
        None \<Rightarrow> v
      | Some es \<Rightarrow>
          (case gomap_get (Labels es) LabelServiceName of
             None \<Rightarrow> v
           | Some n \<Rightarrow> if delete then view_del_slice n es v else view_put_slice n es v))"

lemma cache_view_New [simp]: "cache_view NewClusterServiceStateCache = Map.empty"
  by (rule ext) (simp add: cache_view_def NewClusterServiceStateCache_def)

lemma cache_view_put [simp]:
  "cache_view (c\<lparr>services := gomap_put k sc (services c)\<rparr>) =
     (cache_view c)(k \<mapsto> (obj sc, gomap_get (endpointSlices sc)))"
  by (rule ext) (simp add: cache_view_def)

lemma cache_view_del [simp]:
  "cache_view (c\<lparr>services := gomap_del k (services c)\<rparr>) = (cache_view c)(k := None)"
  by (rule ext) (simp add: cache_view_def)

lemma cache_view_get: "gomap_get (services c) k = Some sc \<Longrightarrow>
    cache_view c k = Some (obj sc, gomap_get (endpointSlices sc))"
  by (simp add: cache_view_def)

lemma cache_view_get_None: "gomap_get (services c) k = None \<Longrightarrow> cache_view c k = None"
  by (simp add: cache_view_def)

lemma cache_view_updateService: "cache_view (fst (updateService c svc)) =
    view_put_service svc (cache_view c)"
  by (auto simp: updateService_def view_put_service_def cache_view_get cache_view_get_None
      serviceContainer_Update_def NewServiceContainer_def not_le fun_eq_iff
      split: option.split)

lemma cache_view_deleteService: "cache_view (fst (deleteService c svc)) =
    (cache_view c)(Name svc := None)"
  by (auto simp: deleteService_def cache_view_get_None split: option.split)

lemma cache_view_UpdateServices: "cache_view (fst (UpdateServices c svc d)) =
    view_UpdateServices svc d (cache_view c)"
  by (auto simp: UpdateServices_def view_UpdateServices_def cache_view_updateService
      cache_view_deleteService split: option.split)

text \<open>Inside the cache the label check of a container never fails: it is found by the label.\<close>

lemma routed_status:
  assumes "cache_inv c" "gomap_get (Labels e) LabelServiceName = Some n"
    "gomap_get (services c) n = Some sc"
  shows "UpdatEndpointslices sc (Some e) d =
    (if d then deleteEndpointSlice sc e else updateEndpointSlice sc e)"
  using assms cache_inv_get [OF assms(1,3)] by (simp add: UpdatEndpointslices_def)

lemma gomap_get_put_fun: "gomap_get (gomap_put k v m) = (gomap_get m)(k \<mapsto> v)"
  by (rule ext) simp

lemma gomap_get_del_fun: "gomap_get (gomap_del k m) = (gomap_get m)(k := None)"
  by (rule ext) simp

lemma cache_view_UpdatEndpointSlice:
  assumes "cache_inv c"
  shows "cache_view (fst (UpdatEndpointSlice c es d)) =
    view_UpdatEndpointSlice es d (cache_view c)"
proof (cases es)
  case None
  then show ?thesis by (simp add: UpdatEndpointSlice_def view_UpdatEndpointSlice_def)
next
  case (Some e)
  show ?thesis
  proof (cases "gomap_get (Labels e) LabelServiceName")
    case None
    with Some show ?thesis by (simp add: UpdatEndpointSlice_def view_UpdatEndpointSlice_def)
  next
    case n: (Some n)
    show ?thesis
    proof (cases "gomap_get (services c) n")
      case None
      with Some n show ?thesis
        by (simp add: UpdatEndpointSlice_def view_UpdatEndpointSlice_def view_del_slice_def
            view_put_slice_def cache_view_get_None)
    next
      case sc: (Some sc)
      have "cache_view (fst (UpdatEndpointSlice c es d)) = (cache_view c)(n \<mapsto>
          (obj sc, gomap_get (endpointSlices (fst (UpdatEndpointslices sc (Some e) d)))))"
        using Some n sc by (auto simp: UpdatEndpointSlice_def Let_def split_beta)
      then show ?thesis
        using Some n sc routed_status [OF assms n sc, of d]
        by (auto simp: view_UpdatEndpointSlice_def view_del_slice_def view_put_slice_def
            cache_view_get deleteEndpointSlice_def updateEndpointSlice_def gomap_get_put_fun
            gomap_get_del_fun not_le fun_upd_idem_iff fun_eq_iff split: option.split)
    qed
  qed
qed

section \<open>The returned flag\<close>

lemma view_changed: "cache_view c k \<noteq> cache_view c' k \<Longrightarrow> cache_view c \<noteq> cache_view c'"
  by auto

lemma updateService_flag:
  "snd (updateService c svc) \<longleftrightarrow> cache_view (fst (updateService c svc)) \<noteq> cache_view c"
proof (cases "snd (updateService c svc)")
  case False
  then have "fst (updateService c svc) = c"
    by (auto simp: updateService_def serviceContainer_Update_def split: option.splits if_splits)
  with False show ?thesis by simp
next
  case True
  then have "cache_view (fst (updateService c svc)) (Name svc) \<noteq> cache_view c (Name svc)"
    by (auto simp: updateService_def serviceContainer_Update_def NewServiceContainer_def
        cache_view_get cache_view_get_None split: option.splits if_splits)
  with True view_changed show ?thesis by blast
qed

lemma deleteService_flag:
  "snd (deleteService c svc) \<longleftrightarrow> cache_view (fst (deleteService c svc)) \<noteq> cache_view c"
proof (cases "gomap_get (services c) (Name svc)")
  case None
  then show ?thesis by (simp add: deleteService_def)
next
  case (Some sc)
  then have "cache_view (fst (deleteService c svc)) (Name svc) \<noteq> cache_view c (Name svc)"
    by (simp add: deleteService_def cache_view_get)
  then have "cache_view (fst (deleteService c svc)) \<noteq> cache_view c" by (rule view_changed)
  with Some show ?thesis by (simp add: deleteService_def)
qed

lemma UpdateServices_flag_iff:
  "snd (UpdateServices c svc d) \<longleftrightarrow> cache_view (fst (UpdateServices c svc d)) \<noteq> cache_view c"
  by (cases svc) (simp_all add: UpdateServices_def updateService_flag deleteService_flag)

lemma UpdatEndpointSlice_no_flag:
  assumes "\<not> snd (UpdatEndpointSlice c es d)"
  shows "cache_view (fst (UpdatEndpointSlice c es d)) = cache_view c"
proof (cases rule: UpdatEndpointSlice_cases [of c es d])
  case rejected
  then show ?thesis by simp
next
  case unregistered
  with assms show ?thesis by simp
next
  case (routed e n sc)
  obtain sc' st where u: "UpdatEndpointslices sc (Some e) d = (sc', st)" by fastforce
  with assms routed(4) have "st = ENDPOINTSLICE_OPERATION_STATUS_NOOP" by simp
  with UpdatEndpointslices_unchanged [OF u] have "fst (UpdatEndpointslices sc (Some e) d) = sc"
    by (simp add: u)
  with routed show ?thesis
    by (simp add: cache_view_get fun_upd_idem)
qed

section \<open>The cache as a versioned store of services\<close>

definition cached_service :: "clusterServiceStateCache \<Rightarrow> string \<Rightarrow> Service option" where
  "cached_service c k = map_option obj (gomap_get (services c) k)"

interpretation svcs: versioned_store
  cached_service "\<lambda>svc c. fst (updateService c svc)" Name ResourceVersion cache_inv
proof
  fix c :: clusterServiceStateCache and svc :: Service and k
  assume inv: "cache_inv c"
  show "cache_inv (fst (updateService c svc))"
    using inv by (rule cache_inv_updateService)
  show "cached_service (fst (updateService c svc)) k =
      (if k = Name svc \<and> (\<forall>y. cached_service c k = Some y \<longrightarrow>
           ResourceVersion y < ResourceVersion svc)
       then Some svc else cached_service c k)"
    by (auto simp: cached_service_def updateService_def serviceContainer_Update_def
        NewServiceContainer_def not_le split: option.split)
  show "cached_service c k = Some x \<Longrightarrow> Name x = k" for x
    using inv by (auto simp: cached_service_def dest: cache_inv_get)
qed

section \<open>Snapshots\<close>

lemma fold_put_map:
  "fold (\<lambda>(k, v). gomap_put k (f k v)) kvs m =
     fold (\<lambda>(k, v). gomap_put k v) (map (\<lambda>(k, v). (k, f k v)) kvs) m"
  by (induction kvs arbitrary: m) auto

lemma mset_fold_put_map:
  assumes "gomap_wf kvs"
  shows "mset (fold (\<lambda>(k, v). gomap_put k (f k v)) kvs []) = mset (map (\<lambda>(k, v). (k, f k v)) kvs)"
proof -
  have wf: "gomap_wf (map (\<lambda>(k, v). (k, f k v)) kvs)"
    using assms by (simp add: gomap_wf_def split_beta comp_def)
  have "fold (\<lambda>(k, v). gomap_put k (f k v)) kvs [] =
      fold (\<lambda>(k, v). gomap_put k v) (range_map in_order (map (\<lambda>(k, v). (k, f k v)) kvs)) []"
    by (subst fold_put_map) simp
  with rebuild_map_mset [OF valid_in_order wf] show ?thesis by simp
qed

lemma wf_fold_put_map: "gomap_wf m \<Longrightarrow> gomap_wf (fold (\<lambda>(k, v). gomap_put k (f k v)) kvs m)"
  by (subst fold_put_map) (rule gm.wf_fold_put)

lemma DeepCopy_container:
  assumes "valid_order ord" "container_inv sc"
  shows "obj (serviceContainer_DeepCopy ord sc) = obj sc"
    and "mset (endpointSlices (serviceContainer_DeepCopy ord sc)) = mset (endpointSlices sc)"
  using rebuild_map_mset [OF assms(1) container_inv_wf [OF assms(2)]]
  by (simp_all add: serviceContainer_DeepCopy_def)

lemma mset_cache_DeepCopy:
  assumes "valid_snapshot_orders os" "cache_inv c"
  shows "mset (services (cache_DeepCopy os c)) =
    mset (map (\<lambda>(k, sc). (k, serviceContainer_DeepCopy (copy_slices os k) sc)) (services c))"
proof -
  have wf: "gomap_wf (range_map (copy_services os) (services c))"
    using assms by (auto simp: valid_snapshot_orders_def cache_inv_def intro: range_map_wf)
  have "mset (services (cache_DeepCopy os c)) =
      mset (map (\<lambda>(k, sc). (k, serviceContainer_DeepCopy (copy_slices os k) sc))
        (range_map (copy_services os) (services c)))"
    using mset_fold_put_map [OF wf] by (simp add: cache_DeepCopy_def)
  also have "\<dots> = image_mset (\<lambda>(k, sc). (k, serviceContainer_DeepCopy (copy_slices os k) sc))
      (mset (services c))"
    using assms(1) by (simp add: mset_range_map valid_snapshot_orders_def)
  finally show ?thesis by simp
qed

definition snap_contents :: "snap_Service \<Rightarrow> Service \<times> EndpointSlice multiset" where
  "snap_contents s = (Obj s, mset (EndpointSlices s))"

definition container_contents :: "serviceContainer \<Rightarrow> Service \<times> EndpointSlice multiset" where
  "container_contents sc = (obj sc, mset (map snd (endpointSlices sc)))"

lemma snap_contents_container:
  "valid_order ord \<Longrightarrow> snap_contents (serviceContainer_Snapshot ord sc) = container_contents sc"
  by (simp add: snap_contents_def container_contents_def serviceContainer_Snapshot_def
      mset_range_map)

lemma container_contents_DeepCopy:
  "valid_order ord \<Longrightarrow> container_inv sc \<Longrightarrow>
    container_contents (serviceContainer_DeepCopy ord sc) = container_contents sc"
  by (simp add: container_contents_def DeepCopy_container)

lemma snapshot_contents:
  assumes os: "valid_snapshot_orders os" and inv: "cache_inv c"
  shows "image_mset snap_contents (mset (Services (cache_Snapshot os c))) =
    image_mset container_contents (mset (map snd (services c)))"
proof -
  let ?copy = "services (cache_DeepCopy os c)"
  have "image_mset snap_contents (mset (Services (cache_Snapshot os c))) =
      image_mset (\<lambda>x. container_contents (snd x)) (mset ?copy)"
    using os by (simp add: cache_Snapshot_def Let_def image_mset.compositionality comp_def
        split_beta snap_contents_container valid_snapshot_orders_def mset_range_map)
  also have "\<dots> = image_mset (\<lambda>x. container_contents
      (serviceContainer_DeepCopy (copy_slices os (fst x)) (snd x))) (mset (services c))"
    by (simp add: mset_cache_DeepCopy [OF os inv] image_mset.compositionality comp_def split_beta)
  also have "\<dots> = image_mset (\<lambda>x. container_contents (snd x)) (mset (services c))"
    by (rule image_mset_cong)
      (use os inv in \<open>auto simp: valid_snapshot_orders_def cache_inv_def container_contents_DeepCopy\<close>)
  finally show ?thesis
    by (simp add: image_mset.compositionality comp_def)
qed

text \<open>The contents of a cache are determined by its abstract view.\<close>

lemma container_contents_cong:
  assumes "container_inv sc" "container_inv sc'" "obj sc = obj sc'"
    and "gomap_get (endpointSlices sc) = gomap_get (endpointSlices sc')"
  shows "container_contents sc = container_contents sc'"
proof -
  have "mset (endpointSlices sc) = mset (endpointSlices sc')"
    using assms by (intro gomap_ext_mset container_inv_wf) (auto simp: fun_eq_iff)
  then show ?thesis using assms(3) by (simp add: container_contents_def)
qed

lemma cache_contents_cong:
  assumes "cache_inv c" "cache_inv c'" "cache_view c = cache_view c'"
  shows "image_mset container_contents (mset (map snd (services c))) =
    image_mset container_contents (mset (map snd (services c')))"
proof -
  let ?f = "\<lambda>(k, sc). (k, container_contents sc)"
  have get: "gomap_get (map ?f m) k = map_option container_contents (gomap_get m k)"
    for m :: "(string, serviceContainer) gomap" and k
    by (simp add: gomap_get_def map_of_map)
  have "gomap_get (map ?f (services c)) k = gomap_get (map ?f (services c')) k" for k
    using fun_cong [OF assms(3), of k] assms(1,2)
    by (auto simp: get cache_view_def map_option_case split: option.splits
        intro!: container_contents_cong dest: cache_inv_get)
  moreover have "gomap_wf (map ?f (services c))" "gomap_wf (map ?f (services c'))"
    using assms by (simp_all add: cache_inv_def gomap_wf_def split_beta comp_def)
  ultimately have "mset (map ?f (services c)) = mset (map ?f (services c'))"
    by (intro gomap_ext_mset)
  then have "image_mset snd (mset (map ?f (services c))) =
      image_mset snd (mset (map ?f (services c')))"
    by (rule arg_cong)
  then show ?thesis
    by (simp add: image_mset.compositionality comp_def split_beta)
qed

section \<open>Properties\<close>

text \<open>
  C13. A snapshot lists every cached service exactly once, with exactly its cached endpoint
  slices, whatever the iteration orders of the four loops over Go maps.
\<close>

theorem cache_Snapshot_complete:
  assumes "valid_snapshot_orders os" "cache_inv c"
  shows "image_mset snap_contents (mset (Services (cache_Snapshot os c))) =
    image_mset container_contents (mset (map snd (services c)))"
  using assms by (rule snapshot_contents)

definition ex_orders :: snapshot_orders where
  "ex_orders = \<lparr>copy_services = rev_order, copy_slices = (\<lambda>_. in_order),
     snap_services = in_order, snap_slices = (\<lambda>_. rev_order)\<rparr>"

definition ex_cache :: clusterServiceStateCache where
  "ex_cache = fst (UpdatEndpointSlice
     (fst (UpdateServices NewClusterServiceStateCache (Some ex_service) False)) (Some ex_slice) False)"

lemma valid_ex_orders: "valid_snapshot_orders ex_orders"
  by (simp add: valid_snapshot_orders_def ex_orders_def)

lemma cache_inv_ex_cache: "cache_inv ex_cache"
  unfolding ex_cache_def by (intro cache_inv_UpdatEndpointSlice cache_inv_UpdateServices) simp

lemma ex_cache_services: "services ex_cache =
    [(''whoami'', \<lparr>obj = ex_service, opts = ServiceOpts,
        endpointSlices = [(''whoami-x7'', ex_slice)]\<rparr>)]"
  by (simp add: ex_cache_def cache_defs container_defs NewClusterServiceStateCache_def ex_defs
      gomap_get_def gomap_put_def less_eq_EndpointSliceOperationStatus_def)

theorem cache_Snapshot_complete_witness:
  "image_mset snap_contents (mset (Services (cache_Snapshot ex_orders ex_cache))) =
     {#(ex_service, {#ex_slice#})#}"
  using cache_Snapshot_complete [OF valid_ex_orders cache_inv_ex_cache]
  by (simp add: ex_cache_services container_contents_def)

text \<open>
  C26. Applying a service event returns true exactly when it changed what the cache holds: no
  change goes unnoticed and no repeated delivery triggers a new snapshot.
\<close>

theorem UpdateServices_flag_exact:
  "snd (UpdateServices c svc d) \<longleftrightarrow> cache_view (fst (UpdateServices c svc d)) \<noteq> cache_view c"
  by (rule UpdateServices_flag_iff)

text \<open>
  The cached service objects depend only on which objects were delivered, not on the
  order or the number of deliveries, as long as no two different objects carry the same name
  and version.
\<close>

theorem updateService_order_independent:
  assumes "set xs = set ys"
    and "\<forall>x \<in> set xs. \<forall>y \<in> set xs.
      Name x = Name y \<longrightarrow> ResourceVersion x = ResourceVersion y \<longrightarrow> x = y"
  shows "cached_service (fold (\<lambda>svc c. fst (updateService c svc)) xs NewClusterServiceStateCache) k =
    cached_service (fold (\<lambda>svc c. fst (updateService c svc)) ys NewClusterServiceStateCache) k"
  using assms
  by (intro svcs.get_fold_unique)
    (simp_all add: svcs.unambiguous_def cached_service_def NewClusterServiceStateCache_def
      cache_inv_def)

theorem updateService_order_independent_witness:
  "cached_service (fold (\<lambda>svc c. fst (updateService c svc))
      [ex_service, ex_service\<lparr>ResourceVersion := ''6''\<rparr>] NewClusterServiceStateCache) ''whoami'' =
   cached_service (fold (\<lambda>svc c. fst (updateService c svc))
      [ex_service\<lparr>ResourceVersion := ''6''\<rparr>, ex_service, ex_service] NewClusterServiceStateCache)
      ''whoami''"
  by (rule updateService_order_independent) (auto simp: ex_service_def)

text \<open>
  A delivered service is never replaced by an older one: after any batch of updates the
  version cached under a name is at least the one cached before.
\<close>

theorem updateService_versions_monotone:
  assumes "cache_inv c" "cached_service c k = Some x"
  shows "\<exists>y. cached_service (fold (\<lambda>svc c. fst (updateService c svc)) zs c) k = Some y \<and>
    ResourceVersion x \<le> ResourceVersion y"
  using assms by (rule svcs.version_mono_fold)

theorem updateService_versions_monotone_witness:
  "\<exists>y. cached_service (fold (\<lambda>svc c. fst (updateService c svc))
      [ex_service\<lparr>ResourceVersion := ''3''\<rparr>] ex_cache) ''whoami'' = Some y \<and>
    ''5'' \<le> ResourceVersion y"
proof -
  have "cached_service ex_cache ''whoami'' = Some ex_service"
    by (simp add: cached_service_def ex_cache_services gomap_get_def)
  moreover have "ResourceVersion ex_service = ''5''" by (simp add: ex_service_def)
  ultimately show ?thesis
    using updateService_versions_monotone [OF cache_inv_ex_cache, of "''whoami''" ex_service]
    by metis
qed

text \<open>
  For decimal resource versions with equally many digits, the string comparison of the
  code is the numeric one: the update is taken exactly when its number is greater.
\<close>

theorem updateService_decimal_versions:
  assumes "gomap_get (services c) (Name svc) = Some sc"
    and "ResourceVersion (obj sc) = fmt_nat m" "ResourceVersion svc = fmt_nat n"
    and "length (fmt_nat m) = length (fmt_nat n)"
  shows "snd (updateService c svc) \<longleftrightarrow> m < n"
  using assms fmt_nat_le_iff [of n m]
  by (simp add: updateService_def serviceContainer_Update_def not_le)

theorem updateService_decimal_versions_witness:
  "snd (updateService ex_cache (ex_service\<lparr>ResourceVersion := fmt_nat 7\<rparr>)) \<longleftrightarrow> (5::nat) < 7"
  by (rule updateService_decimal_versions [where sc = "\<lparr>obj = ex_service, opts = ServiceOpts,
        endpointSlices = [(''whoami-x7'', ex_slice)]\<rparr>"])
    (simp_all add: ex_cache_services gomap_get_def ex_service_def fmt_nat.simps digit_char_def)

text \<open>
  C36. Across a power of ten the string comparison is wrong: the version \<open>10 ^ (k + 1)\<close> that
  follows \<open>10 ^ (k + 1) - 1\<close> (10 after 9, 100 after 99, and so on) is taken for an old one
  and the update is dropped without an event.
\<close>

theorem updateService_drops_newer:
  assumes "gomap_get (services c) (Name svc) = Some sc"
    and "ResourceVersion (obj sc) = fmt_nat (10 ^ Suc k - 1)"
    and "ResourceVersion svc = fmt_nat (10 ^ Suc k)"
  shows "UpdateServices c (Some svc) False = (c, False)"
  using assms less_imp_le [OF fmt_nat_pow10_less [of k]]
  by (simp add: UpdateServices_def updateService_def)

theorem updateService_drops_newer_witness:
  "UpdateServices (fst (UpdateServices NewClusterServiceStateCache
       (Some (ex_service\<lparr>ResourceVersion := fmt_nat 9\<rparr>)) False))
     (Some (ex_service\<lparr>ResourceVersion := fmt_nat 10\<rparr>)) False =
   (fst (UpdateServices NewClusterServiceStateCache
       (Some (ex_service\<lparr>ResourceVersion := fmt_nat 9\<rparr>)) False), False)"
  by (rule updateService_drops_newer [where k = 0 and
        sc = "NewServiceContainer (ex_service\<lparr>ResourceVersion := fmt_nat 9\<rparr>)"])
    (simp_all add: UpdateServices_def updateService_def NewClusterServiceStateCache_def
      NewServiceContainer_def)

text \<open>
  C38. The cache is keyed by the service name alone, so a service evicts an older one of the
  same name from another namespace: the older one is no longer in the cache at all.
\<close>

theorem updateService_evicts_other_namespace:
  assumes "cache_inv c" "cached_service c (Name b) = Some a"
    and "Namespace a \<noteq> Namespace b" "ResourceVersion a < ResourceVersion b"
  shows "a \<notin> obj ` snd ` set (services (fst (UpdateServices c (Some b) False)))"
proof
  let ?c' = "fst (UpdateServices c (Some b) False)"
  assume "a \<in> obj ` snd ` set (services ?c')"
  then obtain k sc where mem: "(k, sc) \<in> set (services ?c')" and "a = obj sc" by auto
  have inv': "cache_inv ?c'" using assms(1) by (rule cache_inv_UpdateServices)
  have b: "cached_service ?c' (Name b) = Some b"
    using svcs.get_upd [OF assms(1), of b "Name b"] assms(2,4) by (simp add: UpdateServices_def)
  have "k = Name b"
    using mem inv' svcs.get_name [OF assms(1,2)] \<open>a = obj sc\<close> by (auto simp: cache_inv_def)
  with mem inv' have "cached_service ?c' (Name b) = Some (obj sc)"
    by (auto simp: cached_service_def cache_inv_def gomap_get_iff [symmetric])
  with b \<open>a = obj sc\<close> assms(3) show False by simp
qed

theorem updateService_evicts_other_namespace_witness:
  "ex_service \<notin> obj ` snd ` set (services (fst (UpdateServices ex_cache
      (Some (ex_service\<lparr>Namespace := ''prod'', ResourceVersion := ''7''\<rparr>)) False)))"
  by (rule updateService_evicts_other_namespace [OF cache_inv_ex_cache])
    (simp_all add: cached_service_def ex_cache_services gomap_get_def ex_service_def)

end
