(* ===== verification/Transition_System.thy ===== *)
theory Transition_System
  imports Main
begin

text \<open>
  Reachable states of a step relation and the invariant principle, stated once for the
  concurrent components.
\<close>

inductive reachable :: "('s \<Rightarrow> bool) \<Rightarrow> ('s \<Rightarrow> 's \<Rightarrow> bool) \<Rightarrow> 's \<Rightarrow> bool"
  for init :: "'s \<Rightarrow> bool" and step :: "'s \<Rightarrow> 's \<Rightarrow> bool"
where
  start: "init s \<Longrightarrow> reachable init step s"
| next_state: "reachable init step s \<Longrightarrow> step s t \<Longrightarrow> reachable init step t"

lemma reachable_steps:
  assumes "step\<^sup>*\<^sup>* s t" "reachable init step s"
  shows "reachable init step t"
  using assms by (induction rule: rtranclp_induct) (auto intro: reachable.next_state)

locale invariant_system =
  fixes init :: "'s \<Rightarrow> bool"
    and step :: "'s \<Rightarrow> 's \<Rightarrow> bool"
    and inv :: "'s \<Rightarrow> bool"
  assumes init_inv: "init s \<Longrightarrow> inv s"
    and step_inv: "inv s \<Longrightarrow> step s t \<Longrightarrow> inv t"
begin

lemma reachable_inv: "reachable init step s \<Longrightarrow> inv s"
  by (induction rule: reachable.induct) (auto intro: init_inv step_inv)

lemma steps_inv: "step\<^sup>*\<^sup>* s t \<Longrightarrow> inv s \<Longrightarrow> inv t"
  by (induction rule: rtranclp_induct) (auto intro: step_inv)

end

text \<open>
  A phase of a system in which every step decreases a measure and only goal states have no
  step: from every state of the phase all runs are finite, and they end in a goal state.
\<close>

locale terminating_phase =
  fixes step :: "'s \<Rightarrow> 's \<Rightarrow> bool"
    and phase :: "'s \<Rightarrow> bool"
    and rank :: "'s \<Rightarrow> nat"
    and goal :: "'s \<Rightarrow> bool"
  assumes phase_step: "phase s \<Longrightarrow> step s t \<Longrightarrow> phase t \<and> rank t < rank s"
    and phase_progress: "phase s \<Longrightarrow> \<not> goal s \<Longrightarrow> \<exists>t. step s t"
begin

lemma run_length: "(step ^^ n) s t \<Longrightarrow> phase s \<Longrightarrow> phase t \<and> n + rank t \<le> rank s"
proof (induction n arbitrary: t)
  case 0
  then show ?case by simp
next
  case (Suc n)
  then obtain u where "(step ^^ n) s u" "step u t" by auto
  with Suc phase_step [of u t] show ?case by fastforce
qed

lemma run_bounded: "phase s \<Longrightarrow> (step ^^ n) s t \<Longrightarrow> n \<le> rank s"
  using run_length by fastforce

lemma phase_steps: "step\<^sup>*\<^sup>* s t \<Longrightarrow> phase s \<Longrightarrow> phase t"
  by (induction rule: rtranclp_induct) (auto dest: phase_step)

lemma stuck_goal: "step\<^sup>*\<^sup>* s t \<Longrightarrow> phase s \<Longrightarrow> \<nexists>u. step t u \<Longrightarrow> goal t"
  using phase_steps phase_progress by blast

lemma reaches_goal: "phase s \<Longrightarrow> \<exists>t. step\<^sup>*\<^sup>* s t \<and> goal t"
proof (induction "rank s" arbitrary: s rule: less_induct)
  case less
  show ?case
  proof (cases "goal s")
    case True
    then show ?thesis by blast
  next
    case False
    then obtain u where "step s u" using phase_progress less.prems by blast
    with less phase_step [of s u] show ?thesis by (meson converse_rtranclp_into_rtranclp)
  qed
qed

end

text \<open>
  A program among an environment: their steps interleave, and \<open>counted_run\<close> counts those of the
  program. In a phase in which the steps of the program decrease a measure, and those of the
  environment do not increase it, every run has boundedly many steps of the program; and when the
  environment lets the program go on, the program runs to the goal.
\<close>

inductive counted_run :: "('s \<Rightarrow> 's \<Rightarrow> bool) \<Rightarrow> ('s \<Rightarrow> 's \<Rightarrow> bool) \<Rightarrow> nat \<Rightarrow> 's \<Rightarrow> 's \<Rightarrow> bool"
  for prog :: "'s \<Rightarrow> 's \<Rightarrow> bool" and env :: "'s \<Rightarrow> 's \<Rightarrow> bool"
where
  run_empty: "counted_run prog env 0 s s"
| run_prog: "counted_run prog env n s t \<Longrightarrow> prog t u \<Longrightarrow> counted_run prog env (Suc n) s u"
| run_env: "counted_run prog env n s t \<Longrightarrow> env t u \<Longrightarrow> counted_run prog env n s u"

locale environment_phase =
  fixes prog :: "'s \<Rightarrow> 's \<Rightarrow> bool"
    and env :: "'s \<Rightarrow> 's \<Rightarrow> bool"
    and phase :: "'s \<Rightarrow> bool"
    and rank :: "'s \<Rightarrow> nat"
    and goal :: "'s \<Rightarrow> bool"
    and released :: "'s \<Rightarrow> bool"
  assumes prog_phase: "phase s \<Longrightarrow> prog s t \<Longrightarrow> phase t \<and> rank t < rank s"
    and env_phase: "phase s \<Longrightarrow> env s t \<Longrightarrow> phase t \<and> rank t \<le> rank s"
    and prog_released: "released s \<Longrightarrow> prog s t \<Longrightarrow> released t"
    and prog_progress: "phase s \<Longrightarrow> released s \<Longrightarrow> \<not> goal s \<Longrightarrow> \<exists>t. prog s t"
begin

lemma counted_bound: "counted_run prog env n s t \<Longrightarrow> phase s \<Longrightarrow> phase t \<and> n + rank t \<le> rank s"
proof (induction rule: counted_run.induct)
  case (run_empty s)
  then show ?case by simp
next
  case (run_prog n s t u)
  then show ?case using prog_phase [of t u] by fastforce
next
  case (run_env n s t u)
  then show ?case using env_phase [of t u] by fastforce
qed

end

sublocale environment_phase \<subseteq> alone: terminating_phase prog "\<lambda>s. phase s \<and> released s" rank goal
  by unfold_locales (use prog_phase prog_released prog_progress in blast)+

text \<open>
  A refinement: an abstraction function maps every step of a concrete system, from states in
  which its invariant holds, to a step of the abstract one or to no change.
\<close>

locale refinement = invariant_system init step inv
  for init :: "'s \<Rightarrow> bool" and step :: "'s \<Rightarrow> 's \<Rightarrow> bool" and inv :: "'s \<Rightarrow> bool" +
  fixes ainit :: "'a \<Rightarrow> bool"
    and astep :: "'a \<Rightarrow> 'a \<Rightarrow> bool"
    and abs :: "'s \<Rightarrow> 'a"
  assumes abs_init: "init s \<Longrightarrow> ainit (abs s)"
    and abs_step: "inv s \<Longrightarrow> step s t \<Longrightarrow> astep (abs s) (abs t) \<or> abs t = abs s"
begin

lemma abs_reachable: "reachable init step s \<Longrightarrow> reachable ainit astep (abs s)"
proof (induction rule: reachable.induct)
  case (start s)
  then show ?case by (simp add: abs_init reachable.start)
next
  case (next_state s t)
  then show ?case using abs_step [OF reachable_inv] reachable.next_state by metis
qed

end

end
