(* ===== verification/State_Subscriber.thy ===== *)
theory State_Subscriber
  imports State_Cache Transition_System
begin

text \<open>
  \<open>pkg/state/subscriber.go\<close>: the subscriber, which feeds informer events into the cache and
  hands snapshots to the control loop. The event handlers run in the goroutines of the
  informers and \<open>ReceiveEvent\<close> in the goroutine of the control loop; they share the cache,
  the flag \<open>eventLost\<close> with its mutex and an unbuffered channel. The program is a step
  relation: one rule for each atomic action of one goroutine.
\<close>

section \<open>Event handlers\<close>

text \<open>
  Each handler applies its change to the cache and returns whether it goes on to call
  \<open>dispatchEvent\<close>.
\<close>

definition OnServiceAdd ::
    "Service option \<Rightarrow> clusterServiceStateCache \<Rightarrow> clusterServiceStateCache \<times> bool" where
  "OnServiceAdd svc c = UpdateServices c svc False"

definition OnServiceUpdate ::
    "Service option \<Rightarrow> Service option \<Rightarrow> clusterServiceStateCache \<Rightarrow>
     clusterServiceStateCache \<times> bool" where
  "OnServiceUpdate old svc c = UpdateServices c svc False"

definition OnServiceDelete ::
    "Service option \<Rightarrow> clusterServiceStateCache \<Rightarrow> clusterServiceStateCache \<times> bool" where
  "OnServiceDelete svc c = UpdateServices c svc True"

definition OnServiceSynced ::
    "clusterServiceStateCache \<Rightarrow> clusterServiceStateCache \<times> bool" where
  "OnServiceSynced c = (c, False)"

definition OnEndpointSliceAdd ::
    "EndpointSlice option \<Rightarrow> clusterServiceStateCache \<Rightarrow> clusterServiceStateCache \<times> bool" where
  "OnEndpointSliceAdd es c = UpdatEndpointSlice c es False"

definition OnEndpointSliceUpdate ::
    "EndpointSlice option \<Rightarrow> EndpointSlice option \<Rightarrow> clusterServiceStateCache \<Rightarrow>
     clusterServiceStateCache \<times> bool" where
  "OnEndpointSliceUpdate old es c = UpdatEndpointSlice c es False"

definition OnEndpointSliceDelete ::
    "EndpointSlice option \<Rightarrow> clusterServiceStateCache \<Rightarrow> clusterServiceStateCache \<times> bool" where
  "OnEndpointSliceDelete es c = UpdatEndpointSlice c es True"

definition OnEndpointSlicesSynced ::
    "clusterServiceStateCache \<Rightarrow> clusterServiceStateCache \<times> bool" where
  "OnEndpointSlicesSynced c = (c, False)"

datatype kube_event =
    ServiceAdd "Service option"
  | ServiceUpdate "Service option" "Service option"
  | ServiceDelete "Service option"
  | ServiceSynced
  | EndpointSliceAdd "EndpointSlice option"
  | EndpointSliceUpdate "EndpointSlice option" "EndpointSlice option"
  | EndpointSliceDelete "EndpointSlice option"
  | EndpointSlicesSynced

fun handle_event ::
    "kube_event \<Rightarrow> clusterServiceStateCache \<Rightarrow> clusterServiceStateCache \<times> bool" where
  "handle_event (ServiceAdd svc) c = OnServiceAdd svc c"
| "handle_event (ServiceUpdate old svc) c = OnServiceUpdate old svc c"
| "handle_event (ServiceDelete svc) c = OnServiceDelete svc c"
| "handle_event ServiceSynced c = OnServiceSynced c"
| "handle_event (EndpointSliceAdd es) c = OnEndpointSliceAdd es c"
| "handle_event (EndpointSliceUpdate old es) c = OnEndpointSliceUpdate old es c"
| "handle_event (EndpointSliceDelete es) c = OnEndpointSliceDelete es c"
| "handle_event EndpointSlicesSynced c = OnEndpointSlicesSynced c"

lemmas handler_defs =
  OnServiceAdd_def OnServiceUpdate_def OnServiceDelete_def OnServiceSynced_def
  OnEndpointSliceAdd_def OnEndpointSliceUpdate_def OnEndpointSliceDelete_def
  OnEndpointSlicesSynced_def

section \<open>Goroutines and their steps\<close>

datatype agent = Receiver | Handler nat

text \<open>
  Where a handler is: idle between events, before the \<open>select\<close> of \<open>dispatchEvent\<close>, in the
  default branch waiting for \<open>eventLostLock\<close>, or holding it.
\<close>

datatype handler_pc = HIdle | HSelect | HWaitLock | HLocked

text \<open>
  Where \<open>ReceiveEvent\<close> is: not running, holding \<open>eventLostLock\<close> before reading \<open>eventLost\<close>,
  waiting in the \<open>select\<close>, or about to evaluate \<open>cs.Snapshot()\<close>.
\<close>

datatype receiver_pc = RIdle | RLocked | RSelect | RSnapshot

text \<open>
  \<open>returned\<close> is the last value \<open>ReceiveEvent\<close> returned other than nil; \<open>snapped\<close> is a ghost:
  the cache at the moment that value was computed (the initial cache before the first).
\<close>

record serviceStateSubscriber =
  eventLost :: bool
  eventLostLock :: "agent option"
  clusterState :: clusterServiceStateCache
  handlers :: "nat \<Rightarrow> handler_pc"
  receiver :: receiver_pc
  returned :: "snap_Snapshot option"
  snapped :: clusterServiceStateCache

definition subscriber_New :: serviceStateSubscriber where
  "subscriber_New =
     \<lparr>eventLost = False, eventLostLock = None, clusterState = NewClusterServiceStateCache,
      handlers = (\<lambda>_. HIdle), receiver = RIdle, returned = None,
      snapped = NewClusterServiceStateCache\<rparr>"

definition subscriber_Snapshot :: "snapshot_orders \<Rightarrow> serviceStateSubscriber \<Rightarrow> snap_Snapshot" where
  "subscriber_Snapshot os s = cache_Snapshot os (clusterState s)"

text \<open>The steps of \<open>ReceiveEvent\<close>; \<open>recv_timeout\<close> is its return of nil on \<open>ctx.Done()\<close>.\<close>

inductive receive_step :: "serviceStateSubscriber \<Rightarrow> serviceStateSubscriber \<Rightarrow> bool" where
  recv_lock: "receiver s = RIdle \<Longrightarrow> eventLostLock s = None \<Longrightarrow>
    receive_step s (s\<lparr>receiver := RLocked, eventLostLock := Some Receiver\<rparr>)"
| recv_lost: "receiver s = RLocked \<Longrightarrow> eventLost s \<Longrightarrow>
    receive_step s (s\<lparr>eventLost := False, receiver := RSnapshot\<rparr>)"
| recv_select: "receiver s = RLocked \<Longrightarrow> \<not> eventLost s \<Longrightarrow>
    receive_step s (s\<lparr>receiver := RSelect\<rparr>)"
| recv_timeout: "receiver s = RSelect \<Longrightarrow>
    receive_step s (s\<lparr>receiver := RIdle, eventLostLock := None\<rparr>)"
| recv_snapshot: "receiver s = RSnapshot \<Longrightarrow> valid_snapshot_orders os \<Longrightarrow>
    receive_step s (s\<lparr>receiver := RIdle, eventLostLock := None,
      returned := Some (subscriber_Snapshot os s), snapped := clusterState s\<rparr>)"

declare subscriber_Snapshot_def [simp]

lemmas recv_snapshot_cache = recv_snapshot [unfolded subscriber_Snapshot_def]

text \<open>
  The steps of \<open>dispatchEvent\<close> by handler \<open>i\<close>. The send on the unbuffered channel proceeds
  exactly when the receiver waits in its \<open>select\<close>; otherwise the default branch is taken.
\<close>

inductive dispatch_step ::
    "nat \<Rightarrow> serviceStateSubscriber \<Rightarrow> serviceStateSubscriber \<Rightarrow> bool" for i where
  dispatch_send: "handlers s i = HSelect \<Longrightarrow> receiver s = RSelect \<Longrightarrow>
    dispatch_step i s (s\<lparr>handlers := (handlers s)(i := HIdle), receiver := RSnapshot\<rparr>)"
| dispatch_default: "handlers s i = HSelect \<Longrightarrow> receiver s \<noteq> RSelect \<Longrightarrow>
    dispatch_step i s (s\<lparr>handlers := (handlers s)(i := HWaitLock)\<rparr>)"
| dispatch_lock: "handlers s i = HWaitLock \<Longrightarrow> eventLostLock s = None \<Longrightarrow>
    dispatch_step i s (s\<lparr>handlers := (handlers s)(i := HLocked), eventLostLock := Some (Handler i)\<rparr>)"
| dispatch_lost: "handlers s i = HLocked \<Longrightarrow>
    dispatch_step i s (s\<lparr>handlers := (handlers s)(i := HIdle), eventLost := True,
      eventLostLock := None\<rparr>)"

text \<open>An informer calls the handler of event \<open>e\<close> in goroutine \<open>i\<close>.\<close>

definition event_step :: "nat \<Rightarrow> kube_event \<Rightarrow> serviceStateSubscriber \<Rightarrow> serviceStateSubscriber" where
  "event_step i e s =
     (let (c, changed) = handle_event e (clusterState s)
      in s\<lparr>clusterState := c,
           handlers := (handlers s)(i := (if changed then HSelect else HIdle))\<rparr>)"

inductive subscriber_step :: "serviceStateSubscriber \<Rightarrow> serviceStateSubscriber \<Rightarrow> bool" where
  receive: "receive_step s t \<Longrightarrow> subscriber_step s t"
| dispatch: "dispatch_step i s t \<Longrightarrow> subscriber_step s t"
| event: "handlers s i = HIdle \<Longrightarrow> subscriber_step s (event_step i e s)"

abbreviation subscriber_reachable :: "serviceStateSubscriber \<Rightarrow> bool" where
  "subscriber_reachable \<equiv> reachable (\<lambda>s. s = subscriber_New) subscriber_step"

section \<open>Events and the cache\<close>

lemma cache_inv_handle_event [inv_intros]: "cache_inv c \<Longrightarrow> cache_inv (fst (handle_event e c))"
  by (cases e) (simp_all add: handler_defs cache_inv_UpdateServices cache_inv_UpdatEndpointSlice)

fun view_event :: "kube_event \<Rightarrow> cluster_view \<Rightarrow> cluster_view" where
  "view_event (ServiceAdd svc) v = view_UpdateServices svc False v"
| "view_event (ServiceUpdate old svc) v = view_UpdateServices svc False v"
| "view_event (ServiceDelete svc) v = view_UpdateServices svc True v"
| "view_event ServiceSynced v = v"
| "view_event (EndpointSliceAdd es) v = view_UpdatEndpointSlice es False v"
| "view_event (EndpointSliceUpdate old es) v = view_UpdatEndpointSlice es False v"
| "view_event (EndpointSliceDelete es) v = view_UpdatEndpointSlice es True v"
| "view_event EndpointSlicesSynced v = v"

lemma cache_view_handle_event:
  "cache_inv c \<Longrightarrow> cache_view (fst (handle_event e c)) = view_event e (cache_view c)"
  by (cases e) (simp_all add: handler_defs cache_view_UpdateServices cache_view_UpdatEndpointSlice)

definition run_events :: "kube_event list \<Rightarrow> clusterServiceStateCache \<Rightarrow> clusterServiceStateCache" where
  "run_events es c = fold (\<lambda>e c. fst (handle_event e c)) es c"

lemma cache_inv_run_events: "cache_inv c \<Longrightarrow> cache_inv (run_events es c)"
  unfolding run_events_def
  by (induction es arbitrary: c) (auto intro: cache_inv_handle_event)

lemma cache_view_run_events:
  "cache_inv c \<Longrightarrow> cache_view (run_events es c) = fold view_event es (cache_view c)"
  unfolding run_events_def
  by (induction es arbitrary: c) (auto simp: cache_view_handle_event cache_inv_handle_event)

lemma handle_event_no_flag:
  "\<not> snd (handle_event e c) \<Longrightarrow> cache_view (fst (handle_event e c)) = cache_view c"
  using UpdateServices_flag_iff UpdatEndpointSlice_no_flag
  by (cases e) (auto simp: handler_defs)

section \<open>Invariant of the subscriber\<close>

inductive_cases receive_stepE: "receive_step s t"
inductive_cases dispatch_stepE: "dispatch_step i s t"
inductive_cases subscriber_stepE: "subscriber_step s t"

definition lock_inv :: "serviceStateSubscriber \<Rightarrow> bool" where
  "lock_inv s \<longleftrightarrow>
     (eventLostLock s = Some Receiver \<longleftrightarrow> receiver s \<noteq> RIdle) \<and>
     (\<forall>i. eventLostLock s = Some (Handler i) \<longleftrightarrow> handlers s i = HLocked)"

definition dirty :: "serviceStateSubscriber \<Rightarrow> bool" where
  "dirty s \<longleftrightarrow> cache_view (clusterState s) \<noteq> cache_view (snapped s)"

text \<open>
  No update is lost: when the cache differs from the last snapshot, the difference is still
  on its way, as the flag, as a receiver about to take a snapshot, or as a handler in the
  middle of \<open>dispatchEvent\<close>.
\<close>

definition pending :: "serviceStateSubscriber \<Rightarrow> bool" where
  "pending s \<longleftrightarrow> eventLost s \<or> receiver s = RSnapshot \<or> (\<exists>i. handlers s i \<noteq> HIdle)"

definition returned_inv :: "serviceStateSubscriber \<Rightarrow> bool" where
  "returned_inv s \<longleftrightarrow>
     returned s = None \<and> snapped s = NewClusterServiceStateCache \<or>
     (\<exists>os. valid_snapshot_orders os \<and> returned s = Some (cache_Snapshot os (snapped s)))"

definition subscriber_inv :: "serviceStateSubscriber \<Rightarrow> bool" where
  "subscriber_inv s \<longleftrightarrow>
     lock_inv s \<and> (dirty s \<longrightarrow> pending s) \<and> cache_inv (clusterState s) \<and>
     cache_inv (snapped s) \<and> returned_inv s"

lemmas subscriber_inv_defs = subscriber_inv_def lock_inv_def dirty_def pending_def returned_inv_def

lemma subscriber_inv_New: "subscriber_inv subscriber_New"
  by (simp add: subscriber_inv_defs subscriber_New_def)

lemma receive_step_inv: "subscriber_inv s \<Longrightarrow> receive_step s t \<Longrightarrow> subscriber_inv t"
  by (erule receive_stepE) (auto simp: subscriber_inv_defs)

lemma dispatch_step_lock_inv: "lock_inv s \<Longrightarrow> dispatch_step i s t \<Longrightarrow> lock_inv t"
  by (erule dispatch_stepE) (auto simp: lock_inv_def, metis agent.inject option.inject)

lemma dispatch_step_pending: "dispatch_step i s t \<Longrightarrow> pending t"
  by (erule dispatch_stepE) (auto simp: pending_def dest: spec [of _ i])

lemma dispatch_step_frame:
  "dispatch_step i s t \<Longrightarrow>
     clusterState t = clusterState s \<and> snapped t = snapped s \<and> returned t = returned s"
  by (erule dispatch_stepE) auto

lemma dispatch_step_inv: "subscriber_inv s \<Longrightarrow> dispatch_step i s t \<Longrightarrow> subscriber_inv t"
  using dispatch_step_lock_inv [of s i t] dispatch_step_pending [of i s t]
    dispatch_step_frame [of i s t]
  by (simp add: subscriber_inv_def returned_inv_def)

lemma event_step_inv:
  assumes inv: "subscriber_inv s" and idle: "handlers s i = HIdle"
  shows "subscriber_inv (event_step i e s)"
proof -
  obtain c b where e: "handle_event e (clusterState s) = (c, b)" by fastforce
  have "cache_inv c"
    using inv cache_inv_handle_event [of "clusterState s" e] e by (simp add: subscriber_inv_def)
  moreover have "\<not> b \<Longrightarrow> cache_view c = cache_view (clusterState s)"
    using handle_event_no_flag [of e "clusterState s"] e by simp
  ultimately show ?thesis
    using inv idle e by (cases b) (auto simp: subscriber_inv_defs event_step_def)
qed

interpretation sub: invariant_system "\<lambda>s. s = subscriber_New" subscriber_step subscriber_inv
proof
  show "s = subscriber_New \<Longrightarrow> subscriber_inv s" for s
    by (simp add: subscriber_inv_New)
  show "subscriber_inv s \<Longrightarrow> subscriber_step s t \<Longrightarrow> subscriber_inv t" for s t
    by (erule subscriber_stepE) (auto intro: receive_step_inv dispatch_step_inv event_step_inv)
qed

section \<open>Runs of the subscriber\<close>

definition record_lost :: "nat \<Rightarrow> serviceStateSubscriber \<Rightarrow> serviceStateSubscriber" where
  "record_lost i s =
     s\<lparr>handlers := (handlers s)(i := HIdle), eventLost := True, eventLostLock := None\<rparr>"

lemma handler_finishes:
  assumes "handlers s i = HLocked"
  shows "subscriber_step s (record_lost i s)"
  unfolding record_lost_def using assms
  by (intro subscriber_step.dispatch [of i] dispatch_step.dispatch_lost)

lemma handler_records:
  assumes "handlers s i = HWaitLock" "eventLostLock s = None"
  shows "subscriber_step\<^sup>*\<^sup>* s (record_lost i s)"
proof -
  let ?t = "s\<lparr>handlers := (handlers s)(i := HLocked), eventLostLock := Some (Handler i)\<rparr>"
  have "subscriber_step s ?t"
    using assms by (intro subscriber_step.dispatch [of i] dispatch_step.dispatch_lock)
  moreover have "subscriber_step ?t (record_lost i ?t)"
    by (rule handler_finishes) simp
  moreover have "record_lost i ?t = record_lost i s"
    by (simp add: record_lost_def)
  ultimately show ?thesis by simp
qed

lemma lock_free:
  assumes "lock_inv s" "\<forall>i. handlers s i = HIdle" "receiver s = RIdle"
  shows "eventLostLock s = None"
proof (cases "eventLostLock s")
  case (Some a)
  with assms show ?thesis by (cases a) (auto simp: lock_inv_def)
qed simp

text \<open>The receiver can always finish its call, and returns the lock.\<close>

lemma receiver_from_snapshot:
  assumes "receiver s = RSnapshot"
  shows "\<exists>t. subscriber_step\<^sup>*\<^sup>* s t \<and> eventLostLock t = None \<and> handlers t = handlers s \<and>
    clusterState t = clusterState s"
  using recv_snapshot_cache [OF assms valid_ex_orders]
  by (intro exI conjI r_into_rtranclp subscriber_step.receive) (assumption, simp_all)

lemma receiver_from_select:
  assumes "receiver s = RSelect"
  shows "\<exists>t. subscriber_step\<^sup>*\<^sup>* s t \<and> eventLostLock t = None \<and> handlers t = handlers s \<and>
    clusterState t = clusterState s"
  using receive_step.recv_timeout [OF assms]
  by (intro exI conjI r_into_rtranclp subscriber_step.receive) (assumption, simp_all)

lemma receiver_finishes:
  assumes "receiver s \<noteq> RIdle"
  shows "\<exists>t. subscriber_step\<^sup>*\<^sup>* s t \<and> eventLostLock t = None \<and> handlers t = handlers s \<and>
    clusterState t = clusterState s"
proof (cases "receiver s")
  case RIdle
  with assms show ?thesis by simp
next
  case RSelect
  then show ?thesis by (rule receiver_from_select)
next
  case RSnapshot
  then show ?thesis by (rule receiver_from_snapshot)
next
  case RLocked
  show ?thesis
  proof (cases "eventLost s")
    case True
    with RLocked have step: "subscriber_step s (s\<lparr>eventLost := False, receiver := RSnapshot\<rparr>)"
      by (intro subscriber_step.receive receive_step.recv_lost)
    with receiver_from_snapshot [of "s\<lparr>eventLost := False, receiver := RSnapshot\<rparr>"] show ?thesis
      by (auto intro: converse_rtranclp_into_rtranclp)
  next
    case False
    with RLocked have step: "subscriber_step s (s\<lparr>receiver := RSelect\<rparr>)"
      by (intro subscriber_step.receive receive_step.recv_select)
    with receiver_from_select [of "s\<lparr>receiver := RSelect\<rparr>"] show ?thesis
      by (auto intro: converse_rtranclp_into_rtranclp)
  qed
qed

lemma lock_released:
  assumes "lock_inv s" "handlers s i = HWaitLock"
  obtains u where "subscriber_step\<^sup>*\<^sup>* s u" "eventLostLock u = None" "handlers u i = HWaitLock"
    "clusterState u = clusterState s"
proof (cases "eventLostLock s")
  case None
  then show ?thesis using that [of s] assms(2) by simp
next
  case (Some a)
  show ?thesis
  proof (cases a)
    case Receiver
    with Some assms(1) have "receiver s \<noteq> RIdle" by (simp add: lock_inv_def)
    with receiver_finishes that assms(2) show ?thesis by metis
  next
    case (Handler j)
    with Some assms(1) have j: "handlers s j = HLocked" by (auto simp: lock_inv_def)
    with assms(2) have "i \<noteq> j" by auto
    with that [of "record_lost j s"] handler_finishes [OF j] assms(2) show ?thesis
      by (simp add: record_lost_def r_into_rtranclp)
  qed
qed

section \<open>Properties\<close>

text \<open>
  Refinement: feeding any sequence of informer events through the handlers into an
  empty cache implements the abstract view, in which every name holds its newest service
  object and that service's newest endpoint slices.
\<close>

theorem run_events_refines_view:
  "cache_view (run_events es NewClusterServiceStateCache) = fold view_event es Map.empty"
  by (simp add: cache_view_run_events)

text \<open>
  C22. Invariant: after any sequence of informer events the containers are keyed by the names
  of their services, slices by their names, and each slice carries the label of the service
  it is stored under.
\<close>

theorem run_events_inv: "cache_inv (run_events es NewClusterServiceStateCache)"
  by (simp add: cache_inv_run_events)

lemma snapped_contents:
  assumes "subscriber_inv s" "returned s = Some snap"
  shows "image_mset snap_contents (mset (Services snap)) =
    image_mset container_contents (mset (map snd (services (snapped s))))"
  using assms snapshot_contents by (auto simp: subscriber_inv_def returned_inv_def)

lemma no_lost_update:
  assumes "subscriber_reachable s" "\<forall>i. handlers s i = HIdle" "\<not> eventLost s"
    and "receiver s \<noteq> RSnapshot" "returned s = Some snap"
  shows "image_mset snap_contents (mset (Services snap)) =
    image_mset container_contents (mset (map snd (services (clusterState s))))"
proof -
  have inv: "subscriber_inv s" using assms(1) by (rule sub.reachable_inv)
  with assms(2-4) have "cache_view (clusterState s) = cache_view (snapped s)"
    by (auto simp: subscriber_inv_def dirty_def pending_def)
  with inv have "image_mset container_contents (mset (map snd (services (clusterState s)))) =
      image_mset container_contents (mset (map snd (services (snapped s))))"
    by (intro cache_contents_cong) (simp_all add: subscriber_inv_def)
  with snapped_contents [OF inv assms(5)] show ?thesis by simp
qed

text \<open>
  C4. No update is lost: in every reachable state in which no handler is running, no lost
  event is recorded and \<open>ReceiveEvent\<close> is not about to take a snapshot, the snapshot that
  \<open>ReceiveEvent\<close> returned last lists exactly the services and slices now in the cache.
\<close>

theorem ReceiveEvent_no_lost_update:
  assumes "subscriber_reachable s" "\<forall>i. handlers s i = HIdle" "\<not> eventLost s"
    and "receiver s \<noteq> RSnapshot" "returned s = Some snap"
  shows "image_mset snap_contents (mset (Services snap)) =
    image_mset container_contents (mset (map snd (services (clusterState s))))"
  by (rule no_lost_update [OF assms])

text \<open>A complete run: one service arrives while the receiver waits, and is delivered.\<close>

definition ex_run_start :: serviceStateSubscriber where
  "ex_run_start = event_step 0 (ServiceAdd (Some ex_service))
     (subscriber_New\<lparr>receiver := RSelect, eventLostLock := Some Receiver\<rparr>)"

definition ex_run_end :: serviceStateSubscriber where
  "ex_run_end = ex_run_start\<lparr>handlers := (\<lambda>_. HIdle), receiver := RIdle, eventLostLock := None,
     returned := Some (cache_Snapshot ex_orders (clusterState ex_run_start)),
     snapped := clusterState ex_run_start\<rparr>"

lemma subscriber_next: "subscriber_reachable s \<Longrightarrow> subscriber_step s t \<Longrightarrow> subscriber_reachable t"
  by (rule reachable.next_state)

lemma ex_locked_reachable:
  "subscriber_reachable (subscriber_New\<lparr>receiver := RLocked, eventLostLock := Some Receiver\<rparr>)"
  by (rule subscriber_next [OF reachable.start])
    (simp, intro subscriber_step.receive receive_step.recv_lock, simp_all add: subscriber_New_def)

lemma ex_waiting_reachable:
  "subscriber_reachable (subscriber_New\<lparr>receiver := RSelect, eventLostLock := Some Receiver\<rparr>)"
proof -
  have "subscriber_reachable
      (subscriber_New\<lparr>receiver := RLocked, eventLostLock := Some Receiver\<rparr>\<lparr>receiver := RSelect\<rparr>)"
    by (rule subscriber_next [OF ex_locked_reachable])
      (intro subscriber_step.receive receive_step.recv_select, simp_all add: subscriber_New_def)
  then show ?thesis by (simp add: subscriber_New_def)
qed

lemma ex_event_handled:
  "handle_event (ServiceAdd (Some ex_service)) NewClusterServiceStateCache =
     (\<lparr>services = [(''whoami'', NewServiceContainer ex_service)]\<rparr>, True)"
  by (simp add: OnServiceAdd_def UpdateServices_def updateService_def
      NewClusterServiceStateCache_def gomap_put_def ex_service_def)

lemma ex_event_step:
  "clusterState s = NewClusterServiceStateCache \<Longrightarrow>
    event_step 0 (ServiceAdd (Some ex_service)) s =
      s\<lparr>clusterState := \<lparr>services = [(''whoami'', NewServiceContainer ex_service)]\<rparr>,
        handlers := (handlers s)(0 := HSelect)\<rparr>"
  by (simp add: event_step_def ex_event_handled del: handle_event.simps)

lemma ex_run_start_eq:
  "ex_run_start = \<lparr>eventLost = False, eventLostLock = Some Receiver,
     clusterState = \<lparr>services = [(''whoami'', NewServiceContainer ex_service)]\<rparr>,
     handlers = (\<lambda>_. HIdle)(0 := HSelect), receiver = RSelect, returned = None,
     snapped = NewClusterServiceStateCache\<rparr>"
  by (simp add: ex_run_start_def ex_event_step subscriber_New_def)

lemma ex_run_end_reachable: "subscriber_reachable ex_run_end"
proof -
  have "subscriber_reachable ex_run_start"
    unfolding ex_run_start_def
    by (rule subscriber_next [OF ex_waiting_reachable])
      (rule subscriber_step.event, simp add: subscriber_New_def)
  then have "subscriber_reachable
      (ex_run_start\<lparr>handlers := (handlers ex_run_start)(0 := HIdle), receiver := RSnapshot\<rparr>)"
    by (rule subscriber_next)
      (intro subscriber_step.dispatch [of 0] dispatch_step.dispatch_send, simp_all add: ex_run_start_eq)
  then have "subscriber_reachable
      (ex_run_start\<lparr>handlers := (handlers ex_run_start)(0 := HIdle), receiver := RSnapshot\<rparr>
        \<lparr>receiver := RIdle, eventLostLock := None,
         returned := Some (cache_Snapshot ex_orders (clusterState
           (ex_run_start\<lparr>handlers := (handlers ex_run_start)(0 := HIdle), receiver := RSnapshot\<rparr>))),
         snapped := clusterState
           (ex_run_start\<lparr>handlers := (handlers ex_run_start)(0 := HIdle), receiver := RSnapshot\<rparr>)\<rparr>)"
    by (rule subscriber_next)
      (intro subscriber_step.receive recv_snapshot_cache, simp_all add: valid_ex_orders)
  then show ?thesis by (simp add: ex_run_end_def ex_run_start_eq fun_upd_idem)
qed

theorem ReceiveEvent_no_lost_update_witness:
  "image_mset snap_contents (mset (Services (cache_Snapshot ex_orders (clusterState ex_run_start)))) =
     {#(ex_service, {#})#}"
  using ReceiveEvent_no_lost_update [OF ex_run_end_reachable]
  by (simp add: ex_run_end_def ex_run_start_eq container_contents_def NewServiceContainer_def)

text \<open>
  C23. A recorded event is delivered by the next call: when the cache differs from the last
  snapshot and no handler is running, \<open>ReceiveEvent\<close> does not block; its next three steps
  exist, and whichever way it runs they return a snapshot of the current cache.
\<close>

theorem ReceiveEvent_delivers_pending:
  assumes "subscriber_reachable s" "\<forall>i. handlers s i = HIdle" "receiver s = RIdle" "dirty s"
  shows "(\<exists>s1 s2 t. receive_step s s1 \<and> receive_step s1 s2 \<and> receive_step s2 t) \<and>
    (\<forall>s1 s2 t. receive_step s s1 \<and> receive_step s1 s2 \<and> receive_step s2 t \<longrightarrow>
      (\<exists>os. valid_snapshot_orders os \<and> returned t = Some (cache_Snapshot os (clusterState s))))"
proof (rule conjI; (intro allI impI)?)
  let ?s1 = "s\<lparr>receiver := RLocked, eventLostLock := Some Receiver\<rparr>"
  let ?s2 = "?s1\<lparr>eventLost := False, receiver := RSnapshot\<rparr>"
  have inv: "subscriber_inv s" using assms(1) by (rule sub.reachable_inv)
  with assms(2-4) have lost: "eventLost s"
    by (auto simp: subscriber_inv_def pending_def)
  have free: "eventLostLock s = None"
    using inv assms(2,3) by (intro lock_free) (simp_all add: subscriber_inv_def)
  have "receive_step s ?s1"
    using assms(3) free by (rule receive_step.recv_lock)
  moreover have "receive_step ?s1 ?s2"
    using lost by (intro receive_step.recv_lost) simp_all
  moreover have "\<exists>t. receive_step ?s2 t"
    using recv_snapshot_cache [OF _ valid_ex_orders, of ?s2] by auto
  ultimately show "\<exists>s1 s2 t. receive_step s s1 \<and> receive_step s1 s2 \<and> receive_step s2 t"
    by blast
  fix s1 s2 t
  assume steps: "receive_step s s1 \<and> receive_step s1 s2 \<and> receive_step s2 t"
  then have s1: "s1 = ?s1"
    using assms(3) by (auto elim: receive_stepE)
  with steps lost have s2: "s2 = ?s2"
    by (auto elim: receive_stepE)
  from steps have "receive_step ?s2 t" by (simp add: s2)
  then show "\<exists>os. valid_snapshot_orders os \<and>
      returned t = Some (cache_Snapshot os (clusterState s))"
    by (rule receive_stepE) auto
qed

definition ex_lost :: serviceStateSubscriber where
  "ex_lost = (event_step 0 (ServiceAdd (Some ex_service)) subscriber_New)
     \<lparr>handlers := (\<lambda>_. HIdle), eventLost := True, eventLostLock := None\<rparr>"

lemma ex_lost_eq:
  "ex_lost = \<lparr>eventLost = True, eventLostLock = None,
     clusterState = \<lparr>services = [(''whoami'', NewServiceContainer ex_service)]\<rparr>,
     handlers = (\<lambda>_. HIdle), receiver = RIdle, returned = None,
     snapped = NewClusterServiceStateCache\<rparr>"
  by (simp add: ex_lost_def ex_event_step subscriber_New_def)

definition ex_wait :: serviceStateSubscriber where
  "ex_wait = subscriber_New\<lparr>
     clusterState := \<lparr>services = [(''whoami'', NewServiceContainer ex_service)]\<rparr>,
     handlers := (\<lambda>_. HIdle)(0 := HWaitLock)\<rparr>"

lemma ex_wait_reachable: "subscriber_reachable ex_wait"
proof -
  let ?s = "event_step 0 (ServiceAdd (Some ex_service)) subscriber_New"
  have "subscriber_reachable ?s"
    by (rule subscriber_next [OF reachable.start])
      (simp, rule subscriber_step.event, simp add: subscriber_New_def)
  then have "subscriber_reachable (?s\<lparr>handlers := (handlers ?s)(0 := HWaitLock)\<rparr>)"
    by (rule subscriber_next)
      (intro subscriber_step.dispatch [of 0] dispatch_step.dispatch_default,
        simp_all add: ex_event_step subscriber_New_def)
  then show ?thesis by (simp add: ex_wait_def ex_event_step subscriber_New_def)
qed

lemma ex_lost_reachable: "subscriber_reachable ex_lost"
proof -
  have "subscriber_reachable (record_lost 0 ex_wait)"
    by (rule reachable_steps [OF handler_records ex_wait_reachable])
      (simp_all add: ex_wait_def subscriber_New_def)
  then show ?thesis
    by (simp add: ex_lost_eq ex_wait_def record_lost_def fun_upd_idem subscriber_New_def)
qed

theorem ReceiveEvent_delivers_pending_witness:
  "\<exists>s1 s2 t. receive_step ex_lost s1 \<and> receive_step s1 s2 \<and> receive_step s2 t"
proof -
  have "dirty ex_lost"
    unfolding dirty_def
    by (rule view_changed [of _ "''whoami''"])
      (simp add: ex_lost_eq cache_view_def gomap_get_def NewClusterServiceStateCache_def)
  then show ?thesis
    using ReceiveEvent_delivers_pending [OF ex_lost_reachable] by (simp add: ex_lost_eq)
qed

text \<open>
  C24. A handler in the default branch of \<open>dispatchEvent\<close> is never stuck: from every reachable
  state the other goroutines can release the lock, and then it records the lost event.
\<close>

theorem dispatchEvent_completes:
  assumes "subscriber_reachable s" "handlers s i = HWaitLock"
  shows "\<exists>t. subscriber_step\<^sup>*\<^sup>* s t \<and> handlers t i = HIdle \<and> eventLost t \<and>
    clusterState t = clusterState s"
proof -
  have "lock_inv s" using sub.reachable_inv [OF assms(1)] by (simp add: subscriber_inv_def)
  then obtain u where u: "subscriber_step\<^sup>*\<^sup>* s u" "eventLostLock u = None" "handlers u i = HWaitLock"
    "clusterState u = clusterState s"
    using assms(2) by (rule lock_released)
  have "subscriber_step\<^sup>*\<^sup>* u (record_lost i u)" using u(3,2) by (rule handler_records)
  with u(1) have "subscriber_step\<^sup>*\<^sup>* s (record_lost i u)" by (rule rtranclp_trans)
  moreover have "handlers (record_lost i u) i = HIdle" "eventLost (record_lost i u)"
    "clusterState (record_lost i u) = clusterState s"
    using u(4) by (simp_all add: record_lost_def)
  ultimately show ?thesis by blast
qed

theorem dispatchEvent_completes_witness:
  "\<exists>t. subscriber_step\<^sup>*\<^sup>* ex_wait t \<and> handlers t 0 = HIdle \<and> eventLost t \<and>
    clusterState t = clusterState ex_wait"
  by (rule dispatchEvent_completes [OF ex_wait_reachable]) (simp add: ex_wait_def)

text \<open>
  \<open>dispatchEvent\<close> is not fire-and-forget: there is a reachable state in which a handler
  holds an undelivered change and can take no step, because \<open>ReceiveEvent\<close> keeps
  \<open>eventLostLock\<close> while it waits in its \<open>select\<close>.
\<close>

theorem dispatchEvent_blocks:
  "\<exists>s. subscriber_reachable s \<and> handlers s 0 = HWaitLock \<and> receiver s = RSelect \<and>
    dirty s \<and> (\<forall>t. \<not> dispatch_step 0 s t)"
proof -
  let ?r = "subscriber_New\<lparr>receiver := RLocked, eventLostLock := Some Receiver\<rparr>"
  let ?s = "event_step 0 (ServiceAdd (Some ex_service)) ?r"
  let ?t = "?s\<lparr>handlers := (handlers ?s)(0 := HWaitLock)\<rparr>"
  let ?u = "?t\<lparr>receiver := RSelect\<rparr>"
  have "subscriber_reachable ?s"
    by (rule subscriber_next [OF ex_locked_reachable])
      (rule subscriber_step.event, simp add: subscriber_New_def)
  then have "subscriber_reachable ?t"
    by (rule subscriber_next)
      (intro subscriber_step.dispatch [of 0] dispatch_step.dispatch_default,
        simp_all add: ex_event_step subscriber_New_def)
  then have "subscriber_reachable ?u"
    by (rule subscriber_next)
      (intro subscriber_step.receive receive_step.recv_select, simp_all add: ex_event_step subscriber_New_def)
  moreover have "dirty ?u"
    unfolding dirty_def
    by (rule view_changed [of _ "''whoami''"])
      (simp add: ex_event_step subscriber_New_def cache_view_def gomap_get_def NewClusterServiceStateCache_def)
  moreover have "\<not> dispatch_step 0 ?u v" for v
    by (auto simp: ex_event_step subscriber_New_def elim: dispatch_stepE)
  ultimately show ?thesis
    by (intro exI [of _ ?u]) (simp add: ex_event_step subscriber_New_def)
qed

text \<open>
  C25. Mutual exclusion on \<open>eventLost\<close>: at most one handler is in the critical section, and
  none while \<open>ReceiveEvent\<close> is running.
\<close>

theorem eventLost_mutual_exclusion:
  assumes "subscriber_reachable s" "handlers s i = HLocked"
  shows "receiver s = RIdle \<and> (\<forall>j. handlers s j = HLocked \<longrightarrow> j = i)"
proof -
  have "lock_inv s" using sub.reachable_inv [OF assms(1)] by (simp add: subscriber_inv_def)
  then have l: "eventLostLock s = Some (Handler i)" using assms(2) by (simp add: lock_inv_def)
  moreover have "j = i" if "handlers s j = HLocked" for j
    using \<open>lock_inv s\<close> that l by (simp add: lock_inv_def) (metis agent.inject option.inject)
  ultimately show ?thesis using \<open>lock_inv s\<close> by (auto simp: lock_inv_def)
qed

theorem eventLost_mutual_exclusion_witness:
  "receiver (ex_wait\<lparr>handlers := (handlers ex_wait)(0 := HLocked),
      eventLostLock := Some (Handler 0)\<rparr>) = RIdle"
proof -
  let ?s = "ex_wait\<lparr>handlers := (handlers ex_wait)(0 := HLocked), eventLostLock := Some (Handler 0)\<rparr>"
  have "subscriber_reachable ?s"
    by (rule subscriber_next [OF ex_wait_reachable])
      (intro subscriber_step.dispatch [of 0] dispatch_step.dispatch_lock,
        simp_all add: ex_wait_def subscriber_New_def)
  moreover have "handlers ?s 0 = HLocked" by simp
  ultimately have "receiver ?s = RIdle \<and> (\<forall>j. handlers ?s j = HLocked \<longrightarrow> j = 0)"
    by (rule eventLost_mutual_exclusion)
  then show ?thesis by (rule conjunct1)
qed

end
