(* ===== verification/Logger.thy ===== *)
theory Logger
  imports Prelude
begin

text \<open>
  \<open>pkg/logger/logger.go\<close>: the logging facade. A call of the underlying \<open>logr\<close> sink is a value:
  its verbosity, its message and its keys and values. \<open>fmt.Sprintf("%v", v)\<close> is a parameter.
\<close>

record 'a logr =
  logr_Name :: string
  logr_values :: "'a list"

record 'a logger =
  logger_name :: string
  logger_logr :: "'a logr"

datatype 'a log_call =
    InfoCall nat "'a logr" string "string list"
  | ErrorCall nat "'a logr" go_error string "string list"

definition logger_New :: "string \<Rightarrow> 'a logger" where
  "logger_New nm = \<lparr>logger_name = nm, logger_logr = \<lparr>logr_Name = nm, logr_values = []\<rparr>\<rparr>"

definition logr_WithValues :: "'a logr \<Rightarrow> 'a list \<Rightarrow> 'a logr" where
  "logr_WithValues r kvs = r\<lparr>logr_values := logr_values r @ kvs\<rparr>"

definition WithValues :: "'a logger \<Rightarrow> 'a list \<Rightarrow> 'a logger" where
  "WithValues l withKeysAndValues =
     \<lparr>logger_name = logger_name l, logger_logr = logr_WithValues (logger_logr l) withKeysAndValues\<rparr>"

definition GetLogger :: "'a logger \<Rightarrow> 'a logr" where
  "GetLogger l = logger_logr l"

definition sanitize :: "('a \<Rightarrow> string) \<Rightarrow> 'a list \<Rightarrow> string list" where
  "sanitize sprint args = fold (\<lambda>v out. out @ [sprint v]) args []"

definition Debugf :: "('a \<Rightarrow> string) \<Rightarrow> 'a logger \<Rightarrow> string \<Rightarrow> 'a list \<Rightarrow> 'a log_call" where
  "Debugf sprint l fmt args = InfoCall 4 (logger_logr l) fmt (sanitize sprint args)"

definition Infof :: "('a \<Rightarrow> string) \<Rightarrow> 'a logger \<Rightarrow> string \<Rightarrow> 'a list \<Rightarrow> 'a log_call" where
  "Infof sprint l fmt args = InfoCall 2 (logger_logr l) fmt (sanitize sprint args)"

definition Warnf :: "('a \<Rightarrow> string) \<Rightarrow> 'a logger \<Rightarrow> string \<Rightarrow> 'a list \<Rightarrow> 'a log_call" where
  "Warnf sprint l fmt args = InfoCall 1 (logger_logr l) fmt (sanitize sprint args)"

definition Errorf :: "('a \<Rightarrow> string) \<Rightarrow> 'a logger \<Rightarrow> string \<Rightarrow> 'a list \<Rightarrow> 'a log_call" where
  "Errorf sprint l fmt args = InfoCall 0 (logger_logr l) fmt (sanitize sprint args)"

definition log_Error ::
    "('a \<Rightarrow> string) \<Rightarrow> 'a logger \<Rightarrow> go_error \<Rightarrow> string \<Rightarrow> 'a list \<Rightarrow> 'a log_call" where
  "log_Error sprint l err fmt args = ErrorCall 0 (logger_logr l) err fmt (sanitize sprint args)"

lemma sanitize_map: "sanitize sprint args = map sprint args"
proof -
  have "fold (\<lambda>v out. out @ [sprint v]) args acc = acc @ map sprint args" for acc
    by (induction args arbitrary: acc) simp_all
  then show ?thesis by (simp add: sanitize_def)
qed

lemma WithValues_append: "WithValues (WithValues l xs) ys = WithValues l (xs @ ys)"
  by (simp add: WithValues_def logr_WithValues_def)

text \<open>The interface \<open>Logger\<close> as the record of its methods, and the implementation of it by a logger.\<close>

record 'a Logger =
  L_Debugf :: "string \<Rightarrow> 'a list \<Rightarrow> 'a log_call"
  L_Infof :: "string \<Rightarrow> 'a list \<Rightarrow> 'a log_call"
  L_Warnf :: "string \<Rightarrow> 'a list \<Rightarrow> 'a log_call"
  L_Errorf :: "string \<Rightarrow> 'a list \<Rightarrow> 'a log_call"
  L_Error :: "go_error \<Rightarrow> string \<Rightarrow> 'a list \<Rightarrow> 'a log_call"
  L_WithValues :: "'a list \<Rightarrow> 'a logger"
  L_GetLogger :: "'a logr"

definition Logger_of :: "('a \<Rightarrow> string) \<Rightarrow> 'a logger \<Rightarrow> 'a Logger" where
  "Logger_of sprint l =
     \<lparr>L_Debugf = Debugf sprint l, L_Infof = Infof sprint l, L_Warnf = Warnf sprint l,
      L_Errorf = Errorf sprint l, L_Error = log_Error sprint l, L_WithValues = WithValues l,
      L_GetLogger = GetLogger l\<rparr>"

text \<open>The message of a call is the format itself: no argument is ever inserted into it.\<close>

fun call_message :: "'a log_call \<Rightarrow> string" where
  "call_message (InfoCall v l msg kvs) = msg"
| "call_message (ErrorCall v l err msg kvs) = msg"

lemma formatted_calls_do_not_format:
  "call_message (Debugf sprint l fmt args) = fmt" "call_message (Infof sprint l fmt args) = fmt"
  "call_message (Warnf sprint l fmt args) = fmt" "call_message (Errorf sprint l fmt args) = fmt"
  by (simp_all add: Debugf_def Infof_def Warnf_def Errorf_def)

end
