(* ===== verification/Controlplane.thy ===== *)
theory Controlplane
  imports Mapper State_Subscriber Logger
begin

text \<open>
  \<open>pkg/server/server.go\<close> and the update loop of \<open>cmd/controlplane/controlplane.go\<close>. The snapshot
  cache of go-control-plane, the gRPC server and the network are parameters.
\<close>

section \<open>The xDS server\<close>

record XdsServerOpts =
  GrpcKeepaliveTime :: int64
  GrpcKeepaliveTimeout :: int64
  GrpcKeepaliveMinTime :: int64
  GrpcMaxConcurrentStreams :: uint32
  opt_Logger :: "string logger"
  NodeID :: string
  Host :: string

record grpc_options =
  opt_MaxConcurrentStreams :: uint32
  opt_Time :: int64
  opt_Timeout :: int64
  opt_MinTime :: int64
  opt_PermitWithoutStream :: bool

record ('l, 'cache, 'g) xdsServer =
  nodeID :: string
  xds_cache :: 'cache
  listen :: 'l
  server :: 'g

text \<open>
  The libraries of the server: the network, the snapshot cache of go-control-plane (in ADS mode,
  with the node identifier as the key), the gRPC server, and the xDS server on top of them.
\<close>

datatype xds_service =
    AggregatedDiscoveryService
  | EndpointDiscoveryService
  | ClusterDiscoveryService
  | RouteDiscoveryService
  | ListenerDiscoveryService

record ('l, 'cache, 'g) server_libraries =
  net_Listen :: "string \<Rightarrow> string \<Rightarrow> go_error + 'l"
  NewSnapshotCache :: "bool \<Rightarrow> string logger \<Rightarrow> 'cache"
  grpc_NewServer :: "grpc_options \<Rightarrow> 'g"
  RegisterServer :: "xds_service \<Rightarrow> 'cache \<Rightarrow> 'g \<Rightarrow> 'g"
  GracefulStop :: "'g \<Rightarrow> 'g"

definition server_New ::
    "('l, 'cache, 'g) server_libraries \<Rightarrow> XdsServerOpts \<Rightarrow> go_error + ('l, 'cache, 'g) xdsServer" where
  "server_New libs srvOpts =
     (case net_Listen libs ''tcp'' (Host srvOpts) of
        Inl err \<Rightarrow> Inl err
      | Inr l \<Rightarrow> Inr
          \<lparr>nodeID = NodeID srvOpts,
           xds_cache = NewSnapshotCache libs True (opt_Logger srvOpts),
           listen = l,
           server = grpc_NewServer libs
             \<lparr>opt_MaxConcurrentStreams = GrpcMaxConcurrentStreams srvOpts,
              opt_Time = GrpcKeepaliveTime srvOpts,
              opt_Timeout = GrpcKeepaliveTimeout srvOpts,
              opt_MinTime = GrpcKeepaliveMinTime srvOpts,
              opt_PermitWithoutStream = True\<rparr>\<rparr>)"

text \<open>
  The operations of the snapshot cache and of a snapshot that the server uses.
\<close>

record ('snap, 'cache) SnapshotCache =
  SetSnapshot :: "string \<Rightarrow> 'snap \<Rightarrow> 'cache \<Rightarrow> 'cache \<times> go_error option"
  Consistent :: "'snap \<Rightarrow> go_error option"

datatype log_line = SnapshotInconsistent go_error | UpdatingSnapshot

definition UpdateSnapshot ::
    "('snap, 'cache) SnapshotCache \<Rightarrow> 'snap \<Rightarrow> ('l, 'cache, 'g) xdsServer \<Rightarrow>
     ('l, 'cache, 'g) xdsServer \<times> log_line list \<times> go_error option" where
  "UpdateSnapshot sc snapshot s =
     (let warnings = (case Consistent sc snapshot of
            Some err \<Rightarrow> [SnapshotInconsistent err] | None \<Rightarrow> []);
          (cache, err) = SetSnapshot sc (nodeID s) snapshot (xds_cache s)
      in (s\<lparr>xds_cache := cache\<rparr>, warnings @ [UpdatingSnapshot], err))"

text \<open>
  \<open>Start\<close> registers the discovery services, all on an xDS server that reads the snapshot cache,
  before it serves; then one of two events ends it.
\<close>

datatype start_event = CtxDone | ServeReturned "go_error option"

definition register_services :: "('l, 'cache, 'g) server_libraries \<Rightarrow> 'cache \<Rightarrow> 'g \<Rightarrow> 'g" where
  "register_services libs cache g =
     fold (\<lambda>svc. RegisterServer libs svc cache)
       [AggregatedDiscoveryService, EndpointDiscoveryService, ClusterDiscoveryService,
        RouteDiscoveryService, ListenerDiscoveryService] g"

definition server_Start ::
    "('l, 'cache, 'g) server_libraries \<Rightarrow> start_event \<Rightarrow> ('l, 'cache, 'g) xdsServer \<Rightarrow>
     ('l, 'cache, 'g) xdsServer \<times> go_error option" where
  "server_Start libs ev s =
     (let s = s\<lparr>server := register_services libs (xds_cache s) (server s)\<rparr>
      in case ev of
           CtxDone \<Rightarrow> (s\<lparr>server := GracefulStop libs (server s)\<rparr>, None)
         | ServeReturned err \<Rightarrow> (s, err))"

section \<open>The update loop\<close>

text \<open>
  What one iteration depends on: the result of \<open>ReceiveEvent\<close>, the version string of the
  moment, and the visiting orders of the loops over maps.
\<close>

record iteration =
  received :: "snap_Snapshot option"
  it_version :: string
  it_orders :: "nat \<Rightarrow> endpoint_orders"

definition updateSnapshot ::
    "marshaller \<Rightarrow> (string \<Rightarrow> resources \<Rightarrow> 'snap \<times> go_error option) \<Rightarrow> ('snap, 'cache) SnapshotCache \<Rightarrow>
     iteration \<Rightarrow> ('l, 'cache, 'g) xdsServer \<Rightarrow> (('l, 'cache, 'g) xdsServer \<times> go_error option) go" where
  "updateSnapshot marshal NewSnapshot sc it s =
     (case received it of
        None \<Rightarrow> Inr (s, None)
      | Some snap \<Rightarrow>
          go_bind (EnvoySnapshotFromKubeSnapshot marshal (it_orders it) NewSnapshot (it_version it) snap)
            (\<lambda>(envoySnap, err).
              if err \<noteq> None then Inr (s, err)
              else case UpdateSnapshot sc envoySnap s of (s, _, err) \<Rightarrow>
                if err \<noteq> None then Inr (s, err) else Inr (s, None)))"

text \<open>
  The goroutine of the update loop, over the iterations it makes before the context is done:
  errors are logged and the loop continues. Before it starts, \<open>run\<close> publishes an empty
  snapshot and ignores the error of that.
\<close>

definition update_loop ::
    "marshaller \<Rightarrow> (string \<Rightarrow> resources \<Rightarrow> 'snap \<times> go_error option) \<Rightarrow> ('snap, 'cache) SnapshotCache \<Rightarrow>
     'snap \<Rightarrow> iteration list \<Rightarrow> ('l, 'cache, 'g) xdsServer \<Rightarrow> ('l, 'cache, 'g) xdsServer go" where
  "update_loop marshal NewSnapshot sc emptySnapshot its s =
     (case UpdateSnapshot sc emptySnapshot s of (s, _, _) \<Rightarrow>
        go_fold (\<lambda>it s. go_bind (updateSnapshot marshal NewSnapshot sc it s) (\<lambda>(s, err). Inr s)) its s)"

section \<open>The contract of the snapshot cache\<close>

text \<open>
  A snapshot that was set without an error is the snapshot of its node, and the snapshots of
  the other nodes stay.
\<close>

locale snapshot_cache =
  fixes sc :: "('snap, 'cache) SnapshotCache"
    and GetSnapshot :: "string \<Rightarrow> 'cache \<Rightarrow> 'snap option"
  assumes set_get: "SetSnapshot sc n snap c = (c', None) \<Longrightarrow>
      GetSnapshot n' c' = (if n' = n then Some snap else GetSnapshot n' c)"
begin

lemma UpdateSnapshot_publishes:
  assumes "UpdateSnapshot sc snap s = (s', lines, None)"
  shows "nodeID s' = nodeID s \<and>
    (\<forall>n. GetSnapshot n (xds_cache s') = (if n = nodeID s then Some snap else GetSnapshot n (xds_cache s)))"
  using assms by (auto simp: UpdateSnapshot_def Let_def set_get split: prod.splits)

lemma updateSnapshot_publishes:
  assumes "marshals marshal" "\<not> bad_snapshot snap" "received it = Some snap"
    and "updateSnapshot marshal NewSnapshot sc it s = Inr (s', None)"
  shows "\<exists>res. resources_of 0 (it_orders it) (Services snap) res \<and>
    GetSnapshot (nodeID s) (xds_cache s') = Some (fst (NewSnapshot (it_version it) res)) \<and>
    snd (NewSnapshot (it_version it) res) = None \<and> nodeID s' = nodeID s"
proof -
  obtain res where res: "mapServices marshal (it_orders it) snap = Inr res"
    "resources_of 0 (it_orders it) (Services snap) res"
    using mapServices_result [OF assms(1,2)] by blast
  obtain envoySnap err where ns: "NewSnapshot (it_version it) res = (envoySnap, err)" by fastforce
  obtain s1 lines err1 where up: "UpdateSnapshot sc envoySnap s = (s1, lines, err1)"
    by (metis prod_cases3)
  have "err = None" "err1 = None" "s' = s1"
    using assms(3,4) res(1) ns up
    by (auto simp: updateSnapshot_def EnvoySnapshotFromKubeSnapshot_def split: if_splits)
  with UpdateSnapshot_publishes [of envoySnap s s1 lines] up res(2) ns show ?thesis by auto
qed

end

text \<open>The cache as a map from nodes to snapshots, in which setting never fails.\<close>

definition map_cache :: "('snap, (string, 'snap) gomap) SnapshotCache" where
  "map_cache = \<lparr>SetSnapshot = (\<lambda>n snap c. (gomap_put n snap c, None)), Consistent = (\<lambda>_. None)\<rparr>"

interpretation map_cache: snapshot_cache map_cache "\<lambda>n c. gomap_get c n"
  by unfold_locales (auto simp: map_cache_def)

section \<open>Properties\<close>

definition bad_iteration :: "iteration \<Rightarrow> bool" where
  "bad_iteration it \<longleftrightarrow> (\<exists>snap. received it = Some snap \<and> bad_snapshot snap)"

lemma updateSnapshot_panic:
  assumes "marshals marshal"
  shows "if bad_iteration it then updateSnapshot marshal NewSnapshot sc it s = Inl IndexOutOfRange
    else \<exists>s' err. updateSnapshot marshal NewSnapshot sc it s = Inr (s', err) \<and> nodeID s' = nodeID s"
proof (cases "received it")
  case None
  then show ?thesis by (simp add: bad_iteration_def updateSnapshot_def)
next
  case (Some snap)
  show ?thesis
  proof (cases "bad_snapshot snap")
    case True
    then have "mapServices marshal (it_orders it) snap = Inl IndexOutOfRange"
      using mapServices_loop_panics [OF assms, of "Services snap"]
      by (simp add: mapServices_def bad_snapshot_def)
    then show ?thesis
      using True Some by (simp add: bad_iteration_def updateSnapshot_def EnvoySnapshotFromKubeSnapshot_def)
  next
    case False
    then obtain res where "mapServices marshal (it_orders it) snap = Inr res"
      using mapServices_result [OF assms] by blast
    then show ?thesis
      using False Some
      by (auto simp: bad_iteration_def updateSnapshot_def EnvoySnapshotFromKubeSnapshot_def
          UpdateSnapshot_def Let_def split: prod.split)
  qed
qed

text \<open>
  C27. The update loop of the control plane only ends early by the panic of an endpoint without
  addresses: no error of the snapshot construction or of the cache stops it.
\<close>

theorem update_loop_panics_iff:
  assumes "marshals marshal"
  shows "update_loop marshal NewSnapshot sc emptySnapshot its s = Inl p \<longleftrightarrow>
    p = IndexOutOfRange \<and> (\<exists>it \<in> set its. bad_iteration it)"
proof -
  have "go_fold (\<lambda>it s. go_bind (updateSnapshot marshal NewSnapshot sc it s) (\<lambda>(s, err). Inr s)) its s = Inl p
      \<longleftrightarrow> p = IndexOutOfRange \<and> (\<exists>it \<in> set its. bad_iteration it)" for s
  proof (induction its arbitrary: s)
    case Nil
    then show ?case by simp
  next
    case (Cons it its)
    show ?case
      using updateSnapshot_panic [OF assms, of it NewSnapshot sc s] Cons
      by (cases "bad_iteration it") auto
  qed
  then show ?thesis unfolding update_loop_def by (simp only: split_beta)
qed

definition ex_server :: "(unit, (string, string \<times> resources) gomap, unit) xdsServer" where
  "ex_server = \<lparr>nodeID = ''k8s'', xds_cache = [], listen = (), server = ()\<rparr>"

definition ex_iteration :: "snap_Snapshot \<Rightarrow> iteration" where
  "ex_iteration snap = \<lparr>received = Some snap, it_version = ''v1'', it_orders = (\<lambda>_. ex_ep_orders)\<rparr>"

theorem update_loop_panics_iff_witness:
  "update_loop (\<lambda>_. None) ex_NewSnapshot map_cache (''v0'', no_resources)
     [ex_iteration ex_snapshot, ex_iteration ex_bad_snapshot] ex_server = Inl IndexOutOfRange"
  by (subst update_loop_panics_iff)
    (simp_all add: marshals_def bad_iteration_def ex_iteration_def bad_snapshot_def ex_bad_snapshot_def
      has_bad_endpoint_def ex_slice_def)

end
