(* ===== verification/State_Mailbox.thy ===== *)
theory State_Mailbox
  imports State_Subscriber
begin

text \<open>
  The contract of \<open>pkg/state\<close> towards its client, and that the subscriber meets it. The abstract
  object is a mailbox. Writers put new contents into it and announce them; a writer is \<^emph>\<open>posting\<close>
  from the change until its announcement is delivered. A delivered announcement makes a take
  \<^emph>\<open>due\<close>, and only a take, which copies the current contents in one step, makes it undone. The
  mailbox knows nothing of the cache, the mutex, the flag or the channel.
\<close>

record mailbox =
  mb_current :: cluster_view
  mb_taken :: cluster_view
  mb_posting :: "nat set"
  mb_due :: bool

definition mailbox_init :: mailbox where
  "mailbox_init = \<lparr>mb_current = (\<lambda>_. None), mb_taken = (\<lambda>_. None), mb_posting = {}, mb_due = False\<rparr>"

inductive mailbox_step :: "mailbox \<Rightarrow> mailbox \<Rightarrow> bool" where
  mb_post: "i \<notin> mb_posting m \<Longrightarrow>
    mailbox_step m (m\<lparr>mb_current := v, mb_posting := insert i (mb_posting m)\<rparr>)"
| mb_deliver: "i \<in> mb_posting m \<Longrightarrow>
    mailbox_step m (m\<lparr>mb_posting := mb_posting m - {i}, mb_due := True\<rparr>)"
| mb_take: "mb_due m \<Longrightarrow> mailbox_step m (m\<lparr>mb_taken := mb_current m, mb_due := False\<rparr>)"

inductive_simps mailbox_step_iff: "mailbox_step m m'"

text \<open>What the mailbox guarantees: contents that were not taken are announced.\<close>

definition mailbox_announced :: "mailbox \<Rightarrow> bool" where
  "mailbox_announced m \<longleftrightarrow> (mb_taken m = mb_current m \<or> mb_due m \<or> mb_posting m \<noteq> {})"

interpretation mb: invariant_system "\<lambda>m. m = mailbox_init" mailbox_step mailbox_announced
  by unfold_locales (auto simp: mailbox_announced_def mailbox_init_def mailbox_step_iff)

section \<open>The subscriber as a mailbox\<close>

text \<open>
  A handler posts while it is in \<open>dispatchEvent\<close>. A take is due when the event is recorded as lost
  or the receiver has taken it out of the channel or the flag and not yet read the cache.
\<close>

definition mailbox_of :: "serviceStateSubscriber \<Rightarrow> mailbox" where
  "mailbox_of s =
     \<lparr>mb_current = cache_view (clusterState s), mb_taken = cache_view (snapped s),
      mb_posting = {i. handlers s i \<noteq> HIdle}, mb_due = (eventLost s \<or> receiver s = RSnapshot)\<rparr>"

lemma mailbox_of_New: "mailbox_of subscriber_New = mailbox_init"
  by (simp add: mailbox_of_def mailbox_init_def subscriber_New_def NewClusterServiceStateCache_def
      cache_view_def fun_eq_iff)

text \<open>The lock keeps the flag down while the receiver waits or reads the cache.\<close>

definition flag_inv :: "serviceStateSubscriber \<Rightarrow> bool" where
  "flag_inv s \<longleftrightarrow> (receiver s = RSelect \<or> receiver s = RSnapshot \<longrightarrow> \<not> eventLost s)"

lemma receive_step_flag: "flag_inv s \<Longrightarrow> receive_step s t \<Longrightarrow> flag_inv t"
  by (erule receive_stepE) (auto simp: flag_inv_def)

lemma dispatch_step_flag: "lock_inv s \<Longrightarrow> flag_inv s \<Longrightarrow> dispatch_step i s t \<Longrightarrow> flag_inv t"
  by (erule dispatch_stepE) (auto simp: flag_inv_def lock_inv_def)

definition mailbox_inv :: "serviceStateSubscriber \<Rightarrow> bool" where
  "mailbox_inv s \<longleftrightarrow> subscriber_inv s \<and> flag_inv s"

lemma mailbox_inv_step:
  assumes "mailbox_inv s" "subscriber_step s t"
  shows "mailbox_inv t"
proof -
  have "flag_inv t"
    using assms(2,1)
  proof cases
    case receive
    then show ?thesis using assms(1) receive_step_flag by (auto simp: mailbox_inv_def)
  next
    case (dispatch i)
    then show ?thesis
      using assms(1) dispatch_step_flag by (auto simp: mailbox_inv_def subscriber_inv_def)
  next
    case (event i e)
    then show ?thesis using assms(1) by (simp add: mailbox_inv_def flag_inv_def event_step_def split_beta)
  qed
  then show ?thesis using assms sub.step_inv by (auto simp: mailbox_inv_def)
qed

text \<open>One lemma for each kind of step.\<close>

lemma mailbox_receive_step:
  assumes "flag_inv s" "receive_step s t"
  shows "if receiver s = RSnapshot
    then mb_due (mailbox_of s) \<and>
      mailbox_of t = (mailbox_of s)\<lparr>mb_taken := mb_current (mailbox_of s), mb_due := False\<rparr>
    else mailbox_of t = mailbox_of s \<and> (receiver s = RSelect \<longrightarrow> \<not> mb_due (mailbox_of s))"
  using assms by (elim receive_stepE) (auto simp: mailbox_of_def flag_inv_def)

lemma mailbox_dispatch_step:
  assumes "dispatch_step i s t"
  shows "mailbox_of t = mailbox_of s \<or> i \<in> mb_posting (mailbox_of s) \<and>
    mailbox_of t = (mailbox_of s)\<lparr>mb_posting := mb_posting (mailbox_of s) - {i}, mb_due := True\<rparr>"
  using assms by (elim dispatch_stepE) (auto simp: mailbox_of_def)

lemma mailbox_event_step:
  assumes "handlers s i = HIdle"
  shows "mailbox_of (event_step i e s) = mailbox_of s \<or> i \<notin> mb_posting (mailbox_of s) \<and>
    (\<exists>v. mailbox_of (event_step i e s) =
       (mailbox_of s)\<lparr>mb_current := v, mb_posting := insert i (mb_posting (mailbox_of s))\<rparr>)"
proof (cases "snd (handle_event e (clusterState s))")
  case True
  then show ?thesis using assms by (auto simp: mailbox_of_def event_step_def split_beta)
next
  case False
  then show ?thesis
    using assms handle_event_no_flag [OF False]
    by (auto simp: mailbox_of_def event_step_def split_beta)
qed

interpretation mailbox: refinement "\<lambda>s. s = subscriber_New" subscriber_step mailbox_inv
  "\<lambda>m. m = mailbox_init" mailbox_step mailbox_of
proof
  show "mailbox_inv s" if "s = subscriber_New" for s
    using that subscriber_inv_New by (simp add: mailbox_inv_def flag_inv_def) (simp add: subscriber_New_def)
  show "mailbox_inv t" if "mailbox_inv s" "subscriber_step s t" for s t
    using that by (rule mailbox_inv_step)
  show "mailbox_of s = mailbox_init" if "s = subscriber_New" for s
    using that by (simp add: mailbox_of_New)
  show "mailbox_step (mailbox_of s) (mailbox_of t) \<or> mailbox_of t = mailbox_of s"
    if "mailbox_inv s" "subscriber_step s t" for s t
    using that(2)
  proof cases
    case receive
    then show ?thesis
      using mailbox_receive_step [of s t] that(1) mb_take by (metis mailbox_inv_def)
  next
    case (dispatch i)
    then show ?thesis using mailbox_dispatch_step [of i s t] mb_deliver by metis
  next
    case (event i e)
    then show ?thesis using mailbox_event_step [of s i e] mb_post by metis
  qed
qed

section \<open>Properties\<close>

text \<open>
  C6. Refinement: with any interleaving of the handlers and the receiver, every step of the
  subscriber is a step of the mailbox or none. So a changed cache is announced until it is taken.
  The step that returns a snapshot is a take that was due, and the snapshot lists what the mailbox
  holds at that step; the step that returns nil finds no take due.
\<close>

theorem subscriber_refines_mailbox:
  assumes "subscriber_reachable s" "subscriber_step s t"
  shows "reachable (\<lambda>m. m = mailbox_init) mailbox_step (mailbox_of s) \<and>
    mailbox_announced (mailbox_of s) \<and>
    (mailbox_step (mailbox_of s) (mailbox_of t) \<or> mailbox_of t = mailbox_of s) \<and>
    (receiver s = RSnapshot \<and> receiver t = RIdle \<longrightarrow>
       mb_due (mailbox_of s) \<and>
       mailbox_of t = (mailbox_of s)\<lparr>mb_taken := mb_current (mailbox_of s), mb_due := False\<rparr> \<and>
       (\<exists>snap. returned t = Some snap \<and> image_mset snap_contents (mset (Services snap)) =
         image_mset container_contents (mset (map snd (services (clusterState s)))))) \<and>
    (receiver s = RSelect \<and> receiver t = RIdle \<longrightarrow> \<not> mb_due (mailbox_of s) \<and> returned t = returned s)"
proof -
  have reach: "reachable (\<lambda>m. m = mailbox_init) mailbox_step (mailbox_of s)"
    using assms(1) by (rule mailbox.abs_reachable)
  have inv: "mailbox_inv s" using assms(1) by (rule mailbox.reachable_inv)
  have receive: "receive_step s t" if "receiver s \<noteq> RIdle" "receiver t = RIdle"
    using assms(2)
  proof cases
    case (dispatch i)
    then show ?thesis using that by (elim dispatch_stepE) auto
  next
    case (event i e)
    then show ?thesis using that by (simp add: event_step_def split_beta)
  qed
  have taken: "mb_due (mailbox_of s) \<and>
      mailbox_of t = (mailbox_of s)\<lparr>mb_taken := mb_current (mailbox_of s), mb_due := False\<rparr> \<and>
      (\<exists>snap. returned t = Some snap \<and> image_mset snap_contents (mset (Services snap)) =
         image_mset container_contents (mset (map snd (services (clusterState s)))))"
    if r: "receiver s = RSnapshot" "receiver t = RIdle"
  proof -
    have step: "receive_step s t" using receive r by simp
    then obtain os where "valid_snapshot_orders os" "returned t = Some (cache_Snapshot os (clusterState s))"
      using r(1) by (elim receive_stepE) auto
    then show ?thesis
      using mailbox_receive_step [OF _ step] r(1) inv snapshot_contents
      by (auto simp: mailbox_inv_def subscriber_inv_def)
  qed
  have nil: "\<not> mb_due (mailbox_of s) \<and> returned t = returned s"
    if "receiver s = RSelect" "receiver t = RIdle"
  proof -
    have step: "receive_step s t" using receive that by simp
    then have "returned t = returned s" using that(1) by (elim receive_stepE) auto
    then show ?thesis using mailbox_receive_step [OF _ step] that(1) inv by (simp add: mailbox_inv_def)
  qed
  show ?thesis
    using reach mb.reachable_inv [OF reach] mailbox.abs_step [OF inv assms(2)] taken nil by blast
qed

text \<open>The run in which a recorded event is taken: its last step is a take.\<close>

definition ex_taking :: serviceStateSubscriber where
  "ex_taking = ex_lost\<lparr>receiver := RSnapshot, eventLostLock := Some Receiver, eventLost := False\<rparr>"

lemma ex_taking_reachable: "subscriber_reachable ex_taking"
proof -
  let ?a = "ex_lost\<lparr>receiver := RLocked, eventLostLock := Some Receiver\<rparr>"
  have "subscriber_reachable ?a"
    by (rule subscriber_next [OF ex_lost_reachable])
      (intro subscriber_step.receive receive_step.recv_lock, simp_all add: ex_lost_eq)
  then have "subscriber_reachable (?a\<lparr>eventLost := False, receiver := RSnapshot\<rparr>)"
    by (rule subscriber_next) (intro subscriber_step.receive receive_step.recv_lost, simp_all add: ex_lost_eq)
  then show ?thesis by (simp add: ex_taking_def ex_lost_eq)
qed

theorem subscriber_refines_mailbox_witness:
  "\<exists>t. subscriber_step ex_taking t \<and> mb_due (mailbox_of ex_taking) \<and> \<not> mb_due (mailbox_of t) \<and>
    mb_taken (mailbox_of t) = mb_current (mailbox_of ex_taking)"
proof -
  let ?t = "ex_taking\<lparr>receiver := RIdle, eventLostLock := None,
      returned := Some (cache_Snapshot ex_orders (clusterState ex_taking)), snapped := clusterState ex_taking\<rparr>"
  have step: "subscriber_step ex_taking ?t"
    by (intro subscriber_step.receive recv_snapshot_cache) (simp_all add: ex_taking_def valid_ex_orders)
  have "mb_due (mailbox_of ex_taking) \<and>
      mailbox_of ?t = (mailbox_of ex_taking)\<lparr>mb_taken := mb_current (mailbox_of ex_taking), mb_due := False\<rparr>"
    using subscriber_refines_mailbox [OF ex_taking_reachable step] by (simp add: ex_taking_def)
  then show ?thesis using step by (intro exI [of _ ?t]) simp
qed

end
