(* ===== verification/State_Informers.thy ===== *)
theory State_Informers
  imports State_Mailbox
begin

text \<open>
  The informers in front of \<open>pkg/state\<close> (\<open>NewServiceConfig\<close> and \<open>NewEndpointSliceConfig\<close> of the
  control plane). Each of the two keeps a store of the objects it watches, by namespace and name,
  and calls the handlers of the subscriber for every change, and again for every object at each
  resync; the calls of the two interleave in any order. The events of a store are those that
  client-go documents: an addition of an object that was not there, an update from the object
  that was there to another one, a deletion of an object that was there.

  The cache can only follow the stores under conditions that Kubernetes does not guarantee, because
  it keys services by name only and compares versions as strings. They are stated here as what
  they are, conditions on a history: \<open>names_identify\<close> and \<open>versions_ascend\<close>.
\<close>

type_synonym object_key = "string \<times> string"

record informer_stores =
  store_services :: "object_key \<Rightarrow> Service option"
  store_slices :: "object_key \<Rightarrow> EndpointSlice option"

abbreviation no_objects :: informer_stores where
  "no_objects \<equiv> \<lparr>store_services = Map.empty, store_slices = Map.empty\<rparr>"

abbreviation object_key :: "'a ObjectMeta_scheme \<Rightarrow> object_key" where
  "object_key x \<equiv> (Namespace x, Name x)"

abbreviation slice_service :: "EndpointSlice \<Rightarrow> string option" where
  "slice_service es \<equiv> gomap_get (Labels es) LabelServiceName"

fun store_change :: "kube_event \<Rightarrow> informer_stores \<Rightarrow> informer_stores" where
  "store_change (ServiceAdd (Some svc)) w =
     w\<lparr>store_services := (store_services w)(object_key svc \<mapsto> svc)\<rparr>"
| "store_change (ServiceUpdate _ (Some svc)) w =
     w\<lparr>store_services := (store_services w)(object_key svc \<mapsto> svc)\<rparr>"
| "store_change (ServiceDelete (Some svc)) w =
     w\<lparr>store_services := (store_services w)(object_key svc := None)\<rparr>"
| "store_change (EndpointSliceAdd (Some es)) w =
     w\<lparr>store_slices := (store_slices w)(object_key es \<mapsto> es)\<rparr>"
| "store_change (EndpointSliceUpdate _ (Some es)) w =
     w\<lparr>store_slices := (store_slices w)(object_key es \<mapsto> es)\<rparr>"
| "store_change (EndpointSliceDelete (Some es)) w =
     w\<lparr>store_slices := (store_slices w)(object_key es := None)\<rparr>"
| "store_change _ w = w"

text \<open>Which events an informer with these stores sends.\<close>

fun store_sends :: "informer_stores \<Rightarrow> kube_event \<Rightarrow> bool" where
  "store_sends w (ServiceAdd (Some svc)) \<longleftrightarrow> store_services w (object_key svc) = None"
| "store_sends w (ServiceUpdate (Some old) (Some svc)) \<longleftrightarrow> store_services w (object_key svc) = Some old"
| "store_sends w (ServiceDelete (Some svc)) \<longleftrightarrow> store_services w (object_key svc) \<noteq> None"
| "store_sends w (EndpointSliceAdd (Some es)) \<longleftrightarrow> store_slices w (object_key es) = None"
| "store_sends w (EndpointSliceUpdate (Some old) (Some es)) \<longleftrightarrow> store_slices w (object_key es) = Some old"
| "store_sends w (EndpointSliceDelete (Some es)) \<longleftrightarrow> store_slices w (object_key es) \<noteq> None"
| "store_sends w ServiceSynced \<longleftrightarrow> True"
| "store_sends w EndpointSlicesSynced \<longleftrightarrow> True"
| "store_sends w _ \<longleftrightarrow> False"

fun stores_send :: "informer_stores \<Rightarrow> kube_event list \<Rightarrow> bool" where
  "stores_send w [] \<longleftrightarrow> True"
| "stores_send w (e # es) \<longleftrightarrow> store_sends w e \<and> stores_send (store_change e w) es"

abbreviation stores_after :: "kube_event list \<Rightarrow> informer_stores" where
  "stores_after es \<equiv> fold store_change es no_objects"

text \<open>A resync: every slice of the store is sent once more, as an update to itself, and so are services.\<close>

definition resync_event :: "informer_stores \<Rightarrow> kube_event \<Rightarrow> bool" where
  "resync_event w e \<longleftrightarrow>
     (\<exists>svc. e = ServiceUpdate (Some svc) (Some svc) \<and> store_services w (object_key svc) = Some svc) \<or>
     (\<exists>es. e = EndpointSliceUpdate (Some es) (Some es) \<and> store_slices w (object_key es) = Some es)"

definition resync :: "informer_stores \<Rightarrow> kube_event list \<Rightarrow> bool" where
  "resync w rs \<longleftrightarrow> (\<forall>e \<in> set rs. resync_event w e) \<and>
     (\<forall>es. store_slices w (object_key es) = Some es \<longrightarrow> EndpointSliceUpdate (Some es) (Some es) \<in> set rs)"

text \<open>
  The first condition: a name of a service occurs in one namespace only, in which its slices are,
  and a slice keeps the service it belongs to. The second: every update has a greater version, in
  the order of strings, or is none.
\<close>

fun event_services :: "kube_event \<Rightarrow> Service set" where
  "event_services (ServiceAdd svc) = set_option svc"
| "event_services (ServiceUpdate old svc) = set_option svc"
| "event_services (ServiceDelete svc) = set_option svc"
| "event_services _ = {}"

fun event_slices :: "kube_event \<Rightarrow> EndpointSlice set" where
  "event_slices (EndpointSliceAdd es) = set_option es"
| "event_slices (EndpointSliceUpdate old es) = set_option es"
| "event_slices (EndpointSliceDelete es) = set_option es"
| "event_slices _ = {}"

definition homed :: "(string \<Rightarrow> string) \<Rightarrow> (object_key \<Rightarrow> string option) \<Rightarrow> Service set \<Rightarrow> EndpointSlice set \<Rightarrow> bool" where
  "homed home owner svcs slices \<longleftrightarrow>
     (\<forall>svc \<in> svcs. Namespace svc = home (Name svc)) \<and>
     (\<forall>es \<in> slices. slice_service es = owner (object_key es) \<and>
        (\<forall>n. slice_service es = Some n \<longrightarrow> Namespace es = home n))"

definition names_identify :: "kube_event list \<Rightarrow> bool" where
  "names_identify h \<longleftrightarrow> (\<exists>home owner. \<forall>e \<in> set h. homed home owner (event_services e) (event_slices e))"

fun ascends :: "kube_event \<Rightarrow> bool" where
  "ascends (ServiceUpdate (Some old) (Some svc)) \<longleftrightarrow> svc = old \<or> ResourceVersion old < ResourceVersion svc"
| "ascends (EndpointSliceUpdate (Some old) (Some es)) \<longleftrightarrow> es = old \<or> ResourceVersion old < ResourceVersion es"
| "ascends _ \<longleftrightarrow> True"

definition versions_ascend :: "kube_event list \<Rightarrow> bool" where
  "versions_ascend h \<longleftrightarrow> (\<forall>e \<in> set h. ascends e)"

text \<open>What the cache should hold: the services of the store, each with its slices.\<close>

definition store_view :: "(string \<Rightarrow> string) \<Rightarrow> informer_stores \<Rightarrow> cluster_view" where
  "store_view home w k =
     (case store_services w (home k, k) of
        None \<Rightarrow> None
      | Some svc \<Rightarrow> Some (svc, \<lambda>n. case store_slices w (home k, n) of
            None \<Rightarrow> None
          | Some es \<Rightarrow> if slice_service es = Some k then Some es else None))"

definition store_contents :: "informer_stores \<Rightarrow> (Service \<times> EndpointSlice multiset) multiset" where
  "store_contents w =
     image_mset (\<lambda>svc. (svc, mset_set {es \<in> ran (store_slices w).
         slice_service es = Some (Name svc) \<and> Namespace es = Namespace svc}))
       (mset_set (ran (store_services w)))"

section \<open>The cache follows the stores\<close>

text \<open>
  After every event the cache has exactly the services of the store, and only current slices
  of them; slices may be missing.
\<close>

definition keyed :: "informer_stores \<Rightarrow> bool" where
  "keyed w \<longleftrightarrow> (\<forall>k svc. store_services w k = Some svc \<longrightarrow> object_key svc = k) \<and>
     (\<forall>k es. store_slices w k = Some es \<longrightarrow> object_key es = k)"

definition store_homed :: "(string \<Rightarrow> string) \<Rightarrow> (object_key \<Rightarrow> string option) \<Rightarrow> informer_stores \<Rightarrow> bool" where
  "store_homed home owner w \<longleftrightarrow> keyed w \<and> homed home owner (ran (store_services w)) (ran (store_slices w))"

lemma keyed_change: "keyed w \<Longrightarrow> keyed (store_change e w)"
  by (cases "(e, w)" rule: store_change.cases) (auto simp: keyed_def)

lemma store_homed_change:
  assumes "store_homed home owner w" "homed home owner (event_services e) (event_slices e)"
  shows "store_homed home owner (store_change e w)"
proof -
  have "ran (store_services (store_change e w)) \<subseteq> ran (store_services w) \<union> event_services e"
    "ran (store_slices (store_change e w)) \<subseteq> ran (store_slices w) \<union> event_slices e"
    by (cases "(e, w)" rule: store_change.cases; auto simp: ran_def)+
  then have "homed home owner (ran (store_services (store_change e w))) (ran (store_slices (store_change e w)))"
    using assms unfolding store_homed_def homed_def by blast
  then show ?thesis using assms(1) keyed_change by (simp add: store_homed_def)
qed

text \<open>The service and the slices of a view, one name at a time, and what events do to them.\<close>

definition view_service :: "cluster_view \<Rightarrow> string \<Rightarrow> Service option" where
  "view_service v k = map_option fst (v k)"

definition view_slice :: "cluster_view \<Rightarrow> string \<Rightarrow> string \<Rightarrow> EndpointSlice option" where
  "view_slice v k n = (case v k of None \<Rightarrow> None | Some (svc, sl) \<Rightarrow> sl n)"

lemma view_eqI:
  assumes "\<And>k. view_service v k = view_service u k" "\<And>k n. view_slice v k n = view_slice u k n"
  shows "v = u"
proof
  fix k
  show "v k = u k"
    using assms(1) [of k] assms(2) [of k]
    by (cases "v k"; cases "u k") (auto simp: view_service_def view_slice_def fun_eq_iff)
qed

lemma view_service_put: "view_service (view_put_service svc v) k =
    (if k = Name svc \<and> (\<forall>old. view_service v k = Some old \<longrightarrow> ResourceVersion old < ResourceVersion svc)
     then Some svc else view_service v k)"
  by (auto simp: view_service_def view_put_service_def split: option.split)

lemma view_slice_put: "view_slice (view_put_service svc v) k n = view_slice v k n"
  by (auto simp: view_slice_def view_put_service_def split: option.split)

lemma view_service_slice [simp]: "view_service (view_UpdatEndpointSlice es d v) k = view_service v k"
  by (auto simp: view_service_def view_UpdatEndpointSlice_def view_put_slice_def view_del_slice_def
      split: option.split)

lemma view_slice_slice: "view_slice (view_UpdatEndpointSlice (Some es) False v) k n =
    (if slice_service es = Some k \<and> n = Name es \<and> view_service v k \<noteq> None \<and>
       (\<forall>old. view_slice v k n = Some old \<longrightarrow> ResourceVersion old < ResourceVersion es)
     then Some es else view_slice v k n)"
  by (auto simp: view_service_def view_slice_def view_UpdatEndpointSlice_def view_put_slice_def
      split: option.split)

lemma view_slice_del: "view_slice (view_UpdatEndpointSlice (Some es) True v) k n =
    (if slice_service es = Some k \<and> n = Name es then None else view_slice v k n)"
  by (auto simp: view_slice_def view_UpdatEndpointSlice_def view_del_slice_def split: option.split)

lemma view_service_None: "view_service v k = None \<Longrightarrow> view_slice v k n = None"
  by (simp add: view_service_def view_slice_def)

lemma view_remove:
  "view_service (v(j := None)) k = (if k = j then None else view_service v k)"
  "view_slice (v(j := None)) k n = (if k = j then None else view_slice v k n)"
  by (simp_all add: view_service_def view_slice_def)

lemmas view_updates = view_service_put view_slice_put view_slice_slice view_slice_del view_remove

definition follows :: "(string \<Rightarrow> string) \<Rightarrow> cluster_view \<Rightarrow> informer_stores \<Rightarrow> bool" where
  "follows home v w \<longleftrightarrow> (\<forall>k. view_service v k = store_services w (home k, k)) \<and>
     (\<forall>k n es. view_slice v k n = Some es \<longrightarrow> store_slices w (home k, n) = Some es \<and> slice_service es = Some k)"

lemma follows_empty: "follows home Map.empty no_objects"
  by (simp add: follows_def view_service_def view_slice_def)

lemma follows_put_service:
  assumes "follows home v w" "Namespace svc = home (Name svc)"
    and "\<And>old. store_services w (object_key svc) = Some old \<Longrightarrow> svc = old \<or> ResourceVersion old < ResourceVersion svc"
  shows "follows home (view_put_service svc v) (w\<lparr>store_services := (store_services w)(object_key svc \<mapsto> svc)\<rparr>)"
  using assms by (auto simp: follows_def view_updates)

lemma follows_del_service:
  "follows home v w \<Longrightarrow> ns = home k \<Longrightarrow>
    follows home (v(k := None)) (w\<lparr>store_services := (store_services w)((ns, k) := None)\<rparr>)"
  by (auto simp: follows_def view_updates)

lemma follows_put_slice:
  assumes "follows home v w" "\<And>n. slice_service es = Some n \<Longrightarrow> Namespace es = home n"
    and "\<And>old. store_slices w (object_key es) = Some old \<Longrightarrow>
      slice_service es = slice_service old \<and> (es = old \<or> ResourceVersion old < ResourceVersion es)"
  shows "follows home (view_UpdatEndpointSlice (Some es) False v)
    (w\<lparr>store_slices := (store_slices w)(object_key es \<mapsto> es)\<rparr>)"
proof -
  let ?w = "w\<lparr>store_slices := (store_slices w)(object_key es \<mapsto> es)\<rparr>"
  have "store_slices ?w (home k, n) = Some e \<and> slice_service e = Some k"
    if new: "view_slice (view_UpdatEndpointSlice (Some es) False v) k n = Some e" for k n e
  proof (cases "view_slice v k n = Some e")
    case False
    then have "e = es" "slice_service es = Some k" "n = Name es"
      using new by (auto simp: view_slice_slice split: if_splits)
    then show ?thesis using assms(2) [of k] by simp
  next
    case True
    then have old: "store_slices w (home k, n) = Some e" "slice_service e = Some k" "view_service v k \<noteq> None"
      using assms(1) view_service_None [of v k n] by (auto simp: follows_def)
    show ?thesis
    proof (cases "(home k, n) = object_key es \<and> e \<noteq> es")
      case True
      with assms(3) [of e] old have "slice_service es = Some k" "ResourceVersion e < ResourceVersion es" by auto
      then show ?thesis using new old True \<open>view_slice v k n = Some e\<close> by (simp add: view_slice_slice)
    qed (use old in auto)
  qed
  then show ?thesis using assms(1) by (auto simp: follows_def)
qed

lemma follows_del_slice:
  assumes "follows home v w" "\<And>n. slice_service es = Some n \<Longrightarrow> Namespace es = home n"
    and "\<And>cur. store_slices w (object_key es) = Some cur \<Longrightarrow> slice_service cur = slice_service es"
  shows "follows home (view_UpdatEndpointSlice (Some es) True v)
    (w\<lparr>store_slices := (store_slices w)(object_key es := None)\<rparr>)"
proof -
  have "view_slice v k (Name es) = None" if k: "slice_service es \<noteq> Some k" "home k = Namespace es" for k
  proof (cases "view_slice v k (Name es)")
    case (Some a)
    then have "store_slices w (object_key es) = Some a" "slice_service a = Some k"
      using assms(1) unfolding follows_def k(2) [symmetric] by blast+
    then show ?thesis using assms(3) k(1) by simp
  qed simp
  then show ?thesis
    using assms(1,2) unfolding follows_def view_service_slice view_slice_del
    by (auto split: if_splits)
qed

lemma stored_slice_owner:
  assumes "store_homed home owner w" "slice_service es = owner (object_key es)"
    and "store_slices w (object_key es) = Some old"
  shows "slice_service old = slice_service es"
proof -
  have "object_key old = object_key es" using assms(1,3) by (auto simp: store_homed_def keyed_def)
  moreover have "slice_service old = owner (object_key old)"
    using assms(1,3) ranI [of "store_slices w", OF assms(3)] by (simp add: store_homed_def homed_def)
  ultimately show ?thesis using assms(2) by simp
qed

lemma follows_event:
  assumes "follows home v w" "store_homed home owner w" "homed home owner (event_services e) (event_slices e)"
    and "store_sends w e" "ascends e"
  shows "follows home (view_event e v) (store_change e w)"
proof -
  have put: "follows home (view_put_service svc v) (w\<lparr>store_services := (store_services w)(object_key svc \<mapsto> svc)\<rparr>)"
    if "event_services e = {svc}"
      "\<And>old. store_services w (object_key svc) = Some old \<Longrightarrow> svc = old \<or> ResourceVersion old < ResourceVersion svc"
    for svc
    using assms(3) that by (intro follows_put_service [OF assms(1)]) (simp_all add: homed_def)
  have slice: "follows home (view_UpdatEndpointSlice (Some es) False v)
      (w\<lparr>store_slices := (store_slices w)(object_key es \<mapsto> es)\<rparr>)"
    if "event_slices e = {es}"
      "\<And>old. store_slices w (object_key es) = Some old \<Longrightarrow> es = old \<or> ResourceVersion old < ResourceVersion es"
    for es
    using assms(3) that stored_slice_owner [OF assms(2), of es]
    by (intro follows_put_slice [OF assms(1)]) (simp_all add: homed_def)
  show ?thesis
  proof (cases "(w, e)" rule: store_sends.cases)
    case (1 w' svc)
    then show ?thesis using put [of svc] assms(4) by (simp add: view_UpdateServices_def)
  next
    case (2 w' old svc)
    then show ?thesis using put [of svc] assms(4,5) by (simp add: view_UpdateServices_def)
  next
    case (3 w' svc)
    then show ?thesis
      using follows_del_service [OF assms(1)] assms(3) by (simp add: homed_def view_UpdateServices_def)
  next
    case (4 w' es)
    then show ?thesis using slice [of es] assms(4) by simp
  next
    case (5 w' old es)
    then show ?thesis using slice [of es] assms(4,5) by simp
  next
    case (6 w' es)
    then have "follows home (view_UpdatEndpointSlice (Some es) True v)
        (w\<lparr>store_slices := (store_slices w)(object_key es := None)\<rparr>)"
      using assms(3) stored_slice_owner [OF assms(2), of es]
      by (intro follows_del_slice [OF assms(1)]) (simp_all add: homed_def)
    then show ?thesis using 6 by simp
  qed (use assms in simp_all)
qed

lemma follows_events:
  assumes "follows home v w" "store_homed home owner w" "stores_send w es" "versions_ascend es"
    and "\<forall>e \<in> set es. homed home owner (event_services e) (event_slices e)"
  shows "follows home (fold view_event es v) (fold store_change es w) \<and>
    store_homed home owner (fold store_change es w)"
  using assms
proof (induction es arbitrary: v w)
  case Nil
  then show ?case by simp
next
  case (Cons e es)
  then have e: "store_sends w e" "ascends e" "homed home owner (event_services e) (event_slices e)"
    by (simp_all add: versions_ascend_def)
  show ?case
    using Cons.IH [OF follows_event [OF Cons.prems(1,2) e(3,1,2)] store_homed_change [OF Cons.prems(2) e(3)]]
      Cons.prems by (simp add: versions_ascend_def)
qed

section \<open>Resynchronisation\<close>

lemma resync_stores:
  assumes "resync_event w e"
  shows "store_sends w e" "store_change e w = w" "ascends e"
    "event_services e \<subseteq> ran (store_services w)" "event_slices e \<subseteq> ran (store_slices w)"
  using assms by (auto simp: resync_event_def fun_upd_idem intro: ranI)

lemma resync_event_keeps:
  assumes "follows home v w" "store_homed home owner w" "resync_event w e" "view_slice v k n = Some es"
  shows "view_slice (view_event e v) k n = Some es"
proof -
  have es: "store_slices w (home k, n) = Some es" using assms(1,4) by (simp add: follows_def)
  consider svc where "e = ServiceUpdate (Some svc) (Some svc)"
    | x where "e = EndpointSliceUpdate (Some x) (Some x)" "store_slices w (object_key x) = Some x"
    using assms(3) by (auto simp: resync_event_def)
  then show ?thesis
  proof cases
    case 1
    then show ?thesis using assms(4) by (simp add: view_UpdateServices_def view_updates)
  next
    case 2
    then have "x \<in> ran (store_slices w)" by (auto intro: ranI)
    then have "Namespace x = home k" if "slice_service x = Some k"
      using assms(2) that by (simp add: store_homed_def homed_def)
    then show ?thesis using 2 es assms(4) by (auto simp: view_slice_slice)
  qed
qed

lemma resync_event_delivers:
  assumes "follows home v w" "store_slices w (object_key es) = Some es" "slice_service es = Some k"
    and "Namespace es = home k" "view_service v k \<noteq> None"
  shows "view_slice (view_event (EndpointSliceUpdate (Some es) (Some es)) v) k (Name es) = Some es"
  using assms unfolding follows_def by (cases "view_slice v k (Name es)") (auto simp: view_slice_slice)

lemma resync_fold:
  assumes "follows home v w" "store_homed home owner w" "\<forall>e \<in> set rs. resync_event w e"
  shows "follows home (fold view_event rs v) w \<and>
    (\<forall>k n es. view_slice v k n = Some es \<longrightarrow> view_slice (fold view_event rs v) k n = Some es) \<and>
    (\<forall>k es. EndpointSliceUpdate (Some es) (Some es) \<in> set rs \<longrightarrow> slice_service es = Some k \<longrightarrow>
       store_services w (home k, k) \<noteq> None \<longrightarrow> view_slice (fold view_event rs v) k (Name es) = Some es)"
  using assms(1,3)
proof (induction rs arbitrary: v)
  case Nil
  then show ?case by simp
next
  case (Cons e rs)
  then have e: "resync_event w e" and rs: "\<forall>e \<in> set rs. resync_event w e" by simp_all
  note sent = resync_stores [OF e]
  have "homed home owner (event_services e) (event_slices e)"
    using assms(2) sent(4,5) unfolding store_homed_def homed_def by blast
  then have f: "follows home (view_event e v) w"
    using follows_event [OF Cons.prems(1) assms(2) _ sent(1,3)] sent(2) by simp
  note IH = Cons.IH [OF f rs]
  have "view_slice (view_event e v) k (Name es) = Some es"
    if es: "e = EndpointSliceUpdate (Some es) (Some es)" "slice_service es = Some k"
      "store_services w (home k, k) \<noteq> None" for k es
  proof -
    have "store_slices w (object_key es) = Some es" using e es(1) by (auto simp: resync_event_def)
    moreover from this have "Namespace es = home k"
      using assms(2) es(2) ranI [of "store_slices w" "object_key es" es] unfolding store_homed_def homed_def by blast
    moreover have "view_service v k \<noteq> None" using Cons.prems(1) es(3) by (simp add: follows_def)
    ultimately show ?thesis using resync_event_delivers [OF Cons.prems(1) _ es(2)] es(1) by blast
  qed
  then show ?case
    using IH resync_event_keeps [OF Cons.prems(1) assms(2) e] by (auto simp del: view_event.simps)
qed

lemma resync_view:
  assumes "follows home v w" "store_homed home owner w" "resync w rs"
  shows "fold view_event rs v = store_view home w"
proof (rule view_eqI)
  have rs: "\<forall>e \<in> set rs. resync_event w e" using assms(3) by (simp add: resync_def)
  note fold = resync_fold [OF assms(1,2) rs]
  fix k
  show service: "view_service (fold view_event rs v) k = view_service (store_view home w) k"
    using fold by (auto simp: follows_def view_service_def [of "store_view home w"] store_view_def split: option.split)
  fix n
  have keyed: "store_slices w (home k, n) = Some es \<Longrightarrow> object_key es = (home k, n)" for es
    using assms(2) by (auto simp: store_homed_def keyed_def)
  show "view_slice (fold view_event rs v) k n = view_slice (store_view home w) k n"
  proof (cases "view_slice (fold view_event rs v) k n")
    case None
    have "\<not> (store_slices w (home k, n) = Some es \<and> slice_service es = Some k \<and>
        store_services w (home k, k) \<noteq> None)" for es
    proof
      assume es: "store_slices w (home k, n) = Some es \<and> slice_service es = Some k \<and>
        store_services w (home k, k) \<noteq> None"
      then have "EndpointSliceUpdate (Some es) (Some es) \<in> set rs"
        using assms(3) keyed [of es] by (simp add: resync_def)
      with fold es None keyed [of es] show False by force
    qed
    with None show ?thesis
      by (auto simp: view_slice_def [of "store_view home w"] store_view_def split: option.split)
  next
    case (Some es)
    then have "store_slices w (home k, n) = Some es" "slice_service es = Some k" "store_services w (home k, k) \<noteq> None"
      using fold view_service_None [of "fold view_event rs v" k n] by (auto simp: follows_def)
    with Some show ?thesis by (auto simp: view_slice_def [of "store_view home w"] store_view_def)
  qed
qed

section \<open>Contents of a store\<close>

lemma mset_values:
  assumes "gomap_wf m" "\<forall>(k, v) \<in> set m. name v = k"
  shows "mset (map snd m) = mset_set (ran (gomap_get m))"
proof -
  have "distinct (map fst m)" using assms(1) by (simp add: gomap_wf_def)
  moreover have "inj_on snd (set m)"
  proof (rule inj_onI)
    fix x y
    assume "x \<in> set m" "y \<in> set m" "snd x = snd y"
    with assms(2) have "fst x = fst y" by (metis (mono_tags, lifting) case_prodE fst_conv snd_conv)
    with \<open>snd x = snd y\<close> show "x = y" by (simp add: prod_eq_iff)
  qed
  ultimately have "distinct (map snd m)" by (simp add: distinct_map)
  moreover have "gomap_get m = map_of m" by (rule ext) (simp add: gomap_get_def)
  then have "set (map snd m) = ran (gomap_get m)"
    using \<open>distinct (map fst m)\<close> by (simp add: ran_distinct)
  ultimately show ?thesis by (metis mset_set_set)
qed

lemma contents_of_store:
  assumes "cache_inv c" "cache_view c = store_view home w" "store_homed home owner w"
  shows "image_mset container_contents (mset (map snd (services c))) = store_contents w"
proof -
  let ?C = "ran (gomap_get (services c))"
  let ?slices = "\<lambda>svc. {es \<in> ran (store_slices w). slice_service es = Some (Name svc) \<and> Namespace es = Namespace svc}"
  have inv: "Name (obj sc) = k \<and> container_inv sc" if "gomap_get (services c) k = Some sc" for k sc
    using cache_inv_get [OF assms(1) that] .
  have get: "map_option obj (gomap_get (services c) k) = store_services w (home k, k)" for k
    using fun_cong [OF assms(2), of k] by (auto simp: cache_view_def store_view_def split: option.splits)
  have inj: "inj_on obj ?C"
  proof (rule inj_onI)
    fix x y
    assume "x \<in> ?C" "y \<in> ?C" and eq: "obj x = obj y"
    then obtain k j where "gomap_get (services c) k = Some x" "gomap_get (services c) j = Some y"
      by (auto simp: ran_def)
    moreover from this have "k = j" using inv eq by metis
    ultimately show "x = y" by simp
  qed
  have keys: "k = (home (Name svc), Name svc)" if "store_services w k = Some svc" for k svc
    using assms(3) that ranI [of "store_services w", OF that] by (cases k) (auto simp: store_homed_def keyed_def homed_def)
  have objs: "ran (store_services w) = obj ` ?C"
  proof (intro equalityI subsetI)
    fix svc
    assume "svc \<in> ran (store_services w)"
    then have "store_services w (home (Name svc), Name svc) = Some svc" using keys by (auto simp: ran_def)
    then show "svc \<in> obj ` ?C" by (auto simp: get [symmetric] intro!: imageI ranI)
  next
    fix svc
    assume "svc \<in> obj ` ?C"
    then obtain sc k where "gomap_get (services c) k = Some sc" "svc = obj sc" by (auto simp: ran_def)
    then show "svc \<in> ran (store_services w)" using get [of k] by (auto intro: ranI)
  qed
  have "container_contents sc = (obj sc, mset_set (?slices (obj sc)))" if sc: "sc \<in> ?C" for sc
  proof -
    obtain k where k: "gomap_get (services c) k = Some sc" using sc by (auto simp: ran_def)
    then have sl: "slices_inv sc" "Name (obj sc) = k" using inv by (auto simp: container_inv_def)
    have ns: "Namespace (obj sc) = home k" using keys [of "(home k, k)" "obj sc"] get [of k] k
      assms(3) ranI [of "store_services w" "(home k, k)" "obj sc"] sl(2) by (simp add: store_homed_def homed_def)
    have "gomap_get (endpointSlices sc) n = (case store_slices w (home k, n) of
        None \<Rightarrow> None | Some es \<Rightarrow> if slice_service es = Some k then Some es else None)" for n
      using fun_cong [OF assms(2), of k] k
      by (auto simp: cache_view_def store_view_def fun_eq_iff split: option.splits)
    moreover have "object_key es = j" if "store_slices w j = Some es" for j es
      using assms(3) that by (cases j) (auto simp: store_homed_def keyed_def)
    ultimately have "ran (gomap_get (endpointSlices sc)) = ?slices (obj sc)"
      unfolding ns sl(2) by (fastforce simp: ran_def split: option.splits if_splits)
    then show ?thesis
      using mset_values [of "endpointSlices sc" Name] sl(1) by (simp add: container_contents_def slices_inv_def)
  qed
  then have eq: "image_mset container_contents (mset_set ?C) =
      image_mset (\<lambda>sc. (obj sc, mset_set (?slices (obj sc)))) (mset_set ?C)"
    by (intro image_mset_cong) (cases "finite ?C"; simp)
  have "mset (map snd (services c)) = mset_set ?C"
    using assms(1) by (intro mset_values [where name = "\<lambda>sc. Name (obj sc)"]) (auto simp: cache_inv_def)
  moreover have "mset_set (ran (store_services w)) = image_mset obj (mset_set ?C)"
    unfolding objs by (rule image_mset_mset_set [OF inj, symmetric])
  ultimately show ?thesis
    by (simp add: store_contents_def eq image_mset.compositionality comp_def)
qed

lemma finite_stores:
  "finite (ran (store_services (stores_after h)))" "finite (ran (store_slices (stores_after h)))"
proof -
  have "finite (dom (store_services (store_change e w))) \<and> finite (dom (store_slices (store_change e w)))"
    if "finite (dom (store_services w)) \<and> finite (dom (store_slices w))" for e w
    using that by (induction e w rule: store_change.induct) simp_all
  then have "finite (dom (store_services (stores_after h))) \<and> finite (dom (store_slices (stores_after h)))"
    by (induction h rule: rev_induct) simp_all
  then show "finite (ran (store_services (stores_after h)))" "finite (ran (store_slices (stores_after h)))"
    by (auto intro: finite_ran)
qed

lemma contents_list_slice:
  assumes "image_mset snap_contents (mset (Services snap)) = store_contents (stores_after h)"
    and "svc \<in> ran (store_services (stores_after h))" "es \<in> ran (store_slices (stores_after h))"
    and "slice_service es = Some (Name svc)" "Namespace es = Namespace svc"
  shows "\<exists>s \<in> set (Services snap). Obj s = svc \<and> es \<in> set (EndpointSlices s)"
proof -
  let ?slices = "mset_set {es \<in> ran (store_slices (stores_after h)).
      slice_service es = Some (Name svc) \<and> Namespace es = Namespace svc}"
  have "(svc, ?slices) \<in># store_contents (stores_after h)"
    using assms(2) finite_stores(1) by (simp add: store_contents_def)
  then obtain s where s: "s \<in> set (Services snap)" "snap_contents s = (svc, ?slices)"
    unfolding assms(1) [symmetric] by (metis (no_types, lifting) imageE set_image_mset set_mset_mset)
  then have "Obj s = svc" "mset (EndpointSlices s) = ?slices" by (auto simp: snap_contents_def)
  moreover have "es \<in># ?slices" using assms(3-5) finite_stores(2) by simp
  ultimately show ?thesis using s(1) by (metis set_mset_mset)
qed

section \<open>Runs of the subscriber with their events\<close>

inductive subscriber_run :: "kube_event list \<Rightarrow> serviceStateSubscriber \<Rightarrow> bool" where
  run_New: "subscriber_run [] subscriber_New"
| run_receive: "subscriber_run es s \<Longrightarrow> receive_step s t \<Longrightarrow> subscriber_run es t"
| run_dispatch: "subscriber_run es s \<Longrightarrow> dispatch_step i s t \<Longrightarrow> subscriber_run es t"
| run_event: "subscriber_run es s \<Longrightarrow> handlers s i = HIdle \<Longrightarrow> subscriber_run (es @ [e]) (event_step i e s)"

lemma subscriber_run_reachable: "subscriber_run es s \<Longrightarrow> subscriber_reachable s"
  by (induction rule: subscriber_run.induct)
    (auto intro: reachable.intros subscriber_step.intros)

lemma receive_step_cache: "receive_step s t \<Longrightarrow> clusterState t = clusterState s"
  by (erule receive_stepE) simp_all

lemma subscriber_run_cache:
  "subscriber_run es s \<Longrightarrow> clusterState s = run_events es NewClusterServiceStateCache"
  by (induction rule: subscriber_run.induct)
    (auto simp: subscriber_New_def run_events_def receive_step_cache event_step_def split_beta
      dest: dispatch_step_frame)

text \<open>
  Every history has a run in which nothing stays pending: each handler finishes before the next
  event, and \<open>ReceiveEvent\<close> takes the lost event at the end.
\<close>

definition quiet :: "kube_event list \<Rightarrow> bool \<Rightarrow> serviceStateSubscriber" where
  "quiet es lost = subscriber_New
     \<lparr>clusterState := run_events es NewClusterServiceStateCache, eventLost := lost\<rparr>"

definition quiet_returned :: "snapshot_orders \<Rightarrow> kube_event list \<Rightarrow> serviceStateSubscriber" where
  "quiet_returned os es =
     (let c = run_events es NewClusterServiceStateCache
      in (quiet es False)\<lparr>returned := Some (cache_Snapshot os c), snapped := c\<rparr>)"

lemmas quiet_defs = quiet_def subscriber_New_def run_events_def

lemma run_quiet_event:
  assumes "subscriber_run es (quiet es lost)"
  shows "subscriber_run (es @ [e])
    (quiet (es @ [e]) (lost \<or> snd (handle_event e (run_events es NewClusterServiceStateCache))))"
proof -
  let ?s = "event_step 0 e (quiet es lost)"
  have run: "subscriber_run (es @ [e]) ?s"
    by (rule run_event [OF assms]) (simp add: quiet_defs)
  show ?thesis
  proof (cases "snd (handle_event e (run_events es NewClusterServiceStateCache))")
    case False
    then show ?thesis using run by (simp add: event_step_def quiet_defs split_beta fun_upd_idem)
  next
    case True
    let ?w = "?s\<lparr>handlers := (handlers ?s)(0 := HWaitLock)\<rparr>"
    let ?l = "?w\<lparr>handlers := (handlers ?w)(0 := HLocked), eventLostLock := Some (Handler 0)\<rparr>"
    have "subscriber_run (es @ [e]) ?w"
      by (rule run_dispatch [OF run], rule dispatch_step.dispatch_default)
        (use True in \<open>simp_all add: event_step_def quiet_defs split_beta\<close>)
    then have "subscriber_run (es @ [e]) ?l"
      by (rule run_dispatch [of _ _ 0])
        (intro dispatch_step.dispatch_lock, simp_all add: event_step_def quiet_defs split_beta)
    then have "subscriber_run (es @ [e])
        (?l\<lparr>handlers := (handlers ?l)(0 := HIdle), eventLost := True, eventLostLock := None\<rparr>)"
      by (rule run_dispatch [of _ _ 0]) (intro dispatch_step.dispatch_lost, simp)
    then show ?thesis
      using True by (simp add: event_step_def quiet_defs split_beta fun_upd_idem)
  qed
qed

lemma run_quiet_lost:
  assumes "snd (handle_event e NewClusterServiceStateCache)"
  shows "subscriber_run (e # es) (quiet (e # es) True)"
proof (induction es rule: rev_induct)
  case Nil
  have "subscriber_run [] (quiet [] False)" using run_New by (simp add: quiet_defs)
  then show ?case using run_quiet_event [of "[]" False e] assms by (simp add: run_events_def)
next
  case (snoc x es)
  then show ?case using run_quiet_event [of "e # es" True x] by simp
qed

lemma quiet_returns:
  assumes "subscriber_run es (quiet es True)" "valid_snapshot_orders os"
  shows "subscriber_run es (quiet_returned os es)"
proof -
  let ?a = "(quiet es True)\<lparr>receiver := RLocked, eventLostLock := Some Receiver\<rparr>"
  let ?b = "?a\<lparr>eventLost := False, receiver := RSnapshot\<rparr>"
  have "subscriber_run es ?a"
    by (rule run_receive [OF assms(1)], rule receive_step.recv_lock) (simp_all add: quiet_defs)
  then have "subscriber_run es ?b"
    by (rule run_receive) (intro receive_step.recv_lost, simp_all add: quiet_defs)
  then have "subscriber_run es (?b\<lparr>receiver := RIdle, eventLostLock := None,
      returned := Some (cache_Snapshot os (clusterState ?b)), snapped := clusterState ?b\<rparr>)"
    by (rule run_receive) (intro recv_snapshot_cache, simp_all add: assms(2))
  then show ?thesis by (simp add: quiet_returned_def quiet_defs Let_def)
qed

lemma resync_contents:
  assumes "stores_send no_objects h" "names_identify h" "versions_ascend h" "resync (stores_after h) rs"
  shows "image_mset container_contents
      (mset (map snd (services (run_events (h @ rs) NewClusterServiceStateCache)))) = store_contents (stores_after h)"
proof -
  obtain home owner where homed: "\<forall>e \<in> set h. homed home owner (event_services e) (event_slices e)"
    using assms(2) unfolding names_identify_def by blast
  have "store_homed home owner no_objects" by (simp add: store_homed_def keyed_def homed_def)
  from follows_events [OF follows_empty this assms(1,3) homed]
  have "follows home (fold view_event h Map.empty) (stores_after h)" "store_homed home owner (stores_after h)"
    by simp_all
  from resync_view [OF this assms(4)] this(2) show ?thesis
    by (intro contents_of_store) (simp_all add: cache_view_run_events cache_inv_run_events)
qed

lemma snapshot_of_stores:
  assumes "subscriber_run (h @ rs) s" "stores_send no_objects h" "names_identify h" "versions_ascend h"
    and "resync (stores_after h) rs"
    and "\<forall>i. handlers s i = HIdle" "\<not> eventLost s" "receiver s \<noteq> RSnapshot" "returned s = Some snap"
  shows "image_mset snap_contents (mset (Services snap)) = store_contents (stores_after h)"
  using no_lost_update [OF subscriber_run_reachable [OF assms(1)] assms(6-9)]
    resync_contents [OF assms(2-5)] subscriber_run_cache [OF assms(1)] by simp

section \<open>Properties\<close>

text \<open>
  C8. A resync repairs the cache from slices that came too early: after a history of events of the two
  informers, interleaved in any way, and a resync in any order, the cache holds exactly the
  services of the informer's store, each with exactly its endpoint slices. This is so if in the
  history a service name occurs in one namespace only, slices keep their service, and every
  update has a greater version in the order of strings. The other properties show that the code
  needs this: services of the same name evict each other, and an update from version 9 to 10 is
  dropped.
\<close>

theorem resync_converges:
  assumes "stores_send no_objects h" "names_identify h" "versions_ascend h" "resync (stores_after h) rs"
  shows "image_mset container_contents
      (mset (map snd (services (run_events (h @ rs) NewClusterServiceStateCache)))) = store_contents (stores_after h)"
  by (rule resync_contents [OF assms])

text \<open>The slice of a service arrives before the service, and the service after it.\<close>

definition ex_history :: "kube_event list" where
  "ex_history = [EndpointSliceAdd (Some ex_slice), ServiceAdd (Some ex_service)]"

definition ex_resync :: "kube_event list" where
  "ex_resync = [EndpointSliceUpdate (Some ex_slice) (Some ex_slice),
     ServiceUpdate (Some ex_service) (Some ex_service)]"

lemma ex_history_sent: "stores_send no_objects ex_history" "names_identify ex_history"
    "versions_ascend ex_history" "resync (stores_after ex_history) ex_resync"
proof -
  show "stores_send no_objects ex_history" "versions_ascend ex_history"
    by (simp_all add: ex_history_def versions_ascend_def)
  show "names_identify ex_history"
    unfolding names_identify_def
    by (rule exI [of _ "\<lambda>_. ''default''"], rule exI [of _ "\<lambda>_. Some ''whoami''"])
      (simp add: ex_history_def homed_def ex_service_def ex_slice_def gomap_get_def)
  show "resync (stores_after ex_history) ex_resync"
    by (auto simp: ex_history_def ex_resync_def resync_def resync_event_def split: if_splits)
qed

lemma ex_store_contents: "store_contents (stores_after ex_history) = {#(ex_service, {#ex_slice#})#}"
proof -
  have "{es. es = ex_slice \<and> slice_service es = Some (Name ex_service) \<and> Namespace es = Namespace ex_service} = {ex_slice}"
    by (auto simp: ex_slice_def ex_service_def gomap_get_def)
  then show ?thesis by (simp add: store_contents_def ex_history_def)
qed

theorem resync_converges_witness:
  "image_mset container_contents
      (mset (map snd (services (run_events (ex_history @ ex_resync) NewClusterServiceStateCache)))) =
     {#(ex_service, {#ex_slice#})#}"
  using resync_converges [OF ex_history_sent] by (simp only: ex_store_contents)

text \<open>
  C37. No resync repairs a dropped update: when the cache holds a service whose version is not smaller,
  as a string, than that of the object that the informer's store has for the name, any number
  of resyncs leaves it there.
\<close>

theorem resync_keeps_stale_service:
  assumes "cache_inv c" "cache_view c (Name new) = Some (old, slices)"
    and "\<not> ResourceVersion old < ResourceVersion new"
    and "\<forall>ns svc. store_services w (ns, Name new) = Some svc \<longrightarrow> svc = new"
    and "\<forall>e \<in> set rs. resync_event w e"
  shows "\<exists>slices'. cache_view (run_events rs c) (Name new) = Some (old, slices')"
proof -
  have "view_service (fold view_event rs v) (Name new) = Some old" if "view_service v (Name new) = Some old" for v
    using assms(5) that
  proof (induction rs arbitrary: v)
    case (Cons e rs)
    have "view_service (view_event e v) (Name new) = Some old"
      using Cons.prems assms(3,4)
      by (auto simp: resync_event_def view_UpdateServices_def view_service_put)
    then show ?case using Cons by simp
  qed simp
  from this [of "cache_view c"] show ?thesis
    using assms(1,2) by (auto simp: cache_view_run_events view_service_def)
qed

text \<open>The update from version 9 to 10 of the example, and a resync of the store that has version 10.\<close>

theorem resync_keeps_stale_service_witness:
  "\<exists>slices'. cache_view (run_events
      [ServiceUpdate (Some (ex_service\<lparr>ResourceVersion := ''10''\<rparr>)) (Some (ex_service\<lparr>ResourceVersion := ''10''\<rparr>))]
      (run_events [ServiceAdd (Some (ex_service\<lparr>ResourceVersion := ''9''\<rparr>))] NewClusterServiceStateCache)) ''whoami'' =
    Some (ex_service\<lparr>ResourceVersion := ''9''\<rparr>, slices')"
proof -
  let ?old = "ex_service\<lparr>ResourceVersion := ''9''\<rparr>" and ?new = "ex_service\<lparr>ResourceVersion := ''10''\<rparr>"
  let ?c = "run_events [ServiceAdd (Some ?old)] NewClusterServiceStateCache"
  let ?w = "\<lparr>store_services = [object_key ?new \<mapsto> ?new], store_slices = Map.empty\<rparr>"
  have "cache_view ?c = [''whoami'' \<mapsto> (?old, Map.empty)]"
    by (simp add: cache_view_run_events view_UpdateServices_def view_put_service_def ex_service_def)
  then have "cache_view ?c (Name ?new) = Some (?old, Map.empty)" by (simp add: ex_service_def)
  moreover have "\<not> ResourceVersion ?old < ResourceVersion ?new" by (simp add: less_char_def)
  moreover have "\<forall>ns svc. store_services ?w (ns, Name ?new) = Some svc \<longrightarrow> svc = ?new" by auto
  moreover have "\<forall>e \<in> set [ServiceUpdate (Some ?new) (Some ?new)]. resync_event ?w e"
    by (simp add: resync_event_def)
  ultimately have "\<exists>slices'. cache_view (run_events [ServiceUpdate (Some ?new) (Some ?new)] ?c) (Name ?new) =
      Some (?old, slices')"
    by (intro resync_keeps_stale_service) (simp add: cache_inv_run_events)
  then show ?thesis by (simp add: ex_service_def)
qed

text \<open>
  C29. Without a resync a slice can be lost: when a slice is delivered before its service, the cache
  does not keep it, and the service that arrives afterwards has no endpoints.
\<close>

theorem early_slice_is_lost:
  assumes "cache_inv c" "slice_service es = Some (Name svc)" "cache_view c (Name svc) = None"
  shows "cache_view (run_events [EndpointSliceAdd (Some es), ServiceAdd (Some svc)] c) =
    (cache_view c)(Name svc \<mapsto> (svc, Map.empty))"
  using assms
  by (simp add: cache_view_run_events view_UpdatEndpointSlice_def view_put_slice_def view_UpdateServices_def
      view_put_service_def)

theorem early_slice_is_lost_witness:
  "cache_view (run_events ex_history NewClusterServiceStateCache) = [''whoami'' \<mapsto> (ex_service, Map.empty)]"
  using early_slice_is_lost [of NewClusterServiceStateCache ex_slice ex_service]
  by (simp add: ex_history_def ex_service_def ex_slice_def gomap_get_def)

text \<open>
  From the informers to the snapshots: when all events of a history and a resync after it have
  been handled, in whatever interleaving with the receiver, and nothing is pending, then the last
  snapshot that \<open>ReceiveEvent\<close> returned lists exactly the services of the store, each with exactly
  its slices.
\<close>

theorem snapshot_matches_stores:
  assumes "subscriber_run (h @ rs) s" "stores_send no_objects h" "names_identify h" "versions_ascend h"
    and "resync (stores_after h) rs"
    and "\<forall>i. handlers s i = HIdle" "\<not> eventLost s" "receiver s \<noteq> RSnapshot" "returned s = Some snap"
  shows "image_mset snap_contents (mset (Services snap)) = store_contents (stores_after h)"
  by (rule snapshot_of_stores [OF assms])

lemma ex_run_end_run: "subscriber_run ([ServiceAdd (Some ex_service)] @ []) ex_run_end"
proof -
  let ?a = "subscriber_New\<lparr>receiver := RLocked, eventLostLock := Some Receiver\<rparr>"
  let ?b = "?a\<lparr>receiver := RSelect\<rparr>"
  let ?c = "ex_run_start\<lparr>handlers := (handlers ex_run_start)(0 := HIdle), receiver := RSnapshot\<rparr>"
  have "subscriber_run [] ?a"
    by (rule run_receive [OF run_New]) (intro receive_step.recv_lock, simp_all add: subscriber_New_def)
  then have "subscriber_run [] ?b"
    by (rule run_receive) (intro receive_step.recv_select, simp_all add: subscriber_New_def)
  then have "subscriber_run ([] @ [ServiceAdd (Some ex_service)]) (event_step 0 (ServiceAdd (Some ex_service)) ?b)"
    by (rule run_event) (simp add: subscriber_New_def)
  then have "subscriber_run [ServiceAdd (Some ex_service)] ex_run_start"
    by (simp add: ex_run_start_def subscriber_New_def)
  then have "subscriber_run [ServiceAdd (Some ex_service)] ?c"
    by (rule run_dispatch [of _ _ 0]) (intro dispatch_step.dispatch_send, simp_all add: ex_run_start_eq)
  then have "subscriber_run [ServiceAdd (Some ex_service)] (?c\<lparr>receiver := RIdle, eventLostLock := None,
      returned := Some (cache_Snapshot ex_orders (clusterState ?c)), snapped := clusterState ?c\<rparr>)"
    by (rule run_receive) (intro recv_snapshot_cache, simp_all add: valid_ex_orders)
  then show ?thesis by (simp add: ex_run_end_def ex_run_start_eq fun_upd_idem)
qed

lemma ex_run_stores: "stores_send no_objects [ServiceAdd (Some ex_service)]"
    "names_identify [ServiceAdd (Some ex_service)]" "versions_ascend [ServiceAdd (Some ex_service)]"
    "resync (stores_after [ServiceAdd (Some ex_service)]) []"
  by (auto simp: resync_def names_identify_def homed_def versions_ascend_def)

theorem snapshot_matches_stores_witness:
  "image_mset snap_contents (mset (Services (cache_Snapshot ex_orders (clusterState ex_run_start)))) =
     {#(ex_service, {#})#}"
  using snapshot_matches_stores [OF ex_run_end_run ex_run_stores]
  by (simp add: ex_run_end_def ex_run_start_eq store_contents_def)

end
