(* ===== verification/Label_Selection.thy ===== *)
theory Label_Selection
  imports State_Informers Wellknown
begin

text \<open>
  Which objects reach the daemons. Both \<open>run\<close> functions build the same label selector with
  \<open>k8s.io/apimachinery/pkg/labels\<close> and hand its text to the informer factory, so that the API
  server sends only objects that match it. The package and the server are parameters; what a
  selector means is documented, and stated as a locale.
\<close>

type_synonym label_set = "(string, string) gomap"

datatype selection_Operator = selection_Equals | selection_DoesNotExist

record ('req, 'sel, 'text) labels_package =
  NewRequirement :: "string \<Rightarrow> selection_Operator \<Rightarrow> string list \<Rightarrow> go_error + 'req"
  NewSelector :: 'sel
  sel_Add :: "'sel \<Rightarrow> 'req list \<Rightarrow> 'sel"
  sel_String :: "'sel \<Rightarrow> 'text"

abbreviation LabelServiceProxyName :: string where
  "LabelServiceProxyName \<equiv> ''service.kubernetes.io/service-proxy-name''"

abbreviation IsHeadlessService :: string where
  "IsHeadlessService \<equiv> ''service.kubernetes.io/headless''"

text \<open>The selector of the control plane and that of the redirect, as the two \<open>run\<close> functions build it.\<close>

definition controlplane_selector :: "('req, 'sel, 'text) labels_package \<Rightarrow> go_error + 'sel" where
  "controlplane_selector lp =
     (case NewRequirement lp LabelServiceProxyName selection_Equals [LightpathProxyName] of
        Inl err \<Rightarrow> Inl err
      | Inr lightPathProxy \<Rightarrow>
          (case NewRequirement lp IsHeadlessService selection_DoesNotExist [] of
             Inl err \<Rightarrow> Inl err
           | Inr noHeadlessEndpoints \<Rightarrow>
               (let labelSelector = NewSelector lp
                in Inr (sel_Add lp labelSelector [lightPathProxy, noHeadlessEndpoints]))))"

definition redirect_selector :: "('req, 'sel, 'text) labels_package \<Rightarrow> go_error + 'sel" where
  "redirect_selector lp =
     (case NewRequirement lp LabelServiceProxyName selection_Equals [LightpathProxyName] of
        Inl err \<Rightarrow> Inl err
      | Inr lightPathProxy \<Rightarrow>
          (case NewRequirement lp IsHeadlessService selection_DoesNotExist [] of
             Inl err \<Rightarrow> Inl err
           | Inr noHeadlessEndpoints \<Rightarrow>
               (let labelSelector = NewSelector lp
                in Inr (sel_Add lp labelSelector [lightPathProxy, noHeadlessEndpoints]))))"

record 'text ListOptions =
  LabelSelector :: 'text

text \<open>The function that both daemons pass to \<open>WithTweakListOptions\<close>.\<close>

definition tweakListOptions ::
    "('req, 'sel, 'text) labels_package \<Rightarrow> 'sel \<Rightarrow> 'text ListOptions \<Rightarrow> 'text ListOptions" where
  "tweakListOptions lp labelSelector options = options\<lparr>LabelSelector := sel_String lp labelSelector\<rparr>"

section \<open>The documented meaning of selectors\<close>

definition selected :: "label_set \<Rightarrow> bool" where
  "selected ls \<longleftrightarrow>
     gomap_get ls LabelServiceProxyName = Some LightpathProxyName \<and> gomap_get ls IsHeadlessService = None"

text \<open>
  A selector is a conjunction of requirements, and the server sends an object when its labels
  satisfy the selector whose text is in the list options.
\<close>

locale label_server =
  fixes lp :: "('req, 'sel, 'text) labels_package"
    and req_matches :: "'req \<Rightarrow> label_set \<Rightarrow> bool"
    and sel_matches :: "'sel \<Rightarrow> label_set \<Rightarrow> bool"
    and server_sends :: "'text ListOptions \<Rightarrow> label_set \<Rightarrow> bool"
  assumes equals_matches:
      "NewRequirement lp k selection_Equals [v] = Inr r \<Longrightarrow> req_matches r ls \<longleftrightarrow> gomap_get ls k = Some v"
    and absent_matches:
      "NewRequirement lp k selection_DoesNotExist [] = Inr r \<Longrightarrow> req_matches r ls \<longleftrightarrow> gomap_get ls k = None"
    and new_matches: "sel_matches (NewSelector lp) ls"
    and add_matches: "sel_matches (sel_Add lp s rs) ls \<longleftrightarrow> sel_matches s ls \<and> (\<forall>r \<in> set rs. req_matches r ls)"
    and server_matches: "LabelSelector options = sel_String lp s \<Longrightarrow> server_sends options ls \<longleftrightarrow> sel_matches s ls"
begin

lemma selector_sends:
  assumes "controlplane_selector lp = Inr s"
  shows "server_sends (tweakListOptions lp s options) ls \<longleftrightarrow> selected ls"
  using assms new_matches server_matches [of "tweakListOptions lp s options" s ls]
  by (auto simp: controlplane_selector_def selected_def tweakListOptions_def add_matches equals_matches
      absent_matches split: sum.splits)

end

lemma selectors_equal: "redirect_selector lp = controlplane_selector lp"
  by (simp add: redirect_selector_def controlplane_selector_def)

text \<open>A package that meets the contract: a selector is the list of its requirements.\<close>

type_synonym ref_requirement = "string \<times> selection_Operator \<times> string list"

definition ref_labels :: "(ref_requirement, ref_requirement list, ref_requirement list) labels_package" where
  "ref_labels =
     \<lparr>NewRequirement = (\<lambda>k oper vs. if oper = selection_Equals \<longrightarrow> length vs = 1 then Inr (k, oper, vs)
        else Inl ''exactly one value is required''),
      NewSelector = [], sel_Add = (@), sel_String = (\<lambda>s. s)\<rparr>"

fun ref_req_matches :: "ref_requirement \<Rightarrow> label_set \<Rightarrow> bool" where
  "ref_req_matches (k, selection_Equals, vs) ls \<longleftrightarrow> (\<exists>v \<in> set vs. gomap_get ls k = Some v)"
| "ref_req_matches (k, selection_DoesNotExist, vs) ls \<longleftrightarrow> gomap_get ls k = None"

definition ref_sel_matches :: "ref_requirement list \<Rightarrow> label_set \<Rightarrow> bool" where
  "ref_sel_matches s ls \<longleftrightarrow> (\<forall>r \<in> set s. ref_req_matches r ls)"

interpretation ref_server: label_server ref_labels ref_req_matches ref_sel_matches
  "\<lambda>options. ref_sel_matches (LabelSelector options)"
  by unfold_locales (auto simp: ref_labels_def ref_sel_matches_def)

section \<open>What the cache and the redirect see\<close>

definition as_list :: "'a option \<Rightarrow> 'a list" where
  "as_list x = (case x of None \<Rightarrow> [] | Some y \<Rightarrow> [y])"

lemma set_as_list [simp]: "set (as_list x) = set_option x"
  by (cases x) (simp_all add: as_list_def)

fun event_labels :: "kube_event \<Rightarrow> label_set list" where
  "event_labels (ServiceAdd svc) = map Labels (as_list svc)"
| "event_labels (ServiceUpdate old svc) = map Labels (as_list old @ as_list svc)"
| "event_labels (ServiceDelete svc) = map Labels (as_list svc)"
| "event_labels (EndpointSliceAdd es) = map Labels (as_list es)"
| "event_labels (EndpointSliceUpdate old es) = map Labels (as_list old @ as_list es)"
| "event_labels (EndpointSliceDelete es) = map Labels (as_list es)"
| "event_labels _ = []"

definition view_selected :: "cluster_view \<Rightarrow> bool" where
  "view_selected v \<longleftrightarrow> (\<forall>k svc. view_service v k = Some svc \<longrightarrow> selected (Labels svc)) \<and>
     (\<forall>k n es. view_slice v k n = Some es \<longrightarrow> selected (Labels es))"

lemma view_selected_service:
  assumes "view_selected v" "\<forall>svc \<in> set_option x. selected (Labels svc)"
  shows "view_selected (view_UpdateServices x d v)"
  using assms by (auto simp: view_selected_def view_UpdateServices_def view_updates split: option.split if_splits)

lemma view_selected_slice:
  assumes "view_selected v" "\<forall>es \<in> set_option x. selected (Labels es)"
  shows "view_selected (view_UpdatEndpointSlice x d v)"
proof (cases x)
  case None
  then show ?thesis using assms(1) by (simp add: view_UpdatEndpointSlice_def)
next
  case (Some es)
  then show ?thesis
    using assms by (cases d) (auto simp: view_selected_def view_slice_slice view_slice_del split: if_splits)
qed

lemma view_selected_event:
  "view_selected v \<Longrightarrow> \<forall>ls \<in> set (event_labels e). selected ls \<Longrightarrow> view_selected (view_event e v)"
  by (cases e) (auto intro: view_selected_service view_selected_slice)

lemma view_selected_events:
  "view_selected v \<Longrightarrow> \<forall>e \<in> set es. \<forall>ls \<in> set (event_labels e). selected ls \<Longrightarrow>
    view_selected (fold view_event es v)"
  by (induction es arbitrary: v) (auto intro: view_selected_event)

section \<open>Properties\<close>

text \<open>
  C9. Only services that ask for this proxy are configured: when the API server sends the objects that
  match the selector of the list options, every service in the cache has the label
  \<open>service-proxy-name\<close> with the value \<open>lightpath.cloud\<close> and is not labelled as headless, and so
  have its endpoint slices.
\<close>

theorem cache_holds_only_selected:
  assumes "label_server lp req_matches sel_matches server_sends" "controlplane_selector lp = Inr s"
    and "\<forall>e \<in> set es. \<forall>ls \<in> set (event_labels e). server_sends (tweakListOptions lp s options) ls"
    and "cache_view (run_events es NewClusterServiceStateCache) k = Some (svc, slices)"
  shows "selected (Labels svc) \<and> (\<forall>es \<in> ran slices. selected (Labels es))"
proof -
  have "\<forall>e \<in> set es. \<forall>ls \<in> set (event_labels e). selected ls"
    using assms(3) label_server.selector_sends [OF assms(1,2)] by metis
  then have "view_selected (fold view_event es Map.empty)"
    by (intro view_selected_events) (simp_all add: view_selected_def view_service_def view_slice_def)
  then have sel: "view_selected (cache_view (run_events es NewClusterServiceStateCache))"
    by (simp add: cache_view_run_events)
  have "view_service (cache_view (run_events es NewClusterServiceStateCache)) k = Some svc"
    "view_slice (cache_view (run_events es NewClusterServiceStateCache)) k = slices"
    using assms(4) by (simp_all add: view_service_def view_slice_def fun_eq_iff)
  with sel show ?thesis by (auto simp: view_selected_def ran_def)
qed

definition ex_selected :: Service where
  "ex_selected = ex_service\<lparr>Labels := [(LabelServiceProxyName, ''lightpath.cloud'')]\<rparr>"

definition ex_selector :: "ref_requirement list" where
  "ex_selector = [(LabelServiceProxyName, selection_Equals, [''lightpath.cloud'']),
     (IsHeadlessService, selection_DoesNotExist, [])]"

lemma ex_selector_built: "controlplane_selector ref_labels = Inr ex_selector"
  by (simp add: controlplane_selector_def ref_labels_def ex_selector_def LightpathProxyName_def)

lemma ex_selected_cached: "cache_view (run_events [ServiceAdd (Some ex_selected)] NewClusterServiceStateCache)
    (Name ex_selected) = Some (ex_selected, Map.empty)"
  by (simp add: cache_view_run_events view_UpdateServices_def view_put_service_def)

theorem cache_holds_only_selected_witness: "selected (Labels ex_selected)"
  using cache_holds_only_selected [OF ref_server.label_server_axioms ex_selector_built _ ex_selected_cached,
      of "\<lparr>LabelSelector = []\<rparr>"]
  by (simp add: tweakListOptions_def ref_labels_def ref_sel_matches_def ex_selector_def ex_selected_def
      gomap_get_def)

end
