(* ===== verification/Go_Flag.thy ===== *)
theory Go_Flag
  imports Go_Strconv
begin

text \<open>
  The part of Go's package \<open>flag\<close> that the two \<open>main\<close> functions use: the definition of flags on
  the set \<open>CommandLine\<close>, and \<open>Parse\<close>, which exits on an error. The variables that the flags set
  are a record of type \<open>'v\<close>.
\<close>

section \<open>Numbers in any base\<close>

text \<open>
  \<open>strconv.ParseUint(s, 0, 64)\<close>: the base is that of the prefix, and underscores may separate
  the digits.
\<close>

definition lower :: "char \<Rightarrow> char" where
  "lower c = (if 65 \<le> (of_char c :: nat) \<and> (of_char c :: nat) \<le> 90 then char_of (of_char c + 32 :: nat) else c)"

definition any_digit :: "char \<Rightarrow> nat option" where
  "any_digit c =
     (case digit_val c of
        Some d \<Rightarrow> Some d
      | None \<Rightarrow>
          let n = of_char (lower c) :: nat
          in if 97 \<le> n \<and> n \<le> 122 then Some (n - 97 + 10) else None)"

fun parse_base :: "nat \<Rightarrow> nat \<Rightarrow> string \<Rightarrow> parse_error + nat" where
  "parse_base b n [] = Inr n"
| "parse_base b n (c # cs) =
     (if c = CHR ''_'' then parse_base b n cs
      else case any_digit c of
        None \<Rightarrow> Inl ErrSyntax
      | Some d \<Rightarrow>
          if d \<ge> b then Inl ErrSyntax
          else if n * b + d \<ge> 2 ^ 64 then Inl ErrRange
          else parse_base b (n * b + d) cs)"

definition base_prefix :: "string \<Rightarrow> nat \<times> string" where
  "base_prefix s =
     (if hd s = CHR ''0'' then
        (if length s \<ge> 3 \<and> lower (s ! 1) = CHR ''b'' then (2, drop 2 s)
         else if length s \<ge> 3 \<and> lower (s ! 1) = CHR ''o'' then (8, drop 2 s)
         else if length s \<ge> 3 \<and> lower (s ! 1) = CHR ''x'' then (16, drop 2 s)
         else (8, tl s))
      else (10, s))"

text \<open>
  \<open>underscoreOK\<close>: an underscore stands between digits, where the prefix of the base counts as
  one. The argument \<open>saw\<close> is the kind of the last character.
\<close>

fun underscore_loop :: "bool \<Rightarrow> char \<Rightarrow> string \<Rightarrow> bool" where
  "underscore_loop hex saw [] \<longleftrightarrow> saw \<noteq> CHR ''_''"
| "underscore_loop hex saw (c # cs) =
     (if digit_val c \<noteq> None \<or>
         hex \<and> 97 \<le> (of_char (lower c) :: nat) \<and> (of_char (lower c) :: nat) \<le> 102
      then underscore_loop hex (CHR ''0'') cs
      else if c = CHR ''_'' then saw = CHR ''0'' \<and> underscore_loop hex (CHR ''_'') cs
      else saw \<noteq> CHR ''_'' \<and> underscore_loop hex (CHR ''!'') cs)"

definition underscoreOK :: "string \<Rightarrow> bool" where
  "underscoreOK s0 =
     (let s = (if s0 \<noteq> [] \<and> (hd s0 = CHR ''-'' \<or> hd s0 = CHR ''+'') then tl s0 else s0)
      in if length s \<ge> 2 \<and> s ! 0 = CHR ''0'' \<and> lower (s ! 1) \<in> {CHR ''b'', CHR ''o'', CHR ''x''}
         then underscore_loop (lower (s ! 1) = CHR ''x'') (CHR ''0'') (drop 2 s)
         else underscore_loop False (CHR ''^'') s)"

definition ParseUint0 :: "string \<Rightarrow> parse_error + nat" where
  "ParseUint0 s =
     (if s = [] then Inl ErrSyntax
      else case base_prefix s of (b, digits) \<Rightarrow>
        (case parse_base b 0 digits of
           Inl e \<Rightarrow> Inl e
         | Inr n \<Rightarrow> if CHR ''_'' \<in> set digits \<and> \<not> underscoreOK s then Inl ErrSyntax else Inr n))"

section \<open>Flags\<close>

record 'v Flag =
  flag_Name :: string
  IsBoolFlag :: bool
  flag_Set :: "string \<Rightarrow> 'v \<Rightarrow> parse_error + 'v"

type_synonym 'v flags = "(string, 'v Flag) gomap"

text \<open>Defining a flag twice panics.\<close>

definition flag_Var :: "'v Flag \<Rightarrow> 'v flags \<Rightarrow> 'v flags go" where
  "flag_Var f formal =
     (if gomap_get formal (flag_Name f) \<noteq> None then Inl (PanicErr (''flag redefined: '' @ flag_Name f))
      else Inr (gomap_put (flag_Name f) f formal))"

definition StringVar :: "string \<Rightarrow> (string \<Rightarrow> 'v \<Rightarrow> 'v) \<Rightarrow> 'v Flag" where
  "StringVar name set_var =
     \<lparr>flag_Name = name, IsBoolFlag = False, flag_Set = (\<lambda>s v. Inr (set_var s v))\<rparr>"

definition UintVar :: "string \<Rightarrow> (nat \<Rightarrow> 'v \<Rightarrow> 'v) \<Rightarrow> 'v Flag" where
  "UintVar name set_var =
     \<lparr>flag_Name = name, IsBoolFlag = False,
      flag_Set = (\<lambda>s v. case ParseUint0 s of Inl e \<Rightarrow> Inl e | Inr n \<Rightarrow> Inr (set_var n v))\<rparr>"

datatype flag_error =
    BadSyntax string
  | NotDefined string
  | NeedsArgument string
  | InvalidValue string string parse_error

datatype 'v parsed = Parsed 'v "string list" | HelpRequested | ParseFailed flag_error

text \<open>The first equals sign after the first character separates the name from the value.\<close>

definition cut_value :: "string \<Rightarrow> string \<times> string option" where
  "cut_value nm =
     (let pre = hd nm # takeWhile (\<lambda>c. c \<noteq> CHR ''='') (tl nm);
          rest = dropWhile (\<lambda>c. c \<noteq> CHR ''='') (tl nm)
      in (pre, if rest = [] then None else Some (tl rest)))"

fun flag_parse :: "'v flags \<Rightarrow> string list \<Rightarrow> 'v \<Rightarrow> 'v parsed" where
  "flag_parse formal [] v = Parsed v []"
| "flag_parse formal (s # args) v =
     (if length s < 2 \<or> hd s \<noteq> CHR ''-'' then Parsed v (s # args)
      else if s = ''--'' then Parsed v args
      else let name = drop (if s ! 1 = CHR ''-'' then 2 else 1) s
           in if hd name = CHR ''-'' \<or> hd name = CHR ''='' then ParseFailed (BadSyntax s)
              else case cut_value name of (name, val) \<Rightarrow>
                (case gomap_get formal name of
                   None \<Rightarrow>
                     if name = ''help'' \<or> name = ''h'' then HelpRequested
                     else ParseFailed (NotDefined name)
                 | Some f \<Rightarrow>
                     if IsBoolFlag f then
                       (let x = (case val of None \<Rightarrow> ''true'' | Some x \<Rightarrow> x)
                        in case flag_Set f x v of
                             Inl e \<Rightarrow> ParseFailed (InvalidValue x name e)
                           | Inr v \<Rightarrow> flag_parse formal args v)
                     else
                       (case val of
                          Some x \<Rightarrow>
                            (case flag_Set f x v of
                               Inl e \<Rightarrow> ParseFailed (InvalidValue x name e)
                             | Inr v \<Rightarrow> flag_parse formal args v)
                        | None \<Rightarrow>
                            (case args of
                               [] \<Rightarrow> ParseFailed (NeedsArgument name)
                             | x # args \<Rightarrow>
                                 (case flag_Set f x v of
                                    Inl e \<Rightarrow> ParseFailed (InvalidValue x name e)
                                  | Inr v \<Rightarrow> flag_parse formal args v)))))"

section \<open>Decimal numbers are read in base ten\<close>

lemma any_digit_digit_char: "d < 10 \<Longrightarrow> any_digit (digit_char d) = Some d"
  by (simp add: any_digit_def)

lemma parse_base_digits:
  "\<forall>c \<in> set s. \<exists>d < 10. c = digit_char d \<Longrightarrow> parse_base 10 n s = parse_digits n s"
proof (induction s arbitrary: n)
  case Nil
  then show ?case by simp
next
  case (Cons c s)
  then obtain d where d: "d < 10" "c = digit_char d" by auto
  moreover have "c \<noteq> CHR ''_''" using d digit_char_neq [of d "CHR ''_''"] by (simp add: digit_val_def)
  ultimately show ?case using Cons by (simp add: any_digit_digit_char)
qed

lemma ParseUint0_fmt_nat:
  assumes "n < 2 ^ 64"
  shows "ParseUint0 (fmt_nat n) = Inr n"
proof (cases "n = 0")
  case True
  then have "fmt_nat n = ''0''" by (simp add: fmt_nat.simps digit_char_def)
  then show ?thesis using True by (simp add: ParseUint0_def base_prefix_def)
next
  case False
  then have "hd (fmt_nat n) \<noteq> CHR ''0''" using hd_fmt_nat_zero [of n] by simp
  then have "base_prefix (fmt_nat n) = (10, fmt_nat n)" by (simp add: base_prefix_def)
  moreover have "parse_base 10 0 (fmt_nat n) = Inr n"
    using parse_base_digits [of "fmt_nat n" 0] fmt_nat_digits parse_digits_fmt_nat [OF assms] by simp
  moreover have "CHR ''_'' \<notin> set (fmt_nat n)"
    by (rule fmt_nat_no_sep) (simp add: digit_val_def)
  ultimately show ?thesis by (simp add: ParseUint0_def)
qed

section \<open>One flag\<close>

definition flag_name_ok :: "string \<Rightarrow> bool" where
  "flag_name_ok nm \<longleftrightarrow> nm \<noteq> [] \<and> hd nm \<noteq> CHR ''-'' \<and> CHR ''='' \<notin> set nm"

lemma span_eq:
  "CHR ''='' \<notin> set s \<Longrightarrow> takeWhile (\<lambda>c. c \<noteq> CHR ''='') (s @ CHR ''='' # x) = s"
  "CHR ''='' \<notin> set s \<Longrightarrow> dropWhile (\<lambda>c. c \<noteq> CHR ''='') (s @ CHR ''='' # x) = CHR ''='' # x"
  by (induction s) auto

lemma cut_value_eq: "flag_name_ok nm \<Longrightarrow> cut_value (nm @ CHR ''='' # x) = (nm, Some x)"
  by (cases nm) (auto simp: flag_name_ok_def cut_value_def span_eq)

lemma cut_value_none: "flag_name_ok nm \<Longrightarrow> cut_value nm = (nm, None)"
  by (cases nm) (auto simp: flag_name_ok_def cut_value_def takeWhile_eq_all_conv [THEN iffD2] dropWhile_eq_Nil_conv)

lemma flag_parse_value:
  assumes "flag_name_ok nm" "gomap_get formal nm = Some f" "flag_Set f x v = Inr v'" "dash = ''-'' \<or> dash = ''--''"
  shows "flag_parse formal ((dash @ nm @ CHR ''='' # x) # args) v = flag_parse formal args v'"
proof -
  have "hd (nm @ CHR ''='' # x) \<noteq> CHR ''-''" "hd (nm @ CHR ''='' # x) \<noteq> CHR ''=''"
    using assms(1) by (cases nm; auto simp: flag_name_ok_def)+
  then show ?thesis
    using assms cut_value_eq [OF assms(1), of x] by (cases nm) (auto simp: flag_name_ok_def)
qed

lemma flag_parse_next:
  assumes "flag_name_ok nm" "gomap_get formal nm = Some f" "\<not> IsBoolFlag f" "flag_Set f x v = Inr v'"
    and "dash = ''-'' \<or> dash = ''--''"
  shows "flag_parse formal ((dash @ nm) # x # args) v = flag_parse formal args v'"
proof -
  have "hd nm \<noteq> CHR ''-''" "hd nm \<noteq> CHR ''=''"
    using assms(1) by (cases nm; auto simp: flag_name_ok_def)+
  then show ?thesis
    using assms cut_value_none [OF assms(1)] by (cases nm) (auto simp: flag_name_ok_def)
qed

text \<open>A word of the command line that is no flag of the program.\<close>

lemma flag_parse_unknown:
  assumes "flag_name_ok nm" "gomap_get formal nm = None" "nm \<noteq> ''help''" "nm \<noteq> ''h''" "dash = ''-'' \<or> dash = ''--''"
  shows "flag_parse formal ((dash @ nm) # args) v = ParseFailed (NotDefined nm)"
proof -
  have "hd nm \<noteq> CHR ''-''" "hd nm \<noteq> CHR ''=''"
    using assms(1) by (cases nm; auto simp: flag_name_ok_def)+
  then show ?thesis
    using assms cut_value_none [OF assms(1)] by (cases nm) (auto simp: flag_name_ok_def)
qed

end
