(* ===== verification/Cmd_Flags.thy ===== *)
theory Cmd_Flags
  imports Go_Flag
begin

text \<open>
  The package variables and \<open>init\<close> functions of \<open>cmd/controlplane/cmd.go\<close> and
  \<open>cmd/redirect/cmd.go\<close>. The flags of klog, which \<open>klog.InitFlags(nil)\<close> adds to the same set,
  are a parameter; they set variables of klog, of type \<open>'k\<close>.
\<close>

record 'k controlplane_vars =
  metricPort :: nat
  var_nodeID :: string
  var_host :: string
  var_kubeconfig :: string
  klog_vars :: 'k

definition controlplane_defaults :: "'k \<Rightarrow> 'k controlplane_vars" where
  "controlplane_defaults k =
     \<lparr>metricPort = 9000, var_nodeID = ''k8s'', var_host = ''127.0.0.1:18000'', var_kubeconfig = '''',
      klog_vars = k\<rparr>"

definition lift_flag :: "('v \<Rightarrow> 'k) \<Rightarrow> ('k \<Rightarrow> 'v \<Rightarrow> 'v) \<Rightarrow> 'k Flag \<Rightarrow> 'v Flag" where
  "lift_flag get put f =
     \<lparr>flag_Name = flag_Name f, IsBoolFlag = IsBoolFlag f,
      flag_Set = (\<lambda>s v. case flag_Set f s (get v) of Inl e \<Rightarrow> Inl e | Inr k \<Rightarrow> Inr (put k v))\<rparr>"

definition controlplane_flag_list :: "'k Flag list \<Rightarrow> 'k controlplane_vars Flag list" where
  "controlplane_flag_list klogFlags =
     [UintVar ''metric-port'' (\<lambda>n v. v\<lparr>metricPort := n\<rparr>),
      StringVar ''nodeID'' (\<lambda>s v. v\<lparr>var_nodeID := s\<rparr>),
      StringVar ''host'' (\<lambda>s v. v\<lparr>var_host := s\<rparr>),
      StringVar ''kubeconfig'' (\<lambda>s v. v\<lparr>var_kubeconfig := s\<rparr>)] @
     map (lift_flag klog_vars (\<lambda>k v. v\<lparr>klog_vars := k\<rparr>)) klogFlags"

definition controlplane_init :: "'k Flag list \<Rightarrow> 'k controlplane_vars flags go" where
  "controlplane_init klogFlags = go_fold flag_Var (controlplane_flag_list klogFlags) []"

record 'k redirect_vars =
  rvar_kubeconfig :: string
  redirectMode :: string
  rklog_vars :: 'k

definition redirect_defaults :: "'k \<Rightarrow> 'k redirect_vars" where
  "redirect_defaults k = \<lparr>rvar_kubeconfig = '''', redirectMode = ''iptables'', rklog_vars = k\<rparr>"

definition redirect_flag_list :: "'k Flag list \<Rightarrow> 'k redirect_vars Flag list" where
  "redirect_flag_list klogFlags =
     [StringVar ''kubeconfig'' (\<lambda>s v. v\<lparr>rvar_kubeconfig := s\<rparr>),
      StringVar ''mode'' (\<lambda>s v. v\<lparr>redirectMode := s\<rparr>)] @
     map (lift_flag rklog_vars (\<lambda>k v. v\<lparr>rklog_vars := k\<rparr>)) klogFlags"

definition redirect_init :: "'k Flag list \<Rightarrow> 'k redirect_vars flags go" where
  "redirect_init klogFlags = go_fold flag_Var (redirect_flag_list klogFlags) []"

section \<open>Which flags are defined\<close>

lemma flag_Var_get:
  "flag_Var f formal = Inr formal' \<Longrightarrow>
    gomap_get formal' nm = (if nm = flag_Name f then Some f else gomap_get formal nm)"
  by (auto simp: flag_Var_def split: if_splits)

lemma defined_flags:
  assumes "go_fold flag_Var fs formal = Inr formal'"
  shows "gomap_get formal' nm = (case find (\<lambda>f. flag_Name f = nm) fs of
    Some f \<Rightarrow> Some f | None \<Rightarrow> gomap_get formal nm)"
  using assms
proof (induction fs arbitrary: formal)
  case Nil
  then show ?case by simp
next
  case (Cons f fs)
  then obtain formal1 where f1: "flag_Var f formal = Inr formal1" "go_fold flag_Var fs formal1 = Inr formal'"
    by (auto simp: go_bind_Inr_iff)
  have kept: "go_fold flag_Var gs a = Inr b \<Longrightarrow> gomap_get a nm = Some g \<Longrightarrow> find (\<lambda>f. flag_Name f = nm) gs = None"
    for gs a b g
  proof (induction gs arbitrary: a)
    case (Cons h gs)
    then obtain a1 where a1: "flag_Var h a = Inr a1" "go_fold flag_Var gs a1 = Inr b"
      by (auto simp: go_bind_Inr_iff)
    then have "flag_Name h \<noteq> nm" using Cons.prems(2) by (auto simp: flag_Var_def split: if_splits)
    with Cons.IH [OF a1(2)] a1(1) Cons.prems(2) show ?case by (simp add: flag_Var_get)
  qed simp
  show ?case
  proof (cases "flag_Name f = nm")
    case True
    then have g: "gomap_get formal1 nm = Some f" using f1(1) by (simp add: flag_Var_get)
    from kept [OF f1(2) g] Cons.IH [OF f1(2)] True g show ?thesis by simp
  next
    case False
    then show ?thesis using Cons.IH [OF f1(2)] f1(1) by (auto simp: flag_Var_get split: option.split)
  qed
qed

section \<open>Properties\<close>

text \<open>
  C20. Every configuration of the control plane can be given on its command line: the flags written
  out for a configuration are parsed to exactly this configuration, for all texts and for
  every port number of 64 bits.
\<close>

definition controlplane_args :: "nat \<Rightarrow> string \<Rightarrow> string \<Rightarrow> string \<Rightarrow> string list" where
  "controlplane_args port node host config =
     [''-metric-port='' @ fmt_nat port, ''--nodeID='' @ node, ''-host'', host, ''-kubeconfig='' @ config]"

theorem controlplane_flags_roundtrip:
  assumes "controlplane_init klogFlags = Inr formal" "port < 2 ^ 64"
  shows "flag_parse formal (controlplane_args port node host config) (controlplane_defaults k) =
    Parsed \<lparr>metricPort = port, var_nodeID = node, var_host = host, var_kubeconfig = config, klog_vars = k\<rparr> []"
proof -
  let ?v = "controlplane_defaults k"
  have get: "gomap_get formal ''metric-port'' = Some (UintVar ''metric-port'' (\<lambda>n v. v\<lparr>metricPort := n\<rparr>))"
    "gomap_get formal ''nodeID'' = Some (StringVar ''nodeID'' (\<lambda>s v. v\<lparr>var_nodeID := s\<rparr>))"
    "gomap_get formal ''host'' = Some (StringVar ''host'' (\<lambda>s v. v\<lparr>var_host := s\<rparr>))"
    "gomap_get formal ''kubeconfig'' = Some (StringVar ''kubeconfig'' (\<lambda>s v. v\<lparr>var_kubeconfig := s\<rparr>))"
    using defined_flags [OF assms(1) [unfolded controlplane_init_def]]
    by (simp_all add: controlplane_flag_list_def StringVar_def UintVar_def)
  have ok: "flag_name_ok ''metric-port''" "flag_name_ok ''nodeID''" "flag_name_ok ''host''" "flag_name_ok ''kubeconfig''"
    by (simp_all add: flag_name_ok_def)
  have 1: "flag_parse formal ((''-metric-port='' @ fmt_nat port) # args) v = flag_parse formal args (v\<lparr>metricPort := port\<rparr>)" for args v
    using flag_parse_value [OF ok(1) get(1), of "fmt_nat port" v _ "''-''"] ParseUint0_fmt_nat [OF assms(2)]
    by (simp add: UintVar_def)
  have 2: "flag_parse formal ((''--nodeID='' @ node) # args) v = flag_parse formal args (v\<lparr>var_nodeID := node\<rparr>)" for args v
    using flag_parse_value [OF ok(2) get(2), of node v _ "''--''"] by (simp add: StringVar_def)
  have 3: "flag_parse formal (''-host'' # host # args) v = flag_parse formal args (v\<lparr>var_host := host\<rparr>)" for args v
    using flag_parse_next [OF ok(3) get(3), of host v _ "''-''"] by (simp add: StringVar_def)
  have 4: "flag_parse formal ((''-kubeconfig='' @ config) # args) v = flag_parse formal args (v\<lparr>var_kubeconfig := config\<rparr>)" for args v
    using flag_parse_value [OF ok(4) get(4), of config v _ "''-''"] by (simp add: StringVar_def)
  show ?thesis
    unfolding controlplane_args_def by (simp only: 1 2 3 4 flag_parse.simps(1)) (simp add: controlplane_defaults_def)
qed

text \<open>The one klog flag that the deployment of the repository sets.\<close>

definition ex_klog :: "nat Flag list" where
  "ex_klog = [\<lparr>flag_Name = ''v'', IsBoolFlag = False, flag_Set = (\<lambda>s _. ParseUint0 s)\<rparr>]"

lemma ex_init: "\<exists>formal. controlplane_init ex_klog = Inr formal"
  by (simp add: controlplane_init_def controlplane_flag_list_def ex_klog_def lift_flag_def flag_Var_def
      StringVar_def UintVar_def)

theorem controlplane_flags_roundtrip_witness:
  "\<exists>formal. controlplane_init ex_klog = Inr formal \<and>
    flag_parse formal (controlplane_args 9000 ''node-a'' ''[::1]:18000'' '''') (controlplane_defaults 0) =
    Parsed \<lparr>metricPort = 9000, var_nodeID = ''node-a'', var_host = ''[::1]:18000'', var_kubeconfig = '''', klog_vars = 0\<rparr> []"
proof -
  obtain formal where "controlplane_init ex_klog = Inr formal" using ex_init by blast
  with controlplane_flags_roundtrip [OF this, of 9000 "''node-a''" "''[::1]:18000''" "''''" 0] show ?thesis by simp
qed

end
