(* ===== verification/Startup.thy ===== *)
theory Startup
  imports Label_Selection Cmd_Flags Logger
begin

text \<open>
  What both daemons do when they start: \<open>internal/utils/kube.go\<close>, \<open>internal/version/version.go\<close>, the
  informer factory, and the \<open>main\<close> functions of \<open>cmd/controlplane/cmd.go\<close> and
  \<open>cmd/redirect/cmd.go\<close> around \<open>run\<close>. The Kubernetes client libraries are parameters.
\<close>

section \<open>Clients and version\<close>

record ('config, 'client, 'events) client_libraries =
  InClusterConfig :: "go_error + 'config"
  ClientConfig :: "string \<Rightarrow> go_error + 'config"
  NewForConfig :: "'config \<Rightarrow> go_error + 'client"
  CoreV1 :: "'client \<Rightarrow> 'events"

definition CreateClients ::
    "('config, 'client, 'events) client_libraries \<Rightarrow> string \<Rightarrow> go_error + ('client \<times> 'events)" where
  "CreateClients libs kubeconfig =
     (case (if kubeconfig = [] then InClusterConfig libs else ClientConfig libs kubeconfig) of
        Inl err \<Rightarrow> Inl err
      | Inr kubeConfig \<Rightarrow>
          (case NewForConfig libs kubeConfig of
             Inl err \<Rightarrow> Inl err
           | Inr client \<Rightarrow>
               (case NewForConfig libs kubeConfig of
                  Inl err \<Rightarrow> Inl err
                | Inr eventClient \<Rightarrow> Inr (client, CoreV1 libs eventClient))))"

record build_info =
  commit :: string
  date :: string
  tag :: string

definition GetVersion :: "build_info \<Rightarrow> string" where
  "GetVersion b = ''tag='' @ tag b @ '' commit='' @ commit b @ '' date='' @ date b"

section \<open>The informer factory\<close>

record ('client, 'text) informer_factory =
  factory_client :: 'client
  factory_resync :: int64
  factory_tweak :: "'text ListOptions \<Rightarrow> 'text ListOptions"

section \<open>The main functions\<close>

text \<open>
  \<open>main\<close> parses the flags, where a request for help exits with status 0 and an error with status
  2, logs the version, and calls \<open>run\<close> with a context that the first interrupt or termination
  signal cancels. A panic ends the process with status 2; after \<open>run\<close> it returns.
\<close>

datatype os_signal = SIGINT | SIGTERM | SIGHUP

definition notified :: "os_signal list" where
  "notified = [SIGINT, SIGTERM]"

definition context_cancelled :: "os_signal list \<Rightarrow> bool" where
  "context_cancelled sigs \<longleftrightarrow> (\<exists>sig \<in> set sigs. sig \<in> set notified)"

datatype log_entry = InfoEntry string | ErrorEntry go_error string

record main_exit =
  exit_status :: nat
  main_log :: "log_entry list"

definition main_after_run :: "build_info \<Rightarrow> go_error option go \<Rightarrow> main_exit" where
  "main_after_run info result =
     (let version = InfoEntry (GetVersion info)
      in case result of
           Inl p \<Rightarrow> \<lparr>exit_status = 2, main_log = [version]\<rparr>
         | Inr None \<Rightarrow> \<lparr>exit_status = 0, main_log = [version]\<rparr>
         | Inr (Some err) \<Rightarrow>
             \<lparr>exit_status = 0, main_log = [version, ErrorEntry err ''exited with error'']\<rparr>)"

definition controlplane_main ::
    "'k Flag list \<Rightarrow> 'k \<Rightarrow> build_info \<Rightarrow> string list \<Rightarrow> os_signal list \<Rightarrow>
     (string logger \<Rightarrow> 'k controlplane_vars \<Rightarrow> bool \<Rightarrow> go_error option go) \<Rightarrow> main_exit" where
  "controlplane_main klogFlags k info args sigs run =
     (case controlplane_init klogFlags of
        Inl p \<Rightarrow> \<lparr>exit_status = 2, main_log = []\<rparr>
      | Inr formal \<Rightarrow>
          (case flag_parse formal args (controlplane_defaults k) of
             HelpRequested \<Rightarrow> \<lparr>exit_status = 0, main_log = []\<rparr>
           | ParseFailed e \<Rightarrow> \<lparr>exit_status = 2, main_log = []\<rparr>
           | Parsed vars rest \<Rightarrow> main_after_run info (run (logger_New ''lightpath'') vars (context_cancelled sigs))))"

definition redirect_main ::
    "'k Flag list \<Rightarrow> 'k \<Rightarrow> build_info \<Rightarrow> string list \<Rightarrow> os_signal list \<Rightarrow>
     ('k redirect_vars \<Rightarrow> bool \<Rightarrow> go_error option go) \<Rightarrow> main_exit" where
  "redirect_main klogFlags k info args sigs run =
     (case redirect_init klogFlags of
        Inl p \<Rightarrow> \<lparr>exit_status = 2, main_log = []\<rparr>
      | Inr formal \<Rightarrow>
          (case flag_parse formal args (redirect_defaults k) of
             HelpRequested \<Rightarrow> \<lparr>exit_status = 0, main_log = []\<rparr>
           | ParseFailed e \<Rightarrow> \<lparr>exit_status = 2, main_log = []\<rparr>
           | Parsed vars rest \<Rightarrow> main_after_run info (run vars (context_cancelled sigs))))"

section \<open>What main does with the result of run\<close>

lemma controlplane_main_runs:
  assumes "controlplane_init klogFlags = Inr formal"
    and "flag_parse formal args (controlplane_defaults k) = Parsed vars rest"
  shows "controlplane_main klogFlags k info args sigs run =
    main_after_run info (run (logger_New ''lightpath'') vars (context_cancelled sigs))"
  using assms by (simp add: controlplane_main_def)

lemma redirect_main_runs:
  assumes "redirect_init klogFlags = Inr formal"
    and "flag_parse formal args (redirect_defaults k) = Parsed vars rest"
  shows "redirect_main klogFlags k info args sigs run =
    main_after_run info (run vars (context_cancelled sigs))"
  using assms by (simp add: redirect_main_def)

lemma main_after_error:
  "exit_status (main_after_run info (Inr err)) = 0"
  "ErrorEntry e m \<in> set (main_log (main_after_run info (Inr err))) \<longleftrightarrow>
    err = Some e \<and> m = ''exited with error''"
  by (cases err; auto simp: main_after_run_def Let_def)+

end
