(* ===== verification/Controlplane_Run.thy ===== *)
theory Controlplane_Run
  imports Controlplane Startup Transition_System
begin

text \<open>
  \<open>run\<close> of \<open>cmd/controlplane/controlplane.go\<close>: the set-up with its early returns, then three
  goroutines (the informers, the xDS server, the update loop) that end when the context is
  done, as a step relation; \<open>Start\<close> of \<open>pkg/server/server.go\<close> is part of it, with the goroutine
  that serves gRPC and reports its result over an unbuffered channel.
\<close>

section \<open>Set-up\<close>

definition RESYNC_INTERVAL :: int64 where
  "RESYNC_INTERVAL = 60 * time_Second"

definition NEW_SNAPSHOT_WAIT_TIMEOUT :: int64 where
  "NEW_SNAPSHOT_WAIT_TIMEOUT = 10 * time_Second"

definition GRPC_KEEPALIVE_TIME :: int64 where
  "GRPC_KEEPALIVE_TIME = 10 * time_Second"

definition GRPC_KEEPALIVE_TIMEOUT :: int64 where
  "GRPC_KEEPALIVE_TIMEOUT = 5 * time_Second"

definition GRPC_KEEPALIVE_MIN_TIME :: int64 where
  "GRPC_KEEPALIVE_MIN_TIME = 5 * time_Second"

definition GRPC_MAX_CONCURRENT_STREAMS :: uint32 where
  "GRPC_MAX_CONCURRENT_STREAMS = 1000000"

definition xds_server_opts :: "string logger \<Rightarrow> 'k controlplane_vars \<Rightarrow> XdsServerOpts" where
  "xds_server_opts l vars =
     \<lparr>GrpcKeepaliveTime = GRPC_KEEPALIVE_TIME,
      GrpcKeepaliveTimeout = GRPC_KEEPALIVE_TIMEOUT,
      GrpcKeepaliveMinTime = GRPC_KEEPALIVE_MIN_TIME,
      GrpcMaxConcurrentStreams = GRPC_MAX_CONCURRENT_STREAMS,
      opt_Logger = WithValues l [''component'', ''xds-server''],
      NodeID = var_nodeID vars,
      Host = var_host vars\<rparr>"

text \<open>
  The package \<open>proxyconfig\<close> of kube-proxy: a configuration watches the objects of one kind with an
  informer of the factory, and calls the handlers that are registered with it. What \<open>run\<close>
  registers are the methods of the subscriber, that is, \<open>handle_event\<close>.
\<close>

type_synonym event_handler =
  "kube_event \<Rightarrow> clusterServiceStateCache \<Rightarrow> clusterServiceStateCache \<times> bool"

record ('client, 'text, 'sconf, 'econf) proxyconfig =
  NewServiceConfig :: "('client, 'text) informer_factory \<Rightarrow> int64 \<Rightarrow> 'sconf"
  NewEndpointSliceConfig :: "('client, 'text) informer_factory \<Rightarrow> int64 \<Rightarrow> 'econf"
  service_RegisterEventHandler :: "event_handler \<Rightarrow> 'sconf \<Rightarrow> 'sconf"
  slice_RegisterEventHandler :: "event_handler \<Rightarrow> 'econf \<Rightarrow> 'econf"

text \<open>
  What the set-up builds: the server with the empty initial snapshot (the error of setting it is
  ignored), the factory of the informers, the configurations of services and of endpoint slices
  with their handlers, and the subscriber.
\<close>

record ('client, 'text, 'l, 'cache, 'g, 'sconf, 'econf) run_env =
  env_server :: "('l, 'cache, 'g) xdsServer"
  env_factory :: "('client, 'text) informer_factory"
  env_subscriber :: serviceStateSubscriber
  env_log :: "string logger"
  serviceConfig :: 'sconf
  endpointSliceConfig :: 'econf

definition run_setup ::
    "('config, 'client, 'events) client_libraries \<Rightarrow> ('l, 'cache, 'g) server_libraries \<Rightarrow>
     ('req, 'sel, 'text) labels_package \<Rightarrow> ('client, 'text, 'sconf, 'econf) proxyconfig \<Rightarrow>
     ('snap, 'cache) SnapshotCache \<Rightarrow> 'snap \<Rightarrow> string logger \<Rightarrow> 'k controlplane_vars \<Rightarrow>
     go_error + ('client, 'text, 'l, 'cache, 'g, 'sconf, 'econf) run_env" where
  "run_setup clients servers lp pc sc emptySnapshot l vars =
     (case CreateClients clients (var_kubeconfig vars) of
        Inl err \<Rightarrow> Inl err
      | Inr (client, _) \<Rightarrow>
          (case server_New servers (xds_server_opts l vars) of
             Inl err \<Rightarrow> Inl err
           | Inr s \<Rightarrow>
               (case UpdateSnapshot sc emptySnapshot s of (s, _, _) \<Rightarrow>
                  (case controlplane_selector lp of
                     Inl err \<Rightarrow> Inl err
                   | Inr labelSelector \<Rightarrow>
                       (let informerFactory =
                              \<lparr>factory_client = client, factory_resync = RESYNC_INTERVAL,
                               factory_tweak = tweakListOptions lp labelSelector\<rparr>;
                            sconf = NewServiceConfig pc informerFactory RESYNC_INTERVAL;
                            econf = NewEndpointSliceConfig pc informerFactory RESYNC_INTERVAL
                        in Inr
                          \<lparr>env_server = s,
                           env_factory = informerFactory,
                           env_subscriber = subscriber_New,
                           env_log = WithValues l [''component'', ''state-subscriber''],
                           serviceConfig = service_RegisterEventHandler pc handle_event sconf,
                           endpointSliceConfig = slice_RegisterEventHandler pc handle_event econf\<rparr>)))))"

section \<open>The goroutines\<close>

datatype informer_pc = IStart | IWait | IDone
datatype start_pc = SSelect | SStopping | SReturned "go_error option" | SDone
datatype serve_pc = ServeRunning | Sending "go_error option" | ServeDone

text \<open>
  The update loop: at its \<open>select\<close>; in \<open>ReceiveEvent\<close>, before the lock and in the \<open>select\<close> that
  waits for an event or for \<open>recvCtx\<close>; mapping and publishing a snapshot; ended.
\<close>

datatype loop_pc = LCheck | LLock | LReceive | LMap | LDone

text \<open>
  \<open>recv_expired\<close> is the time-out of \<open>recvCtx\<close>. Of the other parties the state has the number of RPCs
  that are open on the gRPC server, and whether an informer's handler holds \<open>eventLostLock\<close>.
  \<open>stopped\<close> records that \<open>Start\<close> took the branch of \<open>ctx.Done()\<close>; \<open>crashed\<close> that a panic ended the
  process.
\<close>

record run_state =
  ctx_done :: bool
  informer :: informer_pc
  start :: start_pc
  serve :: serve_pc
  stopped :: bool
  loop :: loop_pc
  recv_expired :: bool
  run_returned :: bool
  crashed :: bool
  open_rpcs :: nat
  lock_held :: bool

definition run_init :: run_state where
  "run_init =
     \<lparr>ctx_done = False, informer = IStart, start = SSelect, serve = ServeRunning, stopped = False,
      loop = LCheck, recv_expired = False, run_returned = False, crashed = False, open_rpcs = 0,
      lock_held = False\<rparr>"

text \<open>
  The steps of the program. \<open>GracefulStop\<close> blocks while RPCs are open. \<open>ReceiveEvent\<close> blocks while a
  handler holds the lock; with the lock it either finds a lost event, and takes the snapshot, or
  waits. The wait ends when \<open>recvCtx\<close> is done, by its time-out or because it is derived from the
  context of \<open>run\<close>. The mapping of a snapshot may panic (an endpoint without addresses).
\<close>

inductive program_step :: "run_state \<Rightarrow> run_state \<Rightarrow> bool" where
  informer_starts: "\<not> crashed s \<Longrightarrow> informer s = IStart \<Longrightarrow> program_step s (s\<lparr>informer := IWait\<rparr>)"
| informer_ends: "\<not> crashed s \<Longrightarrow> informer s = IWait \<Longrightarrow> ctx_done s \<Longrightarrow> program_step s (s\<lparr>informer := IDone\<rparr>)"
| start_receives: "\<not> crashed s \<Longrightarrow> start s = SSelect \<Longrightarrow> serve s = Sending err \<Longrightarrow>
    program_step s (s\<lparr>start := SReturned err, serve := ServeDone\<rparr>)"
| start_stops: "\<not> crashed s \<Longrightarrow> start s = SSelect \<Longrightarrow> ctx_done s \<Longrightarrow>
    program_step s (s\<lparr>start := SStopping, stopped := True\<rparr>)"
| start_stopped: "\<not> crashed s \<Longrightarrow> start s = SStopping \<Longrightarrow> open_rpcs s = 0 \<Longrightarrow>
    program_step s (s\<lparr>start := SReturned None\<rparr>)"
| server_ends: "\<not> crashed s \<Longrightarrow> start s = SReturned err \<Longrightarrow>
    program_step s (s\<lparr>start := SDone, ctx_done := ctx_done s \<or> err \<noteq> None\<rparr>)"
| loop_updates: "\<not> crashed s \<Longrightarrow> loop s = LCheck \<Longrightarrow> \<not> ctx_done s \<Longrightarrow>
    program_step s (s\<lparr>loop := LLock, recv_expired := False\<rparr>)"
| loop_lost: "\<not> crashed s \<Longrightarrow> loop s = LLock \<Longrightarrow> \<not> lock_held s \<Longrightarrow> program_step s (s\<lparr>loop := LMap\<rparr>)"
| loop_waits: "\<not> crashed s \<Longrightarrow> loop s = LLock \<Longrightarrow> \<not> lock_held s \<Longrightarrow> program_step s (s\<lparr>loop := LReceive\<rparr>)"
| loop_nil: "\<not> crashed s \<Longrightarrow> loop s = LReceive \<Longrightarrow> ctx_done s \<or> recv_expired s \<Longrightarrow>
    program_step s (s\<lparr>loop := LCheck\<rparr>)"
| loop_next: "\<not> crashed s \<Longrightarrow> loop s = LMap \<Longrightarrow> program_step s (s\<lparr>loop := LCheck\<rparr>)"
| loop_panics: "\<not> crashed s \<Longrightarrow> loop s = LMap \<Longrightarrow> program_step s (s\<lparr>crashed := True\<rparr>)"
| loop_ends: "\<not> crashed s \<Longrightarrow> loop s = LCheck \<Longrightarrow> ctx_done s \<Longrightarrow> program_step s (s\<lparr>loop := LDone\<rparr>)"
| run_returns: "\<not> crashed s \<Longrightarrow> informer s = IDone \<Longrightarrow> start s = SDone \<Longrightarrow> loop s = LDone \<Longrightarrow>
    \<not> run_returned s \<Longrightarrow> program_step s (s\<lparr>run_returned := True\<rparr>)"

text \<open>
  The steps of the others: the caller cancels the context, \<open>Serve\<close> returns, clients open RPCs
  (not after \<open>GracefulStop\<close> was called) and end them, the time-out expires, and a handler takes the
  lock, returns it, or sends an event to the receiver that waits for one.
\<close>

inductive env_step :: "run_state \<Rightarrow> run_state \<Rightarrow> bool" where
  parent_cancels: "\<not> crashed s \<Longrightarrow> \<not> ctx_done s \<Longrightarrow> env_step s (s\<lparr>ctx_done := True\<rparr>)"
| serve_returns: "\<not> crashed s \<Longrightarrow> serve s = ServeRunning \<Longrightarrow> env_step s (s\<lparr>serve := Sending err\<rparr>)"
| rpc_opens: "\<not> crashed s \<Longrightarrow> serve s = ServeRunning \<Longrightarrow> start s = SSelect \<Longrightarrow>
    env_step s (s\<lparr>open_rpcs := Suc (open_rpcs s)\<rparr>)"
| rpc_ends: "\<not> crashed s \<Longrightarrow> open_rpcs s = Suc n \<Longrightarrow> env_step s (s\<lparr>open_rpcs := n\<rparr>)"
| recv_expires: "\<not> crashed s \<Longrightarrow> loop s = LReceive \<Longrightarrow> \<not> recv_expired s \<Longrightarrow> env_step s (s\<lparr>recv_expired := True\<rparr>)"
| handler_locks: "\<not> crashed s \<Longrightarrow> \<not> lock_held s \<Longrightarrow> loop s \<noteq> LReceive \<Longrightarrow> env_step s (s\<lparr>lock_held := True\<rparr>)"
| handler_unlocks: "\<not> crashed s \<Longrightarrow> lock_held s \<Longrightarrow> env_step s (s\<lparr>lock_held := False\<rparr>)"
| handler_sends: "\<not> crashed s \<Longrightarrow> loop s = LReceive \<Longrightarrow> env_step s (s\<lparr>loop := LMap\<rparr>)"

inductive run_step :: "run_state \<Rightarrow> run_state \<Rightarrow> bool" where
  program: "program_step s t \<Longrightarrow> run_step s t"
| environment: "env_step s t \<Longrightarrow> run_step s t"

inductive_cases program_stepE: "program_step s t"
inductive_cases env_stepE: "env_step s t"
inductive_cases run_step_elim: "run_step s t"

abbreviation run_reachable :: "run_state \<Rightarrow> bool" where
  "run_reachable \<equiv> reachable (\<lambda>s. s = run_init) run_step"

section \<open>Invariant\<close>

definition run_inv :: "run_state \<Rightarrow> bool" where
  "run_inv s \<longleftrightarrow>
     (stopped s \<longrightarrow> start s \<noteq> SSelect \<and> serve s \<noteq> ServeDone) \<and>
     (start s = SSelect \<longrightarrow> serve s \<noteq> ServeDone) \<and>
     (informer s = IDone \<or> loop s = LDone \<longrightarrow> ctx_done s) \<and>
     (run_returned s \<longrightarrow> informer s = IDone \<and> start s = SDone \<and> loop s = LDone)"

lemma run_inv_program: "run_inv s \<Longrightarrow> program_step s t \<Longrightarrow> run_inv t"
  by (erule program_stepE) (auto simp: run_inv_def)

lemma run_inv_env: "run_inv s \<Longrightarrow> env_step s t \<Longrightarrow> run_inv t"
  by (erule env_stepE) (auto simp: run_inv_def)

lemma run_inv_step: "run_inv s \<Longrightarrow> run_step s t \<Longrightarrow> run_inv t"
  by (erule run_step_elim) (rule run_inv_program run_inv_env, assumption+)+

lemma run_inv_init: "run_inv run_init"
  by (simp add: run_inv_def run_init_def)

interpretation run: invariant_system "\<lambda>s. s = run_init" run_step run_inv
  by unfold_locales (use run_inv_init run_inv_step in blast)+

section \<open>Termination\<close>

text \<open>
  A measure that the steps of the program decrease once the context is done, and those of the
  others do not increase.
\<close>

fun informer_rank :: "informer_pc \<Rightarrow> nat" where
  "informer_rank IStart = 2" | "informer_rank IWait = 1" | "informer_rank IDone = 0"

fun start_rank :: "start_pc \<Rightarrow> nat" where
  "start_rank SSelect = 3" | "start_rank SStopping = 2" | "start_rank (SReturned e) = 1"
| "start_rank SDone = 0"

fun loop_rank :: "loop_pc \<Rightarrow> nat" where
  "loop_rank LLock = 4" | "loop_rank LReceive = 3" | "loop_rank LMap = 2" | "loop_rank LCheck = 1"
| "loop_rank LDone = 0"

definition run_measure :: "run_state \<Rightarrow> nat" where
  "run_measure s =
     informer_rank (informer s) + start_rank (start s) + loop_rank (loop s) +
     (if run_returned s \<or> crashed s then 0 else 1)"

lemma run_measure_bound: "run_measure s \<le> 10"
proof -
  have "informer_rank (informer s) \<le> 2" by (cases "informer s") simp_all
  moreover have "start_rank (start s) \<le> 3" by (cases "start s") simp_all
  moreover have "loop_rank (loop s) \<le> 4" by (cases "loop s") simp_all
  ultimately show ?thesis by (simp add: run_measure_def)
qed

text \<open>What the program waits for and the others have to do: end the RPCs, return the lock.\<close>

definition released :: "run_state \<Rightarrow> bool" where
  "released s \<longleftrightarrow> open_rpcs s = 0 \<and> \<not> lock_held s"

abbreviation run_over :: "run_state \<Rightarrow> bool" where
  "run_over s \<equiv> run_returned s \<or> crashed s"

lemma program_progress:
  assumes "ctx_done s" "released s" "\<not> run_over s"
  shows "\<exists>t. program_step s t"
proof (cases "informer s = IDone \<and> start s = SDone \<and> loop s = LDone")
  case True
  then show ?thesis using assms(3) run_returns by blast
next
  case False
  then consider "informer s = IStart" | "informer s = IWait" | "start s = SSelect" | "start s = SStopping"
    | err where "start s = SReturned err" | "loop s = LCheck" | "loop s = LLock" | "loop s = LReceive"
    | "loop s = LMap"
    by (cases "informer s"; cases "start s"; cases "loop s") auto
  then show ?thesis
    by cases (use assms [unfolded released_def] program_step.intros in metis)+
qed

interpretation shutdown: environment_phase program_step env_step "\<lambda>s. ctx_done s \<and> run_inv s" run_measure
  run_over released
proof
  fix s t
  show "(ctx_done t \<and> run_inv t) \<and> run_measure t < run_measure s"
    if "ctx_done s \<and> run_inv s" "program_step s t"
  proof -
    have "run_inv t" using that run_inv_program by blast
    moreover have "ctx_done t \<and> run_measure t < run_measure s"
      using that(2,1) by (elim program_stepE) (auto simp: run_measure_def run_inv_def)
    ultimately show ?thesis by blast
  qed
  show "(ctx_done t \<and> run_inv t) \<and> run_measure t \<le> run_measure s"
    if "ctx_done s \<and> run_inv s" "env_step s t"
  proof -
    have "run_inv t" using that run_inv_env by blast
    moreover have "ctx_done t \<and> run_measure t \<le> run_measure s"
      using that(2,1) by (elim env_stepE) (auto simp: run_measure_def)
    ultimately show ?thesis by blast
  qed
  show "released t" if "released s" "program_step s t"
    using that(2,1) by (elim program_stepE) (auto simp: released_def)
  show "\<exists>t. program_step s t" if "ctx_done s \<and> run_inv s" "released s" "\<not> run_over s"
    using program_progress that by blast
qed

section \<open>Properties\<close>

text \<open>
  C14. Termination: once the context is done, the goroutines of \<open>run\<close> make at most ten more steps,
  however they interleave with each other and with the informers, the gRPC clients and the clock.
  And they do not stop before the end: when the clients have ended their RPCs and no handler
  holds \<open>eventLostLock\<close>, a state without a further step is one in which \<open>run\<close> has returned, or the
  mapping of a snapshot has panicked.
\<close>

theorem run_terminates:
  assumes "run_reachable s" "ctx_done s"
  shows "(\<forall>n t. counted_run program_step env_step n s t \<longrightarrow> n \<le> 10) \<and>
    (\<forall>n t u. counted_run program_step env_step n s t \<longrightarrow> open_rpcs t = 0 \<longrightarrow> \<not> lock_held t \<longrightarrow>
      program_step\<^sup>*\<^sup>* t u \<longrightarrow> (\<nexists>v. program_step u v) \<longrightarrow> run_returned u \<or> crashed u)"
proof -
  have inv: "ctx_done s \<and> run_inv s" using assms run.reachable_inv by blast
  have "n \<le> 10" if "counted_run program_step env_step n s t" for n t
    using shutdown.counted_bound [OF that inv] run_measure_bound [of s] by simp
  moreover have "run_over u" if "counted_run program_step env_step n s t" "open_rpcs t = 0" "\<not> lock_held t"
    "program_step\<^sup>*\<^sup>* t u" "\<nexists>v. program_step u v" for n t u
    using shutdown.alone.stuck_goal [OF that(4) _ that(5)] shutdown.counted_bound [OF that(1) inv] that(2,3)
    by (simp add: released_def)
  ultimately show ?thesis by blast
qed

text \<open>A complete run: the caller cancels, the server stops, and \<open>run\<close> returns.\<close>

definition ex_stopping :: run_state where
  "ex_stopping = run_init\<lparr>ctx_done := True, start := SStopping, stopped := True\<rparr>"

definition ex_returned :: run_state where
  "ex_returned = ex_stopping\<lparr>informer := IDone, start := SDone, loop := LDone, run_returned := True\<rparr>"

lemma ex_stopping_reachable: "run_reachable ex_stopping"
proof -
  have "run_step run_init (run_init\<lparr>ctx_done := True\<rparr>)"
    by (intro environment parent_cancels) (simp_all add: run_init_def)
  moreover have "run_step (run_init\<lparr>ctx_done := True\<rparr>) ex_stopping"
    using program [OF start_stops [of "run_init\<lparr>ctx_done := True\<rparr>"]] by (simp add: run_init_def ex_stopping_def)
  ultimately have "run_step\<^sup>*\<^sup>* run_init ex_stopping" by simp
  then show ?thesis by (rule reachable_steps) (simp add: reachable.start)
qed

lemma ex_stopping_program: "program_step\<^sup>*\<^sup>* ex_stopping ex_returned"
proof -
  let ?a = "ex_stopping\<lparr>start := SReturned None\<rparr>"
  let ?b = "?a\<lparr>start := SDone\<rparr>"
  let ?c = "?b\<lparr>informer := IWait\<rparr>"
  let ?d = "?c\<lparr>informer := IDone\<rparr>"
  let ?e = "?d\<lparr>loop := LDone\<rparr>"
  have "program_step ex_stopping ?a" "program_step ?a ?b" "program_step ?b ?c" "program_step ?c ?d"
    "program_step ?d ?e" "program_step ?e (?e\<lparr>run_returned := True\<rparr>)"
    using start_stopped [of ex_stopping] server_ends [of ?a None] informer_starts [of ?b]
      informer_ends [of ?c] loop_ends [of ?d] run_returns [of ?e]
    by (simp_all add: ex_stopping_def run_init_def)
  moreover have "?e\<lparr>run_returned := True\<rparr> = ex_returned"
    by (simp add: ex_returned_def ex_stopping_def run_init_def)
  ultimately show ?thesis by (metis rtranclp.simps)
qed

lemma ex_stopping_returns: "run_step\<^sup>*\<^sup>* ex_stopping ex_returned"
  using ex_stopping_program by (rule mono_rtranclp [rule_format, rotated]) (rule program)

lemma ex_returned_reachable: "run_reachable ex_returned"
  by (rule reachable_steps [OF ex_stopping_returns ex_stopping_reachable])

theorem run_terminates_witness:
  "run_returned ex_returned \<or> crashed ex_returned"
proof -
  have "\<nexists>v. program_step ex_returned v"
    by (auto simp: ex_returned_def ex_stopping_def run_init_def elim: program_stepE)
  then show ?thesis
    using run_terminates [OF ex_stopping_reachable] ex_stopping_program
      counted_run.run_empty [of program_step env_step ex_stopping]
    by (auto simp: ex_stopping_def run_init_def)
qed

text \<open>
  \<open>run\<close> does not return while the context is not done, and the context is done only by the
  caller or by an error of the xDS server.
\<close>

theorem run_returns_only_when_done:
  assumes "run_reachable s" "run_returned s"
  shows "ctx_done s \<and> informer s = IDone \<and> start s = SDone \<and> loop s = LDone"
  using run.reachable_inv [OF assms(1)] assms(2) by (simp add: run_inv_def)

theorem run_returns_only_when_done_witness:
  "ctx_done ex_returned \<and> informer ex_returned = IDone \<and> start ex_returned = SDone \<and> loop ex_returned = LDone"
  by (rule run_returns_only_when_done [OF ex_returned_reachable]) (simp add: ex_returned_def)

text \<open>
  C34. When \<open>Start\<close> ends because the context is done, the goroutine that serves gRPC never ends: it
  cannot hand its result to the channel that nobody reads any more.
\<close>

theorem serve_goroutine_leaks:
  assumes "run_reachable s" "stopped s" "run_step\<^sup>*\<^sup>* s t"
  shows "stopped t \<and> serve t \<noteq> ServeDone"
proof -
  have prog: "stopped u" if "program_step s u" "stopped s" for s u
    using that by (elim program_stepE) auto
  have env: "stopped u" if "env_step s u" "stopped s" for s u
    using that by (elim env_stepE) auto
  have step: "stopped u" if "run_step s u" "stopped s" for s u
    using that prog env by (elim run_step_elim) blast+
  have "stopped t" using assms(3,2) by (induction rule: rtranclp_induct) (auto intro: step)
  moreover have "run_inv t"
    using run.steps_inv [OF assms(3) run.reachable_inv [OF assms(1)]] .
  ultimately show ?thesis by (simp add: run_inv_def)
qed

theorem serve_goroutine_leaks_witness: "stopped ex_returned \<and> serve ex_returned \<noteq> ServeDone"
  by (rule serve_goroutine_leaks [OF ex_stopping_reachable _ ex_stopping_returns])
    (simp add: ex_stopping_def)

section \<open>Set-up and result\<close>

text \<open>\<open>run\<close> returns an error when its set-up fails, and nil when all goroutines have ended.\<close>

definition run_result ::
    "go_error + ('client, 'text, 'l, 'cache, 'g, 'sconf, 'econf) run_env \<Rightarrow> run_state \<Rightarrow> go_error option option" where
  "run_result setup s =
     (case setup of
        Inl err \<Rightarrow> Some (Some err)
      | Inr env \<Rightarrow> if run_returned s then Some None else None)"

lemma run_setup_Inr:
  assumes "run_setup clients servers lp pc sc emptySnapshot l vars = Inr env"
  obtains srv labelSelector where "server_New servers (xds_server_opts l vars) = Inr srv"
    "controlplane_selector lp = Inr labelSelector"
    "env_server env = fst (UpdateSnapshot sc emptySnapshot srv)"
    "factory_tweak (env_factory env) = tweakListOptions lp labelSelector"
    "serviceConfig env = service_RegisterEventHandler pc handle_event
       (NewServiceConfig pc (env_factory env) RESYNC_INTERVAL)"
    "endpointSliceConfig env = slice_RegisterEventHandler pc handle_event
       (NewEndpointSliceConfig pc (env_factory env) RESYNC_INTERVAL)"
  using assms by (auto simp: run_setup_def Let_def split: sum.splits prod.splits)

lemma run_setup_succeeds:
  "(\<exists>env. run_setup clients servers lp pc sc emptySnapshot l vars = Inr env) \<longleftrightarrow>
     (\<exists>c. CreateClients clients (var_kubeconfig vars) = Inr c) \<and>
     (\<exists>ln. net_Listen servers ''tcp'' (var_host vars) = Inr ln) \<and>
     (\<exists>sel. controlplane_selector lp = Inr sel)"
  by (auto simp: run_setup_def server_New_def xds_server_opts_def Let_def split: sum.splits prod.splits)

lemma server_New_Inr:
  assumes "server_New servers srvOpts = Inr srv"
  shows "net_Listen servers ''tcp'' (Host srvOpts) = Inr (listen srv)" "nodeID srv = NodeID srvOpts"
    "xds_cache srv = NewSnapshotCache servers True (opt_Logger srvOpts)"
  using assms by (auto simp: server_New_def split: sum.splits)

lemma UpdateSnapshot_frame:
  "listen (fst (UpdateSnapshot sc snap srv)) = listen srv"
  "nodeID (fst (UpdateSnapshot sc snap srv)) = nodeID srv"
  "xds_cache (fst (UpdateSnapshot sc snap srv)) = fst (SetSnapshot sc (nodeID srv) snap (xds_cache srv))"
  by (simp_all add: UpdateSnapshot_def Let_def split: prod.split)

text \<open>
  C19. The set-up of \<open>run\<close> succeeds exactly if the clients, the listener and the selector can be
  built; whether the empty snapshot could be set does not matter. Then the server listens on the
  host of the command line under the node of the command line; the informers ask for the objects
  that the selector selects; the methods of the subscriber are registered for services and
  for endpoint slices; and if the snapshot cache took the empty snapshot, clients of the node find
  it before the first update.
\<close>

theorem run_setup_ready:
  assumes "snapshot_cache sc GetSnapshot" "label_server lp req_matches sel_matches server_sends"
  shows "((\<exists>env. run_setup clients servers lp pc sc emptySnapshot l vars = Inr env) \<longleftrightarrow>
      (\<exists>c. CreateClients clients (var_kubeconfig vars) = Inr c) \<and>
      (\<exists>ln. net_Listen servers ''tcp'' (var_host vars) = Inr ln) \<and>
      (\<exists>sel. controlplane_selector lp = Inr sel)) \<and>
    (\<forall>env. run_setup clients servers lp pc sc emptySnapshot l vars = Inr env \<longrightarrow>
      net_Listen servers ''tcp'' (var_host vars) = Inr (listen (env_server env)) \<and>
      nodeID (env_server env) = var_nodeID vars \<and>
      (\<forall>options ls. server_sends (factory_tweak (env_factory env) options) ls = selected ls) \<and>
      serviceConfig env = service_RegisterEventHandler pc handle_event
        (NewServiceConfig pc (env_factory env) RESYNC_INTERVAL) \<and>
      endpointSliceConfig env = slice_RegisterEventHandler pc handle_event
        (NewEndpointSliceConfig pc (env_factory env) RESYNC_INTERVAL) \<and>
      (snd (SetSnapshot sc (var_nodeID vars) emptySnapshot
          (NewSnapshotCache servers True (WithValues l [''component'', ''xds-server'']))) = None \<longrightarrow>
        GetSnapshot (var_nodeID vars) (xds_cache (env_server env)) = Some emptySnapshot))"
proof (rule conjI [OF run_setup_succeeds], intro allI impI)
  fix env
  assume "run_setup clients servers lp pc sc emptySnapshot l vars = Inr env"
  then obtain srv sel where srv: "server_New servers (xds_server_opts l vars) = Inr srv"
    and sel: "controlplane_selector lp = Inr sel" "factory_tweak (env_factory env) = tweakListOptions lp sel"
    and env: "env_server env = fst (UpdateSnapshot sc emptySnapshot srv)"
      "serviceConfig env = service_RegisterEventHandler pc handle_event
        (NewServiceConfig pc (env_factory env) RESYNC_INTERVAL)"
      "endpointSliceConfig env = slice_RegisterEventHandler pc handle_event
        (NewEndpointSliceConfig pc (env_factory env) RESYNC_INTERVAL)"
    by (rule run_setup_Inr)
  let ?set = "SetSnapshot sc (var_nodeID vars) emptySnapshot
      (NewSnapshotCache servers True (WithValues l [''component'', ''xds-server'']))"
  have cache: "xds_cache (env_server env) = fst ?set"
    using server_New_Inr [OF srv] env(1) by (simp add: UpdateSnapshot_frame xds_server_opts_def)
  have listens: "net_Listen servers ''tcp'' (var_host vars) = Inr (listen (env_server env))"
    "nodeID (env_server env) = var_nodeID vars"
    using server_New_Inr(1,2) [OF srv] unfolding env(1) UpdateSnapshot_frame by (simp_all add: xds_server_opts_def)
  have sends: "\<forall>options ls. server_sends (factory_tweak (env_factory env) options) ls = selected ls"
    using label_server.selector_sends [OF assms(2) sel(1)] sel(2) by simp
  have get: "GetSnapshot (var_nodeID vars) (fst ?set) = Some emptySnapshot" if "snd ?set = None"
    using that by (cases ?set) (simp add: snapshot_cache.set_get [OF assms(1)])
  show "net_Listen servers ''tcp'' (var_host vars) = Inr (listen (env_server env)) \<and>
      nodeID (env_server env) = var_nodeID vars \<and>
      (\<forall>options ls. server_sends (factory_tweak (env_factory env) options) ls = selected ls) \<and>
      serviceConfig env = service_RegisterEventHandler pc handle_event
        (NewServiceConfig pc (env_factory env) RESYNC_INTERVAL) \<and>
      endpointSliceConfig env = slice_RegisterEventHandler pc handle_event
        (NewEndpointSliceConfig pc (env_factory env) RESYNC_INTERVAL) \<and>
      (snd ?set = None \<longrightarrow> GetSnapshot (var_nodeID vars) (xds_cache (env_server env)) = Some emptySnapshot)"
    unfolding cache by (intro conjI impI listens sends env(2,3) get)
qed

text \<open>Libraries in which every call succeeds; a configuration is the list of its handlers.\<close>

definition ex_clients :: "(unit, unit, unit) client_libraries" where
  "ex_clients = \<lparr>InClusterConfig = Inr (), ClientConfig = (\<lambda>_. Inr ()), NewForConfig = (\<lambda>_. Inr ()), CoreV1 = (\<lambda>_. ())\<rparr>"

definition ex_servers :: "(string, (string, resources) gomap, xds_service list) server_libraries" where
  "ex_servers = \<lparr>net_Listen = (\<lambda>net host. Inr host), NewSnapshotCache = (\<lambda>_ _. []), grpc_NewServer = (\<lambda>_. []),
     RegisterServer = (\<lambda>svc _ g. g @ [svc]), GracefulStop = (\<lambda>g. g)\<rparr>"

definition ex_proxyconfig :: "(unit, ref_requirement list, event_handler list, event_handler list) proxyconfig" where
  "ex_proxyconfig = \<lparr>NewServiceConfig = (\<lambda>_ _. []), NewEndpointSliceConfig = (\<lambda>_ _. []),
     service_RegisterEventHandler = (\<lambda>h hs. hs @ [h]), slice_RegisterEventHandler = (\<lambda>h hs. hs @ [h])\<rparr>"

theorem run_setup_ready_witness:
  "\<exists>env. run_setup ex_clients ex_servers ref_labels ex_proxyconfig map_cache no_resources (logger_New ''lightpath'')
      (controlplane_defaults ()) = Inr env \<and>
    gomap_get (xds_cache (env_server env)) ''k8s'' = Some no_resources \<and>
    listen (env_server env) = ''127.0.0.1:18000'' \<and> serviceConfig env = [handle_event]"
proof -
  note ready = run_setup_ready [OF map_cache.snapshot_cache_axioms ref_server.label_server_axioms,
      of ex_clients ex_servers ex_proxyconfig no_resources "logger_New ''lightpath''" "controlplane_defaults ()"]
  have "\<exists>env. run_setup ex_clients ex_servers ref_labels ex_proxyconfig map_cache no_resources
      (logger_New ''lightpath'') (controlplane_defaults ()) = Inr env"
    by (rule iffD2 [OF conjunct1 [OF ready]])
      (simp add: ex_selector_built CreateClients_def ex_clients_def ex_servers_def)
  then obtain env where env: "run_setup ex_clients ex_servers ref_labels ex_proxyconfig map_cache no_resources
      (logger_New ''lightpath'') (controlplane_defaults ()) = Inr env" ..
  from conjunct2 [OF ready, rule_format, OF env] show ?thesis
    by (intro exI [of _ env] conjI env)
      (simp_all add: map_cache_def controlplane_defaults_def ex_servers_def ex_proxyconfig_def)
qed

end
