(* ===== verification/Go_Net.thy ===== *)
theory Go_Net
  imports Go_Strconv
begin

text \<open>
  The part of Go's package \<open>net\<close> that the redirect uses: \<open>ParseIP\<close>, \<open>IP.To4\<close> and
  \<open>IP.String\<close>. An \<open>IP\<close> is a byte slice; the nil slice is the empty list.
\<close>

type_synonym byte = "8 word"
type_synonym IP = "byte list"

section \<open>Parsing\<close>

definition hex_val :: "char \<Rightarrow> nat option" where
  "hex_val c =
     (let v = (of_char c :: nat)
      in if 48 \<le> v \<and> v \<le> 57 then Some (v - 48)
         else if 97 \<le> v \<and> v \<le> 102 then Some (v - 97 + 10)
         else if 65 \<le> v \<and> v \<le> 70 then Some (v - 65 + 10)
         else None)"

text \<open>
  \<open>dtoi\<close> and \<open>xtoi\<close>: the number at the start of a string, the count of its characters, and
  whether there is one below the bound \<open>0xFFFFFF\<close>.
\<close>

fun toi_loop :: "nat \<Rightarrow> (char \<Rightarrow> nat option) \<Rightarrow> nat \<Rightarrow> nat \<Rightarrow> string \<Rightarrow> nat \<times> nat \<times> bool" where
  "toi_loop base digit n i [] = (n, i, True)"
| "toi_loop base digit n i (c # s) =
     (case digit c of
        None \<Rightarrow> (n, i, True)
      | Some d \<Rightarrow> if n * base + d \<ge> 0xFFFFFF then (0xFFFFFF, i, False)
                  else toi_loop base digit (n * base + d) (i + 1) s)"

definition dtoi :: "string \<Rightarrow> nat \<times> nat \<times> bool" where
  "dtoi s = (let (n, i, ok) = toi_loop 10 digit_val 0 0 s
             in if ok \<and> i = 0 then (0, 0, False) else (n, i, ok))"

definition xtoi :: "string \<Rightarrow> nat \<times> nat \<times> bool" where
  "xtoi s = (let (n, i, ok) = toi_loop 16 hex_val 0 0 s
             in if ok \<and> i = 0 then (0, 0, False) else (n, i, ok))"

definition v4InV6Prefix :: IP where
  "v4InV6Prefix = replicate 10 0 @ [0xFF, 0xFF]"

text \<open>The loop of \<open>parseIPv4\<close>: \<open>k\<close> octets are still to be read, and \<open>p\<close> holds those read.\<close>

fun parse_octets :: "nat \<Rightarrow> byte list \<Rightarrow> string \<Rightarrow> IP" where
  "parse_octets 0 p s = (if s \<noteq> [] then [] else v4InV6Prefix @ p)"
| "parse_octets (Suc k) p s =
     (if s = [] then []
      else if p \<noteq> [] \<and> hd s \<noteq> CHR ''.'' then []
      else let s = (if p \<noteq> [] then tl s else s);
               (n, c, ok) = dtoi s
           in if \<not> ok \<or> n > 0xFF then []
              else if c > 1 \<and> hd s = CHR ''0'' then []
              else parse_octets k (p @ [of_nat n]) (drop c s))"

definition parseIPv4 :: "string \<Rightarrow> IP" where
  "parseIPv4 s = parse_octets 4 [] s"

text \<open>
  The loop of \<open>parseIPv6\<close>: the bytes read so far, the position of the ellipsis, and the rest of
  the string.
\<close>

function parse6_loop ::
    "byte list \<Rightarrow> nat option \<Rightarrow> string \<Rightarrow> (byte list \<times> nat option \<times> string) option" where
  "parse6_loop ip ellipsis s =
     (if length ip \<ge> 16 then Some (ip, ellipsis, s)
      else case xtoi s of (n, c, ok) \<Rightarrow>
        if \<not> ok \<or> n > 0xFFFF then None
        else if c < length s \<and> s ! c = CHR ''.'' then
          (if ellipsis = None \<and> length ip \<noteq> 12 then None
           else if length ip + 4 > 16 then None
           else if parseIPv4 s = [] then None
           else Some (ip @ drop 12 (parseIPv4 s), ellipsis, []))
        else let ip = ip @ [of_nat (n div 256), of_nat n];
                 s = drop c s
             in if s = [] then Some (ip, ellipsis, s)
                else if hd s \<noteq> CHR '':'' \<or> length s = 1 then None
                else let s = tl s
                     in if hd s = CHR '':'' then
                          (if ellipsis \<noteq> None then None
                           else if tl s = [] then Some (ip, Some (length ip), [])
                           else parse6_loop ip (Some (length ip)) (tl s))
                        else parse6_loop ip ellipsis s)"
  by pat_completeness auto
termination
  by (relation "measure (\<lambda>(ip, _). 16 - length ip)") auto

declare parse6_loop.simps [simp del]

definition expand_ellipsis :: "byte list \<times> nat option \<times> string \<Rightarrow> IP" where
  "expand_ellipsis res =
     (case res of (ip, ellipsis, s) \<Rightarrow>
        if s \<noteq> [] then []
        else if length ip < 16 then
          (case ellipsis of
             None \<Rightarrow> []
           | Some e \<Rightarrow> take e ip @ replicate (16 - length ip) 0 @ drop e ip)
        else if ellipsis \<noteq> None then []
        else ip)"

definition parseIPv6 :: "string \<Rightarrow> IP" where
  "parseIPv6 s =
     (let leading = (take 2 s = ''::'')
      in if leading \<and> drop 2 s = [] then replicate 16 0
         else case parse6_loop [] (if leading then Some 0 else None) (if leading then drop 2 s else s) of
                None \<Rightarrow> []
              | Some res \<Rightarrow> expand_ellipsis res)"

fun ParseIP_scan :: "string \<Rightarrow> string \<Rightarrow> IP" where
  "ParseIP_scan s [] = []"
| "ParseIP_scan s (c # cs) =
     (if c = CHR ''.'' then parseIPv4 s
      else if c = CHR '':'' then parseIPv6 s
      else ParseIP_scan s cs)"

definition ParseIP :: "string \<Rightarrow> IP" where
  "ParseIP s = ParseIP_scan s s"

section \<open>Printing\<close>

definition To4 :: "IP \<Rightarrow> IP" where
  "To4 ip =
     (if length ip = 4 then ip
      else if length ip = 16 \<and> take 12 ip = v4InV6Prefix then drop 12 ip
      else [])"

definition hex_char :: "nat \<Rightarrow> char" where
  "hex_char d = ''0123456789abcdef'' ! d"

fun appendHex :: "nat \<Rightarrow> string" where
  "appendHex n = (if n < 16 then [hex_char n] else appendHex (n div 16) @ [hex_char (n mod 16)])"

declare appendHex.simps [simp del]

definition hexString :: "byte list \<Rightarrow> string" where
  "hexString b = concat (map (\<lambda>x. [hex_char (unat x div 16), hex_char (unat x mod 16)]) b)"

definition dotted :: "byte list \<Rightarrow> string" where
  "dotted p4 =
     fmt_nat (unat (p4 ! 0)) @ ''.'' @ fmt_nat (unat (p4 ! 1)) @ ''.'' @
     fmt_nat (unat (p4 ! 2)) @ ''.'' @ fmt_nat (unat (p4 ! 3))"

text \<open>The groups of an IPv6 address, and the length of the run of zero groups at the start.\<close>

fun groups16 :: "byte list \<Rightarrow> nat list" where
  "groups16 (a # b # p) = (unat a * 256 + unat b) # groups16 p"
| "groups16 p = []"

definition zero_run :: "nat list \<Rightarrow> nat" where
  "zero_run gs = length (takeWhile (\<lambda>g. g = 0) gs)"

text \<open>
  The first longest run of zero groups as a start and an end; \<open>fuel\<close> is the number of groups.
  When a run is taken the loop continues behind the group that ends it.
\<close>

fun longest_run :: "nat \<Rightarrow> nat list \<Rightarrow> nat \<Rightarrow> nat \<times> nat \<Rightarrow> nat \<times> nat" where
  "longest_run 0 gs i best = best"
| "longest_run (Suc fuel) gs i best =
     (if i \<ge> length gs then best
      else let r = zero_run (drop i gs)
           in if r > 0 \<and> r > snd best - fst best then longest_run fuel gs (i + r + 1) (i, i + r)
              else longest_run fuel gs (i + 1) best)"

definition join_groups :: "nat list \<Rightarrow> string" where
  "join_groups gs = (case gs of [] \<Rightarrow> [] | g # gs \<Rightarrow>
     appendHex g @ concat (map (\<lambda>g. CHR '':'' # appendHex g) gs))"

definition ipv6_string :: "byte list \<Rightarrow> string" where
  "ipv6_string p =
     (let gs = groups16 p;
          (e0, e1) = longest_run (length gs) gs 0 (0, 0)
      in if e1 - e0 \<le> 1 then join_groups gs
         else join_groups (take e0 gs) @ ''::'' @ join_groups (drop e1 gs))"

definition IP_String :: "IP \<Rightarrow> string" where
  "IP_String ip =
     (if ip = [] then ''<nil>''
      else if length (To4 ip) = 4 then dotted (To4 ip)
      else if length ip \<noteq> 16 then CHR ''?'' # hexString ip
      else ipv6_string ip)"

text \<open>The loop over the four octets, unrolled for evaluation.\<close>

lemma parseIPv4_unroll: "parseIPv4 s = parse_octets (Suc (Suc (Suc (Suc 0)))) [] s"
  by (simp add: parseIPv4_def eval_nat_numeral)

section \<open>IPv4 addresses have one text\<close>

lemma digit_val_SomeD: "digit_val c = Some d \<Longrightarrow> d < 10 \<and> c = digit_char d"
proof -
  assume a: "digit_val c = Some d"
  then have "d < 10" by (auto simp: digit_val_def Let_def split: if_splits)
  moreover have "of_char c = (48 + d :: nat)" using a by (auto simp: digit_val_def Let_def split: if_splits)
  then have "of_char c = (of_char (digit_char d) :: nat)" using \<open>d < 10\<close> by (simp add: of_char_digit_char)
  ultimately show ?thesis by simp
qed

lemma fmt_nat_snoc: "0 < n \<Longrightarrow> d < 10 \<Longrightarrow> fmt_nat (n * 10 + d) = fmt_nat n @ [digit_char d]"
  by (subst fmt_nat.simps) simp

lemma toi_loop_text:
  assumes "0 < n" "toi_loop 10 digit_val n i s = (m, j, True)"
  shows "i \<le> j \<and> fmt_nat n @ take (j - i) s = fmt_nat m"
  using assms
proof (induction s arbitrary: n i)
  case Nil
  then show ?case by simp
next
  case (Cons c s)
  show ?case
  proof (cases "digit_val c")
    case None
    then show ?thesis using Cons.prems by simp
  next
    case (Some d)
    then have d: "d < 10" "c = digit_char d" by (auto dest: digit_val_SomeD)
    with Some Cons.prems have "toi_loop 10 digit_val (n * 10 + d) (i + 1) s = (m, j, True)"
      by (simp split: if_splits)
    from Cons.IH [OF _ this] have IH: "i + 1 \<le> j" "fmt_nat (n * 10 + d) @ take (j - (i + 1)) s = fmt_nat m"
      using Cons.prems(1) by auto
    moreover have "j - i = Suc (j - (i + 1))" using IH(1) by simp
    ultimately show ?thesis using d Cons.prems(1) by (simp add: fmt_nat_snoc)
  qed
qed

lemma toi_loop_mono: "toi_loop 10 digit_val n i s = (m, j, True) \<Longrightarrow> i \<le> j"
  by (induction s arbitrary: n i) (auto split: option.splits if_splits, fastforce)

lemma dtoi_text:
  assumes "dtoi s = (n, c, True)" "\<not> (c > 1 \<and> hd s = CHR ''0'')"
  shows "s = fmt_nat n @ drop c s"
proof (cases s)
  case Nil
  then show ?thesis using assms by (simp add: dtoi_def)
next
  case (Cons x xs)
  obtain d where x: "digit_val x = Some d"
    using assms(1) Cons by (cases "digit_val x") (auto simp: dtoi_def)
  then have d: "d < 10" "x = digit_char d" by (auto dest: digit_val_SomeD)
  have loop: "toi_loop 10 digit_val d 1 xs = (n, c, True)"
    using assms(1) Cons x d(1) by (auto simp: dtoi_def split: prod.splits if_splits)
  have c: "1 \<le> c" using toi_loop_mono [OF loop] by simp
  have "fmt_nat d @ take (c - 1) xs = fmt_nat n"
  proof (cases "d = 0")
    case True
    then have "x = CHR ''0''" using d by (simp add: digit_char_def)
    then have "c = 1" using assms(2) c Cons by simp
    moreover have "n = 0"
      using loop True \<open>c = 1\<close>
      by (cases xs) (auto split: option.splits if_splits dest!: toi_loop_mono)
    ultimately show ?thesis using True by simp
  next
    case False
    then show ?thesis using toi_loop_text [OF _ loop] by simp
  qed
  moreover have "s = (fmt_nat d @ take (c - 1) xs) @ drop c s"
    using Cons d c by (cases c) (simp_all add: fmt_nat.simps [of d])
  ultimately show ?thesis by simp
qed

definition dot_text :: "byte list \<Rightarrow> string" where
  "dot_text q = concat (map (\<lambda>x. CHR ''.'' # fmt_nat (unat x)) q)"

lemma parse_octets_text:
  assumes "parse_octets k p s \<noteq> []" "0 < k \<or> p \<noteq> []"
  shows "\<exists>q. length q = k \<and> parse_octets k p s = v4InV6Prefix @ p @ q \<and>
    (if p = [] then CHR ''.'' # s else s) = dot_text q"
  using assms
proof (induction k arbitrary: p s)
  case 0
  then show ?case by (auto simp: dot_text_def split: if_splits)
next
  case (Suc k)
  define s' where "s' = (if p \<noteq> [] then tl s else s)"
  obtain n c where d: "dtoi s' = (n, c, True)" and n: "n \<le> 255"
    and z: "\<not> (c > 1 \<and> hd s' = CHR ''0'')" and s: "s \<noteq> []" "p \<noteq> [] \<longrightarrow> hd s = CHR ''.''"
    and step: "parse_octets (Suc k) p s = parse_octets k (p @ [of_nat n]) (drop c s')"
    using Suc.prems(1) by (auto simp: s'_def Let_def not_le not_less split: if_splits prod.splits)
  obtain q where q: "length q = k" "drop c s' = dot_text q"
    "parse_octets k (p @ [of_nat n]) (drop c s') = v4InV6Prefix @ (p @ [of_nat n]) @ q"
    using Suc.IH [of "p @ [of_nat n]" "drop c s'"] Suc.prems(1) step by auto
  have "unat (of_nat n :: byte) = n"
    using n by (simp add: unat_of_nat take_bit_nat_eq_self)
  then have "CHR ''.'' # s' = dot_text (of_nat n # q)"
    using dtoi_text [OF d z] q(2) by (simp add: dot_text_def)
  moreover have "(if p = [] then CHR ''.'' # s else s) = CHR ''.'' # s'"
    using s by (cases s) (auto simp: s'_def)
  ultimately show ?case
    using step q by (intro exI [of _ "of_nat n # q"]) simp
qed

lemma parseIPv4_text:
  assumes "parseIPv4 s \<noteq> []"
  shows "length (parseIPv4 s) = 16" "length (To4 (parseIPv4 s)) = 4" "IP_String (parseIPv4 s) = s"
proof -
  obtain q where q: "length q = 4" "parseIPv4 s = v4InV6Prefix @ q" "CHR ''.'' # s = dot_text q"
    using parse_octets_text [of 4 "[]" s] assms by (auto simp: parseIPv4_def)
  have pre: "length v4InV6Prefix = 12" by (simp add: v4InV6Prefix_def)
  then have To4: "To4 (parseIPv4 s) = q" using q by (simp add: To4_def)
  show "length (parseIPv4 s) = 16" "length (To4 (parseIPv4 s)) = 4"
    using q pre To4 by simp_all
  obtain a b c d where "q = [a, b, c, d]"
    using q(1) by (auto simp: numeral_eq_Suc length_Suc_conv)
  then show "IP_String (parseIPv4 s) = s"
    using q To4 assms by (simp add: IP_String_def dotted_def dot_text_def)
qed

text \<open>A text without a colon is an IPv4 address or none.\<close>

lemma ParseIP_no_colon:
  assumes "\<not> strings_Contains_char s CHR '':''" "ParseIP s \<noteq> []"
  shows "ParseIP s = parseIPv4 s"
proof -
  have "ParseIP_scan s t = [] \<or> ParseIP_scan s t = parseIPv4 s" if "CHR '':'' \<notin> set t" for t
    using that by (induction t) auto
  then show ?thesis
    using assms by (auto simp: ParseIP_def strings_Contains_char_def)
qed

lemma ParseIP_v4_inject:
  assumes "\<not> strings_Contains_char s CHR '':''" "\<not> strings_Contains_char t CHR '':''"
    and "ParseIP s \<noteq> []" "ParseIP t \<noteq> []" "IP_String (ParseIP s) = IP_String (ParseIP t)"
  shows "s = t"
  using ParseIP_no_colon [OF assms(1,3)] ParseIP_no_colon [OF assms(2,4)] assms(3-5) parseIPv4_text
  by metis

text \<open>Two addresses of the examples.\<close>

lemma ex_parse_v4:
  "ParseIP ''10.0.0.1'' = v4InV6Prefix @ [10, 0, 0, 1]"
  "ParseIP ''10.0.0.2'' = v4InV6Prefix @ [10, 0, 0, 2]"
  "ParseIP ''192.0.2.1'' = v4InV6Prefix @ [192, 0, 2, 1]"
  by (simp add: ParseIP_def parseIPv4_unroll dtoi_def digit_val_def Let_def)+

section \<open>The parser returns nil or sixteen bytes\<close>

lemma parse6_loop_length:
  assumes "parse6_loop ip ellipsis s = Some (ip', ellipsis', s')" "even (length ip)" "length ip \<le> 16"
  shows "length ip' \<le> 16"
  using assms
proof (induction ip ellipsis s rule: parse6_loop.induct)
  case (1 ip ellipsis s)
  show ?case
  proof (cases "length ip \<ge> 16")
    case True
    then show ?thesis using "1.prems" by (simp add: parse6_loop.simps [of ip])
  next
    case False
    obtain n c ok where x: "xtoi s = (n, c, ok)" by (metis prod_cases3)
    let ?ip = "ip @ [of_nat (n div 256), of_nat n]" and ?s = "drop c s"
    have two: "even (length ?ip)" "length ?ip \<le> 16"
      using False "1.prems"(2) by (simp, simp, presburger)
    have ok: "\<not> (\<not> ok \<or> n > 0xFFFF)"
      by (rule notI) (use "1.prems"(1) False x in \<open>simp add: parse6_loop.simps [of ip]\<close>)
    note run = "1.prems"(1) [unfolded parse6_loop.simps [of ip] x prod.case if_not_P [OF False] if_not_P [OF ok]]
    show ?thesis
    proof (cases "c < length s \<and> s ! c = CHR ''.''")
      case True
      then show ?thesis using run parseIPv4_text(1) [of s] by (auto split: if_splits)
    next
      case no_dot: False
      note run' = run [unfolded if_not_P [OF no_dot] Let_def]
      show ?thesis
      proof (cases "?s = [] \<or> hd ?s \<noteq> CHR '':'' \<or> length ?s = 1")
        case True
        then show ?thesis using run' two(2) by (auto split: if_splits)
      next
        case more: False
        note IH = "1.IH" [OF False x [symmetric] refl ok no_dot refl refl]
        show ?thesis
        proof (cases "hd (tl ?s) = CHR '':''")
          case True
          then show ?thesis using run' more two IH(1) by (auto split: if_splits)
        next
          case False
          then show ?thesis using run' more two IH(2) by (simp split: if_splits)
        qed
      qed
    qed
  qed
qed

lemma expand_ellipsis_length:
  "length (fst res) \<le> 16 \<Longrightarrow> expand_ellipsis res = [] \<or> length (expand_ellipsis res) = 16"
  by (auto simp: expand_ellipsis_def min_def split: prod.split option.split)

lemma parseIPv6_length: "parseIPv6 s = [] \<or> length (parseIPv6 s) = 16"
proof (cases "take 2 s = ''::'' \<and> drop 2 s = []")
  case True
  then show ?thesis by (simp add: parseIPv6_def)
next
  case False
  then show ?thesis
    using parse6_loop_length [of "[]"] expand_ellipsis_length
    by (auto simp: parseIPv6_def Let_def split: option.split)
qed

lemma ParseIP_length: "ParseIP s = [] \<or> length (ParseIP s) = 16"
proof -
  have "ParseIP_scan s t = [] \<or> length (ParseIP_scan s t) = 16" for t
    using parseIPv4_text(1) [of s] parseIPv6_length [of s] by (induction t) auto
  then show ?thesis by (simp add: ParseIP_def)
qed

lemma ParseIP_None: "ParseIP ''None'' = []"
  by (simp add: ParseIP_def)

section \<open>The text of nil is the text of no address\<close>

lemma hex_char_in: "d < 16 \<Longrightarrow> hex_char d \<in> set ''0123456789abcdef''"
  unfolding hex_char_def by (rule nth_mem) simp

lemma appendHex_chars: "set (appendHex n) \<subseteq> set ''0123456789abcdef''"
proof (induction n rule: appendHex.induct)
  case (1 n)
  have "hex_char (n mod 16) \<in> set ''0123456789abcdef''" "n < 16 \<Longrightarrow> hex_char n \<in> set ''0123456789abcdef''"
    by (rule hex_char_in, simp)+
  with 1 show ?case unfolding appendHex.simps [of n] by simp
qed

lemma ipv6_string_not_nil: "ipv6_string p \<noteq> ''<nil>''"
proof -
  have app: "CHR ''<'' \<notin> set (appendHex n)" for n
    using appendHex_chars [of n] by auto
  then have "CHR ''<'' \<notin> set (join_groups gs)" for gs
    by (auto simp: join_groups_def split: list.split)
  then have "CHR ''<'' \<notin> set (ipv6_string p)"
    by (auto simp: ipv6_string_def Let_def split: prod.split)
  then show ?thesis by (metis list.set_intros(1))
qed

lemma dotted_not_nil: "dotted q \<noteq> ''<nil>''"
proof -
  have "CHR ''.'' \<in> set (dotted q)" by (simp add: dotted_def)
  moreover have "CHR ''.'' \<notin> set ''<nil>''" by simp
  ultimately show ?thesis by metis
qed

lemma To4_length: "To4 ip \<noteq> [] \<Longrightarrow> length (To4 ip) = 4"
  by (simp add: To4_def split: if_splits)

lemma To4_Nil: "To4 [] = []"
  by (simp add: To4_def)

lemma IP_String_not_nil:
  assumes "To4 ip \<noteq> [] \<or> length ip = 16"
  shows "IP_String ip \<noteq> ''<nil>''"
proof (cases "To4 ip = []")
  case True
  then have "ip \<noteq> []" "length ip = 16" using assms by auto
  then show ?thesis using True ipv6_string_not_nil [of ip] by (simp add: IP_String_def)
next
  case False
  then have "ip \<noteq> []" using To4_Nil by metis
  then show ?thesis
    using To4_length [OF False] dotted_not_nil [of "To4 ip"] by (simp add: IP_String_def)
qed

end
