(* ===== verification/Redirect.thy ===== *)
theory Redirect
  imports Kube_Types Go_Net
begin

text \<open>
  \<open>pkg/redirect/redirect.go\<close> and \<open>kube.go\<close>: the interface \<open>Redirect\<close> and the informer event
  handlers that drive it. A value of the interface is a record of its methods; a method
  transforms the state \<open>'st\<close> of the implementation, returns an error or nil, and may panic.
  The errors of \<open>AddIP\<close> and \<open>RemoveIP\<close> are only logged by the handlers.
\<close>

type_synonym 'st redirect_op = "'st \<Rightarrow> ('st \<times> go_error option) go"

record 'st Redirect =
  Prereqs :: "'st redirect_op"
  AddIP :: "string \<Rightarrow> IP \<Rightarrow> 'st redirect_op"
  RemoveIP :: "string \<Rightarrow> IP \<Rightarrow> 'st redirect_op"
  Cleanup :: "'st redirect_op"

definition getComment :: "Service \<Rightarrow> string" where
  "getComment svc = ''lightpath:'' @ Namespace svc @ ''/'' @ Name svc"

definition svc_ips :: "Service \<Rightarrow> string list" where
  "svc_ips svc = ClusterIPs (Spec svc) @ ExternalIPs (Spec svc)"

definition svcIPDiff :: "range_order \<Rightarrow> Service \<Rightarrow> Service \<Rightarrow> IP list \<times> IP list" where
  "svcIPDiff ord old new =
     (let oldIPs = fold (\<lambda>ip. gomap_put ip ()) (svc_ips old) [];
          (newIPs, add) =
            fold (\<lambda>ip (newIPs, add).
                (gomap_put ip () newIPs,
                 if gomap_get oldIPs ip = None then add @ [ParseIP ip] else add))
              (svc_ips new) ([], []);
          remove =
            fold (\<lambda>(ip, _) remove.
                if gomap_get newIPs ip = None then remove @ [ParseIP ip] else remove)
              (range_map ord oldIPs) []
      in (add, remove))"

text \<open>The handlers receive an object of any type and assert that it is a service.\<close>

datatype event_object =
    ServiceObject Service
  | OtherObject

fun as_service :: "event_object \<Rightarrow> Service go" where
  "as_service (ServiceObject svc) = Inr svc"
| "as_service OtherObject = Inl TypeAssertion"

definition log_error :: "('st \<times> go_error option) go \<Rightarrow> 'st go" where
  "log_error m = go_bind m (\<lambda>(st, err). Inr st)"

definition AddFunc :: "'st Redirect \<Rightarrow> event_object \<Rightarrow> 'st \<Rightarrow> 'st go" where
  "AddFunc impl obj st =
     go_bind (as_service obj) (\<lambda>svc.
       let comment = getComment svc
       in go_fold (\<lambda>ip st. log_error (AddIP impl comment (ParseIP ip) st)) (svc_ips svc) st)"

definition UpdateFunc ::
    "range_order \<Rightarrow> 'st Redirect \<Rightarrow> event_object \<Rightarrow> event_object \<Rightarrow> 'st \<Rightarrow> 'st go" where
  "UpdateFunc ord impl oldObj newObj st =
     go_bind (as_service oldObj) (\<lambda>oldSvc.
     go_bind (as_service newObj) (\<lambda>newSvc.
       let comment = getComment newSvc;
           (add, remove) = svcIPDiff ord oldSvc newSvc
       in go_bind (go_fold (\<lambda>ip st. log_error (AddIP impl comment ip st)) add st)
            (go_fold (\<lambda>ip st. log_error (RemoveIP impl comment ip st)) remove)))"

definition DeleteFunc :: "'st Redirect \<Rightarrow> event_object \<Rightarrow> 'st \<Rightarrow> 'st go" where
  "DeleteFunc impl obj st =
     go_bind (as_service obj) (\<lambda>svc.
       let comment = getComment svc
       in go_fold (\<lambda>ip st. log_error (RemoveIP impl comment (ParseIP ip) st)) (svc_ips svc) st)"

section \<open>The difference of two services\<close>

lemma put_all_get:
  "gomap_get (fold (\<lambda>ip. gomap_put ip ()) ips m) k = (if k \<in> set ips then Some () else gomap_get m k)"
  by (induction ips arbitrary: m) auto

lemma put_all_wf: "gomap_wf m \<Longrightarrow> gomap_wf (fold (\<lambda>ip. gomap_put ip ()) ips m)"
  by (induction ips arbitrary: m) auto

lemma add_loop:
  "fold (\<lambda>ip (newIPs, add). (gomap_put ip () newIPs, if P ip then add @ [f ip] else add)) ips (m, as) =
     (fold (\<lambda>ip. gomap_put ip ()) ips m, as @ map f (filter P ips))"
  by (induction ips arbitrary: m as) auto

lemma remove_loop:
  "fold (\<lambda>(ip, _) remove. if P ip then remove @ [f ip] else remove) kvs rs =
     rs @ map f (filter P (map fst kvs))"
  by (induction kvs arbitrary: rs) auto

lemma svcIPDiff_add:
  "fst (svcIPDiff ord old new) = map ParseIP (filter (\<lambda>ip. ip \<notin> set (svc_ips old)) (svc_ips new))"
  by (simp add: svcIPDiff_def Let_def add_loop put_all_get split_beta cong: filter_cong)

lemma svcIPDiff_remove:
  assumes "valid_order ord"
  shows "set (snd (svcIPDiff ord old new)) = ParseIP ` (set (svc_ips old) - set (svc_ips new))"
    and "length (snd (svcIPDiff ord old new)) = card (set (svc_ips old) - set (svc_ips new))"
proof -
  let ?m = "fold (\<lambda>ip. gomap_put ip ()) (svc_ips old) []"
  let ?ks = "map fst (range_map ord ?m)"
  have "fst ` set ?m = set (svc_ips old)"
    unfolding gomap_keys by (simp add: put_all_get)
  then have keys: "set ?ks = set (svc_ips old)"
    by (simp add: set_range_map assms)
  have dist: "distinct ?ks"
    using range_map_wf [OF assms put_all_wf [OF gm.wf_emp]] by (simp add: gomap_wf_def)
  have eq: "snd (svcIPDiff ord old new) = map ParseIP (filter (\<lambda>ip. ip \<notin> set (svc_ips new)) ?ks)"
    by (simp add: svcIPDiff_def Let_def add_loop put_all_get remove_loop cong: filter_cong)
  show "set (snd (svcIPDiff ord old new)) = ParseIP ` (set (svc_ips old) - set (svc_ips new))"
    unfolding eq using keys by auto
  have "length (filter (\<lambda>ip. ip \<notin> set (svc_ips new)) ?ks) =
      card (set (filter (\<lambda>ip. ip \<notin> set (svc_ips new)) ?ks))"
    by (rule distinct_card [symmetric]) (rule distinct_filter [OF dist])
  moreover have "set (filter (\<lambda>ip. ip \<notin> set (svc_ips new)) ?ks) = set (svc_ips old) - set (svc_ips new)"
    unfolding set_filter keys by blast
  ultimately show "length (snd (svcIPDiff ord old new)) = card (set (svc_ips old) - set (svc_ips new))"
    unfolding eq by (simp only: length_map)
qed

section \<open>The contract of a redirect\<close>

text \<open>
  What the handlers rely on: in a state where its calls succeed, \<open>AddIP\<close> installs the rule of a
  comment and an address, and \<open>RemoveIP\<close> takes it away, and nothing else changes. The nil address
  (what the parser makes of a text that is no address, such as the \<open>None\<close> of a headless service)
  has no rule: the calls fail and change nothing. An implementation may panic on every removal that
  takes place; \<open>remove_panic\<close> is that panic, if there is one.
\<close>

definition usable_ips :: "Service \<Rightarrow> string set" where
  "usable_ips svc = {ip \<in> set (svc_ips svc). ParseIP ip \<noteq> []}"

definition svc_rules :: "(string \<Rightarrow> IP \<Rightarrow> 'r) \<Rightarrow> Service \<Rightarrow> 'r set" where
  "svc_rules rule svc = (\<lambda>ip. rule (getComment svc) (ParseIP ip)) ` usable_ips svc"

text \<open>Two texts for one address: the difference of two services is taken on the texts.\<close>

definition no_alias :: "(string \<Rightarrow> IP \<Rightarrow> 'r) \<Rightarrow> Service \<Rightarrow> Service \<Rightarrow> bool" where
  "no_alias rule old new \<longleftrightarrow>
     (\<forall>a \<in> usable_ips old. \<forall>b \<in> usable_ips new.
        rule (getComment new) (ParseIP a) = rule (getComment new) (ParseIP b) \<longrightarrow> a = b)"

lemma image_update:
  assumes "r ` (A - B) \<inter> r ` B = {}" "r ` A \<subseteq> I"
  shows "(I \<union> r ` (B - A)) - r ` (A - B) = (I - r ` A) \<union> r ` B"
proof -
  have "r ` A = r ` (A - B) \<union> r ` (A \<inter> B)" "r ` B = r ` (B - A) \<union> r ` (A \<inter> B)" by blast+
  with assms show ?thesis by blast
qed

locale redirect =
  fixes impl :: "'st Redirect"
    and rule :: "string \<Rightarrow> IP \<Rightarrow> 'r"
    and installed :: "'st \<Rightarrow> 'r set"
    and working :: "'st \<Rightarrow> bool"
    and remove_panic :: "panic option"
  assumes AddIP_installs: "working st \<Longrightarrow> length ip = 16 \<Longrightarrow>
      \<exists>st'. AddIP impl c ip st = Inr (st', None) \<and> working st' \<and>
        installed st' = insert (rule c ip) (installed st)"
    and AddIP_nil: "working st \<Longrightarrow>
      \<exists>st' err. AddIP impl c [] st = Inr (st', Some err) \<and> working st' \<and> installed st' = installed st"
    and RemoveIP_removes: "remove_panic = None \<Longrightarrow> working st \<Longrightarrow> length ip = 16 \<Longrightarrow>
      \<exists>st'. RemoveIP impl c ip st = Inr (st', None) \<and> working st' \<and>
        installed st' = installed st - {rule c ip}"
    and RemoveIP_panics: "remove_panic = Some p \<Longrightarrow> working st \<Longrightarrow> length ip = 16 \<Longrightarrow>
      RemoveIP impl c ip st = Inl p"
    and RemoveIP_nil: "working st \<Longrightarrow>
      \<exists>st' err. RemoveIP impl c [] st = Inr (st', err) \<and> working st' \<and> installed st' = installed st"
begin

lemma AddIP_logged:
  assumes "working st" "ip = [] \<or> length ip = 16"
  shows "\<exists>st'. log_error (AddIP impl c ip st) = Inr st' \<and> working st' \<and>
    installed st' = installed st \<union> (if ip = [] then {} else {rule c ip})"
  using assms AddIP_nil [OF assms(1), of c] AddIP_installs [OF assms(1), of ip c]
  by (auto simp: log_error_def)

lemma RemoveIP_logged:
  assumes "working st" "ip = [] \<or> length ip = 16" "ip = [] \<or> remove_panic = None"
  shows "\<exists>st'. log_error (RemoveIP impl c ip st) = Inr st' \<and> working st' \<and>
    installed st' = installed st - (if ip = [] then {} else {rule c ip})"
  using assms RemoveIP_nil [OF assms(1), of c] RemoveIP_removes [OF _ assms(1), of ip c]
  by (auto simp: log_error_def)

lemma add_all:
  assumes "working st" "\<forall>ip \<in> set ips. f ip = [] \<or> length (f ip) = 16"
  shows "\<exists>st'. go_fold (\<lambda>ip st. log_error (AddIP impl c (f ip) st)) ips st = Inr st' \<and>
    working st' \<and> installed st' = installed st \<union> (\<lambda>ip. rule c (f ip)) ` {ip \<in> set ips. f ip \<noteq> []}"
  using assms
proof (induction ips arbitrary: st)
  case Nil
  then show ?case by simp
next
  case (Cons ip ips)
  then obtain st1 where st1: "log_error (AddIP impl c (f ip) st) = Inr st1" "working st1"
    "installed st1 = installed st \<union> (if f ip = [] then {} else {rule c (f ip)})"
    using AddIP_logged [of st "f ip" c] by auto
  obtain st' where st': "go_fold (\<lambda>ip st. log_error (AddIP impl c (f ip) st)) ips st1 = Inr st'" "working st'"
    "installed st' = installed st1 \<union> (\<lambda>ip. rule c (f ip)) ` {ip \<in> set ips. f ip \<noteq> []}"
    using Cons.IH [OF st1(2)] Cons.prems(2) by auto
  have "{x \<in> set (ip # ips). f x \<noteq> []} =
      (if f ip = [] then {} else {ip}) \<union> {x \<in> set ips. f x \<noteq> []}" by auto
  then show ?case using st1 st' by (auto split: if_splits)
qed

lemma remove_all:
  assumes "working st" "\<forall>ip \<in> set ips. f ip = [] \<or> length (f ip) = 16"
    and "\<forall>ip \<in> set ips. f ip = [] \<or> remove_panic = None"
  shows "\<exists>st'. go_fold (\<lambda>ip st. log_error (RemoveIP impl c (f ip) st)) ips st = Inr st' \<and>
    working st' \<and> installed st' = installed st - (\<lambda>ip. rule c (f ip)) ` {ip \<in> set ips. f ip \<noteq> []}"
  using assms
proof (induction ips arbitrary: st)
  case Nil
  then show ?case by simp
next
  case (Cons ip ips)
  then obtain st1 where st1: "log_error (RemoveIP impl c (f ip) st) = Inr st1" "working st1"
    "installed st1 = installed st - (if f ip = [] then {} else {rule c (f ip)})"
    using RemoveIP_logged [of st "f ip" c] by force
  obtain st' where st': "go_fold (\<lambda>ip st. log_error (RemoveIP impl c (f ip) st)) ips st1 = Inr st'" "working st'"
    "installed st' = installed st1 - (\<lambda>ip. rule c (f ip)) ` {ip \<in> set ips. f ip \<noteq> []}"
    using Cons.IH [OF st1(2)] Cons.prems(2,3) by auto
  have "{x \<in> set (ip # ips). f x \<noteq> []} =
      (if f ip = [] then {} else {ip}) \<union> {x \<in> set ips. f x \<noteq> []}" by auto
  then show ?case using st1 st' by (auto split: if_splits)
qed

text \<open>A panic stops the loop at the first address.\<close>

lemma remove_all_panics:
  assumes "remove_panic = Some p" "working st" "\<forall>ip \<in> set ips. f ip = [] \<or> length (f ip) = 16"
    and "\<exists>ip \<in> set ips. f ip \<noteq> []"
  shows "go_fold (\<lambda>ip st. log_error (RemoveIP impl c (f ip) st)) ips st = Inl p"
  using assms(2-4)
proof (induction ips arbitrary: st)
  case Nil
  then show ?case by simp
next
  case (Cons ip ips)
  show ?case
  proof (cases "f ip = []")
    case True
    then obtain st1 where "log_error (RemoveIP impl c (f ip) st) = Inr st1" "working st1"
      using RemoveIP_logged [of st "f ip" c] Cons.prems(1) by auto
    with Cons True show ?thesis by auto
  next
    case False
    then show ?thesis using RemoveIP_panics [OF assms(1)] Cons.prems by (simp add: log_error_def)
  qed
qed

lemma AddFunc_installs:
  assumes "working st"
  shows "\<exists>st'. AddFunc impl (ServiceObject svc) st = Inr st' \<and> working st' \<and>
    installed st' = installed st \<union> svc_rules rule svc"
  using add_all [OF assms, of "svc_ips svc" ParseIP "getComment svc"] ParseIP_length
  by (simp add: AddFunc_def svc_rules_def usable_ips_def)

lemma DeleteFunc_removes:
  assumes "working st" "usable_ips svc = {} \<or> remove_panic = None"
  shows "\<exists>st'. DeleteFunc impl (ServiceObject svc) st = Inr st' \<and> working st' \<and>
    installed st' = installed st - svc_rules rule svc"
  using remove_all [OF assms(1), of "svc_ips svc" ParseIP "getComment svc"] ParseIP_length assms(2)
  by (auto simp: DeleteFunc_def svc_rules_def usable_ips_def)

lemma DeleteFunc_panics:
  assumes "working st" "usable_ips svc \<noteq> {}" "remove_panic = Some p"
  shows "DeleteFunc impl (ServiceObject svc) st = Inl p"
  using remove_all_panics [OF assms(3,1), of "svc_ips svc" ParseIP "getComment svc"] ParseIP_length assms(2)
  by (auto simp: DeleteFunc_def usable_ips_def)

text \<open>An update adds the new addresses and then removes the old ones.\<close>

lemma UpdateFunc_adds:
  assumes "working st" "valid_order ord"
  obtains st1 where "working st1" "installed st1 = installed st \<union>
      (\<lambda>ip. rule (getComment new) (ParseIP ip)) ` (usable_ips new - usable_ips old)"
    and "UpdateFunc ord impl (ServiceObject old) (ServiceObject new) st =
      go_fold (\<lambda>ip st. log_error (RemoveIP impl (getComment new) ip st)) (snd (svcIPDiff ord old new)) st1"
proof -
  let ?c = "getComment new" and ?d = "svcIPDiff ord old new"
  have wf: "\<forall>ip \<in> set (fst ?d). ip = [] \<or> length ip = 16"
    using ParseIP_length by (auto simp: svcIPDiff_add)
  obtain st1 where st1: "go_fold (\<lambda>ip st. log_error (AddIP impl ?c ip st)) (fst ?d) st = Inr st1"
    "working st1" "installed st1 = installed st \<union> rule ?c ` {ip \<in> set (fst ?d). ip \<noteq> []}"
    using add_all [OF assms(1), of "fst ?d" "\<lambda>ip. ip" ?c] wf by auto
  moreover have "rule ?c ` {ip \<in> set (fst ?d). ip \<noteq> []} =
      (\<lambda>ip. rule ?c (ParseIP ip)) ` (usable_ips new - usable_ips old)"
    by (auto simp: svcIPDiff_add usable_ips_def)
  ultimately show ?thesis
    using that [of st1] by (simp add: UpdateFunc_def split_beta)
qed

lemma removed_addresses:
  assumes "valid_order ord"
  shows "\<forall>ip \<in> set (snd (svcIPDiff ord old new)). ip = [] \<or> length ip = 16"
    and "{ip \<in> set (snd (svcIPDiff ord old new)). ip \<noteq> []} = ParseIP ` (usable_ips old - usable_ips new)"
  using ParseIP_length by (auto simp: svcIPDiff_remove(1) [OF assms] usable_ips_def)

lemma UpdateFunc_diff:
  assumes "working st" "valid_order ord" "usable_ips old \<subseteq> usable_ips new \<or> remove_panic = None"
  shows "\<exists>st'. UpdateFunc ord impl (ServiceObject old) (ServiceObject new) st = Inr st' \<and> working st' \<and>
    installed st' = (installed st \<union>
      (\<lambda>ip. rule (getComment new) (ParseIP ip)) ` (usable_ips new - usable_ips old)) -
      (\<lambda>ip. rule (getComment new) (ParseIP ip)) ` (usable_ips old - usable_ips new)"
proof -
  let ?c = "getComment new" and ?d = "svcIPDiff ord old new"
  note removed = removed_addresses [OF assms(2), of old new]
  obtain st1 where st1: "working st1" "installed st1 = installed st \<union>
      (\<lambda>ip. rule ?c (ParseIP ip)) ` (usable_ips new - usable_ips old)"
    "UpdateFunc ord impl (ServiceObject old) (ServiceObject new) st =
      go_fold (\<lambda>ip st. log_error (RemoveIP impl ?c ip st)) (snd ?d) st1"
    using UpdateFunc_adds [OF assms(1,2)] .
  have "\<forall>ip \<in> set (snd ?d). ip = [] \<or> remove_panic = None"
    using removed(2) assms(3) by blast
  then obtain st2 where "go_fold (\<lambda>ip st. log_error (RemoveIP impl ?c ip st)) (snd ?d) st1 = Inr st2"
    "working st2" "installed st2 = installed st1 - rule ?c ` {ip \<in> set (snd ?d). ip \<noteq> []}"
    using remove_all [OF st1(1), of "snd ?d" "\<lambda>ip. ip" ?c] removed(1) by auto
  then show ?thesis
    using st1 by (simp add: removed(2) image_image)
qed

lemma UpdateFunc_panics:
  assumes "working st" "valid_order ord" "\<not> usable_ips old \<subseteq> usable_ips new" "remove_panic = Some p"
  shows "UpdateFunc ord impl (ServiceObject old) (ServiceObject new) st = Inl p"
proof -
  obtain st1 where "working st1" and upd: "UpdateFunc ord impl (ServiceObject old) (ServiceObject new) st =
      go_fold (\<lambda>ip st. log_error (RemoveIP impl (getComment new) ip st)) (snd (svcIPDiff ord old new)) st1"
    using UpdateFunc_adds [OF assms(1,2)] .
  moreover have "\<exists>ip \<in> set (snd (svcIPDiff ord old new)). ip \<noteq> []"
    using removed_addresses(2) [OF assms(2), of old new] assms(3) by blast
  ultimately show ?thesis
    using remove_all_panics [OF assms(4), of st1 _ "\<lambda>ip. ip"] removed_addresses(1) [OF assms(2)] by simp
qed

lemma UpdateFunc_replaces:
  assumes "working st" "valid_order ord" "usable_ips old \<subseteq> usable_ips new \<or> remove_panic = None"
    and "getComment old = getComment new" "no_alias rule old new" "svc_rules rule old \<subseteq> installed st"
  shows "\<exists>st'. UpdateFunc ord impl (ServiceObject old) (ServiceObject new) st = Inr st' \<and> working st' \<and>
    installed st' = (installed st - svc_rules rule old) \<union> svc_rules rule new"
proof -
  let ?r = "\<lambda>ip. rule (getComment new) (ParseIP ip)"
  have old: "svc_rules rule old = ?r ` usable_ips old"
    and new: "svc_rules rule new = ?r ` usable_ips new"
    by (simp_all add: svc_rules_def assms(4))
  have "?r ` (usable_ips old - usable_ips new) \<inter> ?r ` usable_ips new = {}"
    using assms(5) by (auto simp: no_alias_def)
  from image_update [OF this assms(6) [unfolded old]]
  have "(installed st \<union> ?r ` (usable_ips new - usable_ips old)) -
      ?r ` (usable_ips old - usable_ips new) =
      (installed st - svc_rules rule old) \<union> svc_rules rule new"
    unfolding old new .
  then show ?thesis using UpdateFunc_diff [OF assms(1-3)] by simp
qed

end

section \<open>Sequences of informer events\<close>

text \<open>
  An informer reports the changes of its store of services: an added service was not in the
  store, an update carries the service the store had, and a deletion the service it had last.
  Every update has the visiting order of its loop over the old addresses.
\<close>

datatype informer_event =
    EvAdd Service
  | EvUpdate range_order Service Service
  | EvDelete Service

type_synonym svc_key = "string \<times> string"
type_synonym svc_store = "svc_key \<Rightarrow> Service option"

definition svc_key :: "Service \<Rightarrow> svc_key" where
  "svc_key svc = (Namespace svc, Name svc)"

fun handle_informer_event :: "'st Redirect \<Rightarrow> informer_event \<Rightarrow> 'st \<Rightarrow> 'st go" where
  "handle_informer_event impl (EvAdd svc) = AddFunc impl (ServiceObject svc)"
| "handle_informer_event impl (EvUpdate ord old new) =
     UpdateFunc ord impl (ServiceObject old) (ServiceObject new)"
| "handle_informer_event impl (EvDelete svc) = DeleteFunc impl (ServiceObject svc)"

definition slash_free :: "string \<Rightarrow> bool" where
  "slash_free s \<longleftrightarrow> CHR ''/'' \<notin> set s"

fun store_event :: "informer_event \<Rightarrow> svc_store \<Rightarrow> svc_store" where
  "store_event (EvAdd svc) store = store(svc_key svc \<mapsto> svc)"
| "store_event (EvUpdate ord old new) store = store(svc_key new \<mapsto> new)"
| "store_event (EvDelete svc) store = store(svc_key svc := None)"

fun event_ok :: "(string \<Rightarrow> IP \<Rightarrow> 'r) \<Rightarrow> svc_store \<Rightarrow> informer_event \<Rightarrow> bool" where
  "event_ok rule store (EvAdd svc) \<longleftrightarrow> slash_free (Namespace svc) \<and> store (svc_key svc) = None"
| "event_ok rule store (EvUpdate ord old new) \<longleftrightarrow>
     valid_order ord \<and> svc_key old = svc_key new \<and> store (svc_key new) = Some old \<and>
     no_alias rule old new"
| "event_ok rule store (EvDelete svc) \<longleftrightarrow> store (svc_key svc) = Some svc"

fun events_ok :: "(string \<Rightarrow> IP \<Rightarrow> 'r) \<Rightarrow> svc_store \<Rightarrow> informer_event list \<Rightarrow> bool" where
  "events_ok rule store [] \<longleftrightarrow> True"
| "events_ok rule store (e # es) \<longleftrightarrow> event_ok rule store e \<and> events_ok rule (store_event e store) es"

text \<open>Does the handler of an event take an address away from the service?\<close>

fun removes_address :: "informer_event \<Rightarrow> bool" where
  "removes_address (EvAdd svc) \<longleftrightarrow> False"
| "removes_address (EvUpdate ord old new) \<longleftrightarrow> \<not> usable_ips old \<subseteq> usable_ips new"
| "removes_address (EvDelete svc) \<longleftrightarrow> usable_ips svc \<noteq> {}"

definition store_ok :: "svc_store \<Rightarrow> bool" where
  "store_ok store \<longleftrightarrow> (\<forall>k svc. store k = Some svc \<longrightarrow> svc_key svc = k \<and> slash_free (Namespace svc))"

definition store_rules :: "(string \<Rightarrow> IP \<Rightarrow> 'r) \<Rightarrow> svc_store \<Rightarrow> 'r set" where
  "store_rules rule store = (\<Union>svc \<in> ran store. svc_rules rule svc)"

lemma getComment_inject:
  assumes "slash_free (Namespace a)" "slash_free (Namespace b)"
  shows "getComment a = getComment b \<longleftrightarrow> svc_key a = svc_key b"
  using split_at_sep [of "CHR ''/''" "Namespace a" "Namespace b" "Name a" "Name b"] assms
  by (auto simp: getComment_def svc_key_def slash_free_def)

lemma store_ok_put:
  "store_ok store \<Longrightarrow> slash_free (Namespace svc) \<Longrightarrow> store_ok (store(svc_key svc \<mapsto> svc))"
  unfolding store_ok_def by (metis fun_upd_apply option.inject)

lemma store_ok_del: "store_ok store \<Longrightarrow> store_ok (store(k := None))"
  unfolding store_ok_def by (metis fun_upd_apply option.distinct(1))

lemma store_ok_event:
  assumes "store_ok store" "event_ok rule store e"
  shows "store_ok (store_event e store)"
proof (cases e)
  case (EvUpdate ord old new)
  then have "store (svc_key new) = Some old" "Namespace old = Namespace new"
    using assms(2) by (simp_all add: svc_key_def)
  then have "slash_free (Namespace new)" using assms(1) unfolding store_ok_def by metis
  then show ?thesis using EvUpdate store_ok_put [OF assms(1)] by simp
next
  case (EvAdd svc)
  then show ?thesis using store_ok_put [OF assms(1)] assms(2) by simp
next
  case (EvDelete svc)
  then show ?thesis using store_ok_del [OF assms(1)] by simp
qed

lemma store_rules_add:
  "store k = None \<Longrightarrow> store_rules rule (store(k \<mapsto> svc)) = store_rules rule store \<union> svc_rules rule svc"
  by (auto simp: store_rules_def)

text \<open>Rules with different comments differ; then every service has its own rules.\<close>

locale redirect_comments = redirect +
  assumes rule_comment: "rule c ip = rule c' ip' \<Longrightarrow> c = c'"
begin

lemma store_rules_del:
  assumes "store_ok store" "store k = Some svc"
  shows "store_rules rule (store(k := None)) = store_rules rule store - svc_rules rule svc"
proof -
  have "svc_rules rule other \<inter> svc_rules rule svc = {}" if "store k' = Some other" "k' \<noteq> k" for k' other
  proof -
    have "getComment other \<noteq> getComment svc"
      using assms that getComment_inject [of other svc] unfolding store_ok_def by metis
    then show ?thesis using rule_comment by (auto simp: svc_rules_def)
  qed
  then have "store_rules rule (store(k := None)) \<inter> svc_rules rule svc = {}"
    by (auto simp: store_rules_def ran_def split: if_splits)
  moreover have "store_rules rule store = store_rules rule (store(k := None)) \<union> svc_rules rule svc"
    using store_rules_add [of "store(k := None)" k rule svc] assms(2) by (simp add: fun_upd_idem)
  ultimately show ?thesis by blast
qed

lemma event_tracks:
  assumes "working st" "store_ok store" "event_ok rule store e" "installed st = store_rules rule store"
    and "removes_address e \<Longrightarrow> remove_panic = None"
  shows "\<exists>st'. handle_informer_event impl e st = Inr st' \<and> working st' \<and>
    installed st' = store_rules rule (store_event e store)"
proof (cases e)
  case (EvAdd svc)
  then show ?thesis using AddFunc_installs [OF assms(1), of svc] assms by (simp add: store_rules_add)
next
  case (EvDelete svc)
  then show ?thesis
    using DeleteFunc_removes [OF assms(1), of svc] assms store_rules_del [of store "svc_key svc" svc] by auto
next
  case (EvUpdate ord old new)
  then have st: "store (svc_key new) = Some old" "svc_key old = svc_key new" "valid_order ord" "no_alias rule old new"
    using assms(3) by simp_all
  then have c: "getComment old = getComment new" by (simp add: svc_key_def getComment_def)
  have "svc_rules rule old \<subseteq> installed st"
    using st(1) assms(4) by (auto simp: store_rules_def intro: ranI)
  moreover have "store_rules rule (store(svc_key new \<mapsto> new)) =
      (store_rules rule store - svc_rules rule old) \<union> svc_rules rule new"
    using store_rules_add [of "store(svc_key new := None)" "svc_key new" rule new]
      store_rules_del [OF assms(2) st(1)] by simp
  ultimately show ?thesis
    using UpdateFunc_replaces [OF assms(1) st(3) _ c st(4)] assms(4,5) EvUpdate by auto
qed

lemma event_panics:
  assumes "working st" "event_ok rule store e" "removes_address e" "remove_panic = Some p"
  shows "handle_informer_event impl e st = Inl p"
  using assms DeleteFunc_panics UpdateFunc_panics by (cases e) auto

lemma events_track:
  assumes "working st" "store_ok store" "events_ok rule store es" "installed st = store_rules rule store"
  shows "case remove_panic of
      Some p \<Rightarrow> if \<exists>e \<in> set es. removes_address e
        then go_fold (handle_informer_event impl) es st = Inl p
        else \<exists>st'. go_fold (handle_informer_event impl) es st = Inr st' \<and> working st' \<and>
          installed st' = store_rules rule (fold store_event es store)
    | None \<Rightarrow> \<exists>st'. go_fold (handle_informer_event impl) es st = Inr st' \<and> working st' \<and>
        installed st' = store_rules rule (fold store_event es store)"
  using assms
proof (induction es arbitrary: st store)
  case Nil
  then show ?case by (simp split: option.split)
next
  case (Cons e es)
  show ?case
  proof (cases "removes_address e \<and> remove_panic \<noteq> None")
    case True
    then show ?thesis using event_panics [of st store e] Cons.prems by auto
  next
    case False
    then obtain st1 where st1: "handle_informer_event impl e st = Inr st1" "working st1"
      "installed st1 = store_rules rule (store_event e store)"
      using event_tracks [of st store e] Cons.prems by auto
    have "store_ok (store_event e store)" using Cons.prems by (auto intro: store_ok_event)
    with Cons.IH [OF st1(2) _ _ st1(3)] Cons.prems st1(1) False show ?thesis
      by (auto split: option.splits)
  qed
qed

end

end
