(* ===== verification/Go_Net_Roundtrip.thy ===== *)
theory Go_Net_Roundtrip
  imports Go_Net
begin

text \<open>
  Printing an address and parsing the text gives the address back, for the dotted form of IPv4
  addresses and for the form of IPv6 addresses, with and without an ellipsis.
\<close>

section \<open>Numbers at the start of a text\<close>

text \<open>\<open>stops digit s\<close>: the text \<open>s\<close> does not continue a number.\<close>

definition stops :: "(char \<Rightarrow> nat option) \<Rightarrow> string \<Rightarrow> bool" where
  "stops digit s \<longleftrightarrow> s = [] \<or> digit (hd s) = None"

lemma toi_loop_stops: "stops digit s \<Longrightarrow> toi_loop base digit n i s = (n, i, True)"
  by (cases s) (simp_all add: stops_def)

lemma toi_loop_append:
  assumes "toi_loop base digit n i xs = (m, i + length xs, True)"
  shows "toi_loop base digit n i (xs @ s) = toi_loop base digit m (i + length xs) s"
  using assms
proof (induction xs arbitrary: n i)
  case Nil
  then show ?case by simp
next
  case (Cons c xs)
  then show ?case
    by (auto split: option.splits if_splits)
qed

lemma toi_loop_dec:
  assumes "n < 0xFFFFFF"
  shows "toi_loop 10 digit_val 0 0 (fmt_nat n) = (n, length (fmt_nat n), True)"
  using assms
proof (induction n rule: fmt_nat.induct)
  case (1 n)
  show ?case
  proof (cases "n < 10")
    case True
    then show ?thesis using "1.prems" by (simp add: fmt_nat.simps [of n])
  next
    case False
    have IH: "toi_loop 10 digit_val 0 0 (fmt_nat (n div 10)) = (n div 10, 0 + length (fmt_nat (n div 10)), True)"
      using "1.IH" False "1.prems" by auto
    have "n div 10 * 10 + n mod 10 = n" by simp
    then show ?thesis
      using toi_loop_append [OF IH, of "[digit_char (n mod 10)]"] False "1.prems"
      by (simp add: fmt_nat.simps [of n])
  qed
qed

lemma hex_val_hex_char: "d < 16 \<Longrightarrow> hex_val (hex_char d) = Some d"
proof -
  assume "d < 16"
  then have "d \<in> {0, 1, 2, 3, 4, 5, 6, 7, 8, 9, 10, 11, 12, 13, 14, 15}" by (simp, presburger)
  then show ?thesis by (auto simp: hex_char_def hex_val_def numeral_eq_Suc)
qed

lemma appendHex_not_Nil [simp]: "appendHex n \<noteq> []" "[] \<noteq> appendHex n"
  by (subst appendHex.simps, simp)+

lemma toi_loop_hex:
  assumes "n < 0xFFFFFF"
  shows "toi_loop 16 hex_val 0 0 (appendHex n) = (n, length (appendHex n), True)"
  using assms
proof (induction n rule: appendHex.induct)
  case (1 n)
  show ?case
  proof (cases "n < 16")
    case True
    then show ?thesis using "1.prems" by (simp add: appendHex.simps [of n] hex_val_hex_char)
  next
    case False
    have IH: "toi_loop 16 hex_val 0 0 (appendHex (n div 16)) = (n div 16, 0 + length (appendHex (n div 16)), True)"
      using "1.IH" False "1.prems" by auto
    have "n div 16 * 16 + n mod 16 = n" by simp
    then show ?thesis
      using toi_loop_append [OF IH, of "[hex_char (n mod 16)]"] False "1.prems"
      by (simp add: appendHex.simps [of n] hex_val_hex_char)
  qed
qed

lemma dtoi_fmt_nat:
  assumes "n < 0xFFFFFF" "stops digit_val s"
  shows "dtoi (fmt_nat n @ s) = (n, length (fmt_nat n), True)"
  using toi_loop_append [of 10 digit_val 0 0 "fmt_nat n" n s] toi_loop_dec [OF assms(1)]
    toi_loop_stops [OF assms(2)] by (simp add: dtoi_def)

lemma xtoi_appendHex:
  assumes "n < 0xFFFFFF" "stops hex_val s"
  shows "xtoi (appendHex n @ s) = (n, length (appendHex n), True)"
  using toi_loop_append [of 16 hex_val 0 0 "appendHex n" n s] toi_loop_hex [OF assms(1)]
    toi_loop_stops [OF assms(2)] by (simp add: xtoi_def)

section \<open>IPv4\<close>

lemma dot_stops: "stops digit_val (dot_text q)"
  by (cases q) (simp_all add: stops_def dot_text_def digit_val_def)

lemma fmt_nat_leading_zero: "1 < length (fmt_nat n) \<Longrightarrow> hd (fmt_nat n) \<noteq> CHR ''0''"
  using hd_fmt_nat_zero [of n] by (cases "n = 0") (auto simp: fmt_nat.simps [of 0])

lemma parse_octets_dot_text:
  "parse_octets (length q) p (if p = [] then tl (dot_text q) else dot_text q) = v4InV6Prefix @ p @ q"
  if "p \<noteq> [] \<or> q \<noteq> []"
  using that
proof (induction q arbitrary: p)
  case Nil
  then show ?case by (simp add: dot_text_def)
next
  case (Cons x q)
  let ?n = "fmt_nat (unat x)"
  let ?s = "if p = [] then tl (dot_text (x # q)) else dot_text (x # q)"
  have dots: "dot_text (x # q) = CHR ''.'' # ?n @ dot_text q" by (simp add: dot_text_def)
  have x: "unat x < 0xFF + 1" using unsigned_less [of x] by simp
  then have d: "dtoi (?n @ dot_text q) = (unat x, length ?n, True)"
    by (intro dtoi_fmt_nat dot_stops) simp
  have "\<not> (1 < length ?n \<and> hd (?n @ dot_text q) = CHR ''0'')"
    using fmt_nat_leading_zero by (simp add: hd_append)
  then have "parse_octets (length (x # q)) p ?s = parse_octets (length q) (p @ [of_nat (unat x)]) (dot_text q)"
    using d x by (auto simp: dots)
  then show ?case using Cons.IH [of "p @ [x]"] by simp
qed

lemma parseIPv4_dotted:
  assumes "length q = 4"
  shows "parseIPv4 (dotted q) = v4InV6Prefix @ q"
proof -
  obtain a b c d where q: "q = [a, b, c, d]"
    using assms by (auto simp: numeral_eq_Suc length_Suc_conv)
  have "dotted q = tl (dot_text q)" by (simp add: q dotted_def dot_text_def)
  moreover have "q \<noteq> []" using assms by auto
  ultimately show ?thesis
    using parse_octets_dot_text [of "[]" q] assms unfolding parseIPv4_def by (simp del: parse_octets.simps)
qed

lemma ParseIP_scan_dot:
  "CHR '':'' \<notin> set t \<Longrightarrow> CHR ''.'' \<in> set t \<Longrightarrow> ParseIP_scan s t = parseIPv4 s"
  by (induction t) auto

lemma ParseIP_scan_colon:
  "CHR ''.'' \<notin> set t \<Longrightarrow> CHR '':'' \<in> set t \<Longrightarrow> ParseIP_scan s t = parseIPv6 s"
  by (induction t) auto

lemma ParseIP_dotted:
  assumes "length q = 4"
  shows "ParseIP (dotted q) = v4InV6Prefix @ q"
proof -
  have "CHR '':'' \<notin> set (fmt_nat n)" for n by (rule fmt_nat_no_sep) (simp add: digit_val_def)
  then have "CHR '':'' \<notin> set (dotted q)" "CHR ''.'' \<in> set (dotted q)" by (simp_all add: dotted_def)
  then show ?thesis using parseIPv4_dotted [OF assms] by (simp add: ParseIP_def ParseIP_scan_dot)
qed

section \<open>Groups\<close>

definition group_bytes :: "nat list \<Rightarrow> byte list" where
  "group_bytes gs = concat (map (\<lambda>g. [of_nat (g div 256), of_nat g]) gs)"

lemma length_group_bytes [simp]: "length (group_bytes gs) = 2 * length gs"
  by (induction gs) (simp_all add: group_bytes_def)

lemma group_bytes_Nil [simp]: "group_bytes [] = []"
  by (simp add: group_bytes_def)

lemma group_bytes_append: "group_bytes (xs @ ys) = group_bytes xs @ group_bytes ys"
  by (simp add: group_bytes_def)

lemma group_bytes_zeros: "group_bytes (replicate n 0) = replicate (2 * n) 0"
  by (induction n) (simp_all add: group_bytes_def)

lemma group_of_bytes: "[of_nat ((unat (a :: byte) * 256 + unat (b :: byte)) div 256), of_nat (unat a * 256 + unat b)] = [a, b]"
proof -
  have "unat b < 256" using unsigned_less [of b] by simp
  then have "(unat a * 256 + unat b) div 256 = unat a" by simp
  moreover have "(256 :: byte) = 0" by transfer simp
  then have "a * 256 = 0" by (metis mult_zero_right)
  then have "(of_nat (unat a * 256 + unat b) :: byte) = b" by simp
  ultimately show ?thesis by simp
qed

lemma groups16_bytes: "even (length p) \<Longrightarrow> group_bytes (groups16 p) = p"
proof (induction p rule: groups16.induct)
  case (1 a b p)
  have "group_bytes (groups16 (a # b # p)) =
      [of_nat ((unat a * 256 + unat b) div 256), of_nat (unat a * 256 + unat b)] @ group_bytes (groups16 p)"
    by (simp only: group_bytes_def groups16.simps list.map concat.simps)
  also have "\<dots> = [a, b] @ p" using 1 by (simp only: group_of_bytes) simp
  finally show ?case by simp
qed (simp_all add: group_bytes_def)

lemma length_groups16: "length (groups16 p) = length p div 2"
  by (induction p rule: groups16.induct) simp_all

lemma groups16_bound: "g \<in> set (groups16 p) \<Longrightarrow> g < 65536"
proof (induction p rule: groups16.induct)
  case (1 a b p)
  have "unat a < 256" "unat b < 256" using unsigned_less [of a] unsigned_less [of b] by simp_all
  then have "unat a * 256 + unat b < 65536" by simp
  then show ?case using 1 by auto
qed simp_all

section \<open>The longest run of zeros\<close>

definition zeros_between :: "nat list \<Rightarrow> nat \<times> nat \<Rightarrow> bool" where
  "zeros_between gs r \<longleftrightarrow> fst r \<le> snd r \<and> snd r \<le> length gs \<and> (\<forall>i. fst r \<le> i \<longrightarrow> i < snd r \<longrightarrow> gs ! i = 0)"

lemma zero_run_zeros:
  assumes "i \<le> length gs"
  shows "zeros_between gs (i, i + zero_run (drop i gs))"
proof -
  let ?r = "zero_run (drop i gs)"
  have le: "?r \<le> length gs - i"
    using length_takeWhile_le [of "\<lambda>g. g = 0" "drop i gs"] by (simp add: zero_run_def)
  have "gs ! (i + j) = 0" if "j < ?r" for j
  proof -
    have "takeWhile (\<lambda>g. g = 0) (drop i gs) ! j = 0"
      using nth_mem [of j "takeWhile (\<lambda>g. g = 0) (drop i gs)"] that set_takeWhileD
      unfolding zero_run_def by metis
    moreover have "takeWhile (\<lambda>g. g = 0) (drop i gs) ! j = drop i gs ! j"
      using that by (simp add: takeWhile_nth zero_run_def)
    ultimately show ?thesis using assms le that by simp
  qed
  then have "gs ! j = 0" if "i \<le> j" "j < i + ?r" for j
    using that by (metis le_add_diff_inverse nat_add_left_cancel_less)
  then show ?thesis using le assms by (simp add: zeros_between_def)
qed

lemma longest_run_zeros: "zeros_between gs best \<Longrightarrow> zeros_between gs (longest_run fuel gs i best)"
proof (induction fuel arbitrary: i best)
  case 0
  then show ?case by simp
next
  case (Suc fuel)
  then show ?case using zero_run_zeros [of i gs] by (auto simp: Let_def)
qed

lemma zeros_between_split:
  assumes "zeros_between gs (a, b)"
  shows "gs = take a gs @ replicate (b - a) 0 @ drop b gs"
proof (rule nth_equalityI)
  show "length gs = length (take a gs @ replicate (b - a) 0 @ drop b gs)"
    using assms by (simp add: zeros_between_def)
  fix i
  assume "i < length gs"
  then show "gs ! i = (take a gs @ replicate (b - a) 0 @ drop b gs) ! i"
    using assms by (auto simp: zeros_between_def nth_append)
qed

section \<open>Parsing groups\<close>

lemma join_groups_Cons: "join_groups (g # gs) = appendHex g @ (if gs = [] then [] else CHR '':'' # join_groups gs)"
  by (cases gs) (simp_all add: join_groups_def)

lemma hex_not_sep: "c \<in> set (appendHex g) \<Longrightarrow> c \<noteq> CHR '':'' \<and> c \<noteq> CHR ''.''"
  using appendHex_chars [of g] by auto

lemma hd_appendHex: "hd (appendHex g) \<noteq> CHR '':''" "hd (appendHex g) \<noteq> CHR ''.''"
  using hex_not_sep [OF hd_in_set [OF appendHex_not_Nil(1)]] by simp_all

lemma join_groups_Nil [simp]: "join_groups [] = []"
  by (simp add: join_groups_def)

lemma hd_join_groups: "gs \<noteq> [] \<Longrightarrow> join_groups gs \<noteq> [] \<and> hd (join_groups gs) \<noteq> CHR '':''"
  using hd_appendHex by (cases gs) (auto simp: join_groups_Cons)

text \<open>One group, followed by the end or by a colon.\<close>

lemma parse6_group:
  assumes "g < 65536" "length ip < 16" "s = [] \<or> hd s = CHR '':''"
  shows "parse6_loop ip e (appendHex g @ s) =
    (let ip = ip @ [of_nat (g div 256), of_nat g]
     in if s = [] then Some (ip, e, s)
        else if length s = 1 then None
        else if hd (tl s) = CHR '':'' then
          (if e \<noteq> None then None
           else if tl (tl s) = [] then Some (ip, Some (length ip), [])
           else parse6_loop ip (Some (length ip)) (tl (tl s)))
        else parse6_loop ip e (tl s))"
proof -
  have "stops hex_val s" using assms(3) by (auto simp: stops_def hex_val_def)
  then have x: "xtoi (appendHex g @ s) = (g, length (appendHex g), True)"
    using assms(1) by (intro xtoi_appendHex) simp_all
  have dot: "\<not> (length (appendHex g) < length (appendHex g @ s) \<and> (appendHex g @ s) ! length (appendHex g) = CHR ''.'')"
    using assms(3) by (cases s) (auto simp: nth_append)
  have "\<not> 16 \<le> length ip" "\<not> (\<not> True \<or> g > 0xFFFF)" using assms by simp_all
  then show ?thesis
    unfolding parse6_loop.simps [of ip e "appendHex g @ s"] x prod.case if_not_P [OF dot]
    using assms(3) by (cases "s = []") (simp_all add: Let_def)
qed

lemma parse6_groups:
  assumes "gs \<noteq> []" "\<And>g. g \<in> set gs \<Longrightarrow> g < 65536" "length ip + 2 * length gs \<le> 16"
  shows "parse6_loop ip e (join_groups gs) = Some (ip @ group_bytes gs, e, [])"
  using assms
proof (induction gs arbitrary: ip)
  case Nil
  then show ?case by simp
next
  case (Cons g gs)
  let ?ip = "ip @ [of_nat (g div 256), of_nat g]"
  show ?case
  proof (cases "gs = []")
    case True
    then show ?thesis
      using parse6_group [of g ip "[]" e] Cons.prems by (simp add: join_groups_Cons group_bytes_def)
  next
    case False
    then have "parse6_loop ip e (join_groups (g # gs)) = parse6_loop ?ip e (join_groups gs)"
      using parse6_group [of g ip "CHR '':'' # join_groups gs" e] Cons.prems hd_join_groups [of gs]
      by (simp add: join_groups_Cons)
    then show ?thesis
      using Cons.IH [of ?ip] Cons.prems False by (simp add: group_bytes_def)
  qed
qed

lemma parse6_groups_ellipsis:
  assumes "gs \<noteq> []" "\<And>g. g \<in> set gs \<Longrightarrow> g < 65536" "length ip + 2 * length gs \<le> 16"
  shows "parse6_loop ip None (join_groups gs @ ''::'' @ t) =
    (let ip = ip @ group_bytes gs
     in if t = [] then Some (ip, Some (length ip), []) else parse6_loop ip (Some (length ip)) t)"
  using assms
proof (induction gs arbitrary: ip)
  case Nil
  then show ?case by simp
next
  case (Cons g gs)
  let ?ip = "ip @ [of_nat (g div 256), of_nat g]"
  show ?case
  proof (cases "gs = []")
    case True
    then show ?thesis
      using parse6_group [of g ip "''::'' @ t" None] Cons.prems by (simp add: join_groups_Cons group_bytes_def Let_def)
  next
    case False
    then have "parse6_loop ip None (join_groups (g # gs) @ ''::'' @ t) = parse6_loop ?ip None (join_groups gs @ ''::'' @ t)"
      using parse6_group [of g ip "CHR '':'' # join_groups gs @ ''::'' @ t" None] Cons.prems hd_join_groups [of gs]
      by (simp add: join_groups_Cons)
    then show ?thesis
      using Cons.IH [of ?ip] Cons.prems False by (simp add: group_bytes_def Let_def)
  qed
qed

section \<open>IPv6\<close>

lemma parseIPv6_groups:
  assumes "length gs = 8" "\<And>g. g \<in> set gs \<Longrightarrow> g < 65536"
  shows "parseIPv6 (join_groups gs) = group_bytes gs"
proof -
  have "gs \<noteq> []" using assms by auto
  then have "take 2 (join_groups gs) \<noteq> ''::''"
    using hd_join_groups [of gs] by (cases "join_groups gs") auto
  then show ?thesis
    using parse6_groups [of gs "[]" None] assms \<open>gs \<noteq> []\<close>
    by (simp add: parseIPv6_def expand_ellipsis_def)
qed

lemma parseIPv6_ellipsis:
  assumes "length xs + length ys \<le> 6" "\<And>g. g \<in> set xs \<union> set ys \<Longrightarrow> g < 65536"
  shows "parseIPv6 (join_groups xs @ ''::'' @ join_groups ys) =
    group_bytes xs @ replicate (16 - 2 * (length xs + length ys)) 0 @ group_bytes ys"
proof -
  have ys: "join_groups ys = [] \<longleftrightarrow> ys = []" using hd_join_groups [of ys] by auto
  have loop: "parse6_loop ip e (join_groups ys) = Some (ip @ group_bytes ys, e, [])"
    if "ys \<noteq> []" "length ip = 2 * length xs" for ip e
    using parse6_groups [of ys ip e] assms that by simp
  show ?thesis
  proof (cases "xs = []")
    case True
    then show ?thesis
      using loop [of "[]" "Some 0"] assms(1) ys
      by (cases "ys = []") (auto simp: parseIPv6_def expand_ellipsis_def)
  next
    case False
    let ?s = "join_groups xs @ ''::'' @ join_groups ys"
    have "take 2 ?s \<noteq> ''::''"
      using hd_join_groups [OF False] by (cases "join_groups xs") auto
    moreover have "parse6_loop [] None ?s = Some (group_bytes xs @ group_bytes ys, Some (2 * length xs), [])"
      using parse6_groups_ellipsis [of xs "[]" "join_groups ys"] False assms ys loop [of "group_bytes xs"]
      by (cases "ys = []") (simp_all add: Let_def)
    ultimately show ?thesis
      using assms(1) by (simp add: parseIPv6_def expand_ellipsis_def)
  qed
qed

lemma parseIPv6_string:
  assumes "length ip = 16"
  shows "parseIPv6 (ipv6_string ip) = ip"
proof -
  define gs where "gs = groups16 ip"
  obtain a b where ab: "longest_run (length gs) gs 0 (0, 0) = (a, b)" by fastforce
  have gs: "length gs = 8" "\<And>g. g \<in> set gs \<Longrightarrow> g < 65536" "group_bytes gs = ip"
    using assms by (auto simp: gs_def length_groups16 groups16_bytes dest: groups16_bound)
  have z: "zeros_between gs (a, b)"
    using longest_run_zeros [of gs "(0, 0)" "length gs" 0] ab by (simp add: zeros_between_def)
  then have le: "a \<le> b" "b \<le> 8" using gs(1) by (simp_all add: zeros_between_def)
  show ?thesis
  proof (cases "b - a \<le> 1")
    case True
    then show ?thesis
      using parseIPv6_groups gs ab by (simp add: ipv6_string_def gs_def)
  next
    case False
    have len: "length (take a gs) + length (drop b gs) = 8 - (b - a)" using le gs(1) by simp
    have run: "16 - 2 * (8 - (b - a)) = 2 * (b - a)" using le by simp
    have "length (take a gs) + length (drop b gs) \<le> 6" unfolding len using False by linarith
    moreover have "g < 65536" if "g \<in> set (take a gs) \<union> set (drop b gs)" for g
      using that gs(2) by (blast dest: in_set_takeD in_set_dropD)
    ultimately have "parseIPv6 (join_groups (take a gs) @ ''::'' @ join_groups (drop b gs)) =
        group_bytes (take a gs) @ replicate (2 * (b - a)) 0 @ group_bytes (drop b gs)"
      using parseIPv6_ellipsis [of "take a gs" "drop b gs"] unfolding len run by blast
    moreover have "ipv6_string ip = join_groups (take a gs) @ ''::'' @ join_groups (drop b gs)"
      using ab False by (simp add: ipv6_string_def gs_def Let_def)
    ultimately have "parseIPv6 (ipv6_string ip) = group_bytes (take a gs @ replicate (b - a) 0 @ drop b gs)"
      by (simp add: group_bytes_append group_bytes_zeros)
    then show ?thesis using zeros_between_split [OF z] gs(3) by simp
  qed
qed

lemma join_groups_chars: "CHR ''.'' \<notin> set (join_groups gs)"
  using hex_not_sep by (induction gs) (auto simp: join_groups_Cons)

lemma ipv6_string_chars:
  assumes "length ip = 16"
  shows "CHR ''.'' \<notin> set (ipv6_string ip)" "CHR '':'' \<in> set (ipv6_string ip)"
proof -
  obtain x y gs where g: "groups16 ip = x # y # gs"
    using length_groups16 [of ip] assms by (auto simp: numeral_eq_Suc length_Suc_conv)
  obtain a b where "longest_run (length (groups16 ip)) (groups16 ip) 0 (0, 0) = (a, b)" by fastforce
  then have "ipv6_string ip = (if b - a \<le> 1 then join_groups (groups16 ip)
      else join_groups (take a (groups16 ip)) @ ''::'' @ join_groups (drop b (groups16 ip)))"
    by (simp add: ipv6_string_def Let_def)
  then show "CHR ''.'' \<notin> set (ipv6_string ip)" "CHR '':'' \<in> set (ipv6_string ip)"
    using join_groups_chars hex_not_sep g by (auto simp: join_groups_Cons)
qed

text \<open>Every address of sixteen bytes is the address its text parses to.\<close>

lemma ParseIP_String:
  assumes "length ip = 16"
  shows "ParseIP (IP_String ip) = ip"
proof (cases "take 12 ip = v4InV6Prefix")
  case True
  then show ?thesis
    using ParseIP_dotted [of "drop 12 ip"] assms append_take_drop_id [of 12 ip]
    by (auto simp: IP_String_def To4_def)
next
  case False
  then show ?thesis
    using assms ipv6_string_chars [OF assms] parseIPv6_string [OF assms]
    by (auto simp: IP_String_def To4_def ParseIP_def ParseIP_scan_colon)
qed

lemma IP_String_inject:
  assumes "length ip = 16" "length ip' = 16"
  shows "IP_String ip = IP_String ip' \<longleftrightarrow> ip = ip'"
  by (metis ParseIP_String assms)

end
