(* ===== verification/Redirect_Iptables.thy ===== *)
theory Redirect_Iptables
  imports Redirect Wellknown Go_Net_Roundtrip
begin

text \<open>
  \<open>pkg/redirect/iptables.go\<close>: the redirect by NAT rules. The interface of
  \<open>k8s.io/kubernetes/pkg/util/iptables\<close> and its function \<open>IsNotFoundError\<close> are parameters;
  \<open>'st\<close> is the state of the tables of one IP family, which a call may change. The mutex makes
  \<open>AddIP\<close>, \<open>RemoveIP\<close> and \<open>Cleanup\<close> atomic.
\<close>

datatype RulePosition = Prepend | Append

abbreviation TableNAT :: string where
  "TableNAT \<equiv> ''nat''"

abbreviation ChainPrerouting :: string where
  "ChainPrerouting \<equiv> ''PREROUTING''"

abbreviation ChainOutput :: string where
  "ChainOutput \<equiv> ''OUTPUT''"

record 'st iptables_Interface =
  EnsureChain :: "string \<Rightarrow> string \<Rightarrow> 'st \<Rightarrow> 'st \<times> bool \<times> go_error option"
  EnsureRule :: "RulePosition \<Rightarrow> string \<Rightarrow> string \<Rightarrow> string list \<Rightarrow> 'st \<Rightarrow> 'st \<times> bool \<times> go_error option"
  DeleteRule :: "string \<Rightarrow> string \<Rightarrow> string list \<Rightarrow> 'st \<Rightarrow> 'st \<times> go_error option"
  DeleteChain :: "string \<Rightarrow> string \<Rightarrow> 'st \<Rightarrow> 'st \<times> go_error option"

type_synonym not_found = "go_error option \<Rightarrow> bool go"

definition iptablesLightpathChainName :: string where
  "iptablesLightpathChainName = ''LIGHTPATH-SVC-REDIRECT''"

definition lightpathIptablesJumpChainArgs :: "string list" where
  "lightpathIptablesJumpChainArgs =
     [''-m'', ''comment'', ''--comment'', ''lightpath prerouting rules'', ''-j'',
      iptablesLightpathChainName]"

text \<open>The tables of both families and the port of the proxy.\<close>

record 'st IptablesRedirect =
  ir_iptables :: 'st
  ir_ip6tables :: 'st
  envoyPort :: int

definition on_iptables ::
    "('st \<Rightarrow> 'st \<times> 'b) \<Rightarrow> 'st IptablesRedirect \<Rightarrow> 'st IptablesRedirect \<times> 'b" where
  "on_iptables f ir = (case f (ir_iptables ir) of (st, r) \<Rightarrow> (ir\<lparr>ir_iptables := st\<rparr>, r))"

definition on_ip6tables ::
    "('st \<Rightarrow> 'st \<times> 'b) \<Rightarrow> 'st IptablesRedirect \<Rightarrow> 'st IptablesRedirect \<times> 'b" where
  "on_ip6tables f ir = (case f (ir_ip6tables ir) of (st, r) \<Rightarrow> (ir\<lparr>ir_ip6tables := st\<rparr>, r))"

definition NewIptablesRedirect :: "'st \<Rightarrow> 'st \<Rightarrow> int \<Rightarrow> 'st IptablesRedirect" where
  "NewIptablesRedirect st4 st6 port = \<lparr>ir_iptables = st4, ir_ip6tables = st6, envoyPort = port\<rparr>"

text \<open>A sequence of calls that stops at the first error.\<close>

fun until_error ::
    "('s \<Rightarrow> 's \<times> bool \<times> go_error option) list \<Rightarrow> 's \<Rightarrow> 's \<times> go_error option" where
  "until_error [] s = (s, None)"
| "until_error (f # fs) s =
     (case f s of (s, _, err) \<Rightarrow> if err \<noteq> None then (s, err) else until_error fs s)"

definition ipt_Prereqs ::
    "'st iptables_Interface \<Rightarrow> 'st iptables_Interface \<Rightarrow> 'st IptablesRedirect redirect_op" where
  "ipt_Prereqs ipt ipt6 ir = Inr (until_error
     [on_iptables (EnsureChain ipt TableNAT iptablesLightpathChainName),
      on_ip6tables (EnsureChain ipt6 TableNAT iptablesLightpathChainName),
      on_iptables (EnsureRule ipt Prepend TableNAT ChainPrerouting lightpathIptablesJumpChainArgs),
      on_iptables (EnsureRule ipt Prepend TableNAT ChainOutput lightpathIptablesJumpChainArgs),
      on_ip6tables (EnsureRule ipt6 Prepend TableNAT ChainPrerouting lightpathIptablesJumpChainArgs),
      on_ip6tables (EnsureRule ipt6 Prepend TableNAT ChainOutput lightpathIptablesJumpChainArgs)] ir)"

definition redirArgs :: "int \<Rightarrow> string \<Rightarrow> IP \<Rightarrow> string list" where
  "redirArgs port comment ip =
     [''-m'', ''comment'', ''--comment'', comment, ''-d'', IP_String ip, ''-p'', ''tcp'',
      ''-j'', ''REDIRECT'', ''--to-port'', fmt_int port]"

definition ipt_AddIP ::
    "'st iptables_Interface \<Rightarrow> 'st iptables_Interface \<Rightarrow> string \<Rightarrow> IP \<Rightarrow> 'st IptablesRedirect redirect_op" where
  "ipt_AddIP ipt ipt6 comment ip ir =
     (let redirectArgs = redirArgs (envoyPort ir) comment ip;
          (ir, _, err) =
            (if To4 ip \<noteq> []
             then on_iptables (EnsureRule ipt Append TableNAT iptablesLightpathChainName redirectArgs) ir
             else on_ip6tables (EnsureRule ipt6 Append TableNAT iptablesLightpathChainName redirectArgs) ir)
      in Inr (ir, err))"

definition ipt_RemoveIP ::
    "not_found \<Rightarrow> 'st iptables_Interface \<Rightarrow> 'st iptables_Interface \<Rightarrow> string \<Rightarrow> IP \<Rightarrow>
     'st IptablesRedirect redirect_op" where
  "ipt_RemoveIP IsNotFoundError ipt ipt6 comment ip ir =
     (let redirectArgs = redirArgs (envoyPort ir) comment ip;
          (ir, err) =
            (if To4 ip \<noteq> []
             then on_iptables (DeleteRule ipt TableNAT iptablesLightpathChainName redirectArgs) ir
             else on_ip6tables (DeleteRule ipt6 TableNAT iptablesLightpathChainName redirectArgs) ir)
      in go_bind (IsNotFoundError err) (\<lambda>notFound.
           if notFound then Inr (ir, None) else Inr (ir, err)))"

text \<open>One step of \<open>Cleanup\<close>: a call, and the condition that decides whether its error is kept.\<close>

definition cleanup_step ::
    "not_found \<Rightarrow> ('s \<Rightarrow> 's \<times> go_error option) \<Rightarrow> 's \<times> go_error option \<Rightarrow>
     ('s \<times> go_error option) go" where
  "cleanup_step IsNotFoundError f s_lastErr =
     (case s_lastErr of (s, lastErr) \<Rightarrow>
        case f s of (s, err) \<Rightarrow>
          if err \<noteq> None
          then go_bind (IsNotFoundError err) (\<lambda>notFound.
                 if notFound then Inr (s, err) else Inr (s, lastErr))
          else Inr (s, lastErr))"

definition ipt_Cleanup ::
    "not_found \<Rightarrow> 'st iptables_Interface \<Rightarrow> 'st iptables_Interface \<Rightarrow> 'st IptablesRedirect redirect_op" where
  "ipt_Cleanup IsNotFoundError ipt ipt6 ir =
     go_fold (cleanup_step IsNotFoundError)
       [on_iptables (DeleteRule ipt TableNAT ChainPrerouting lightpathIptablesJumpChainArgs),
        on_iptables (DeleteRule ipt TableNAT ChainOutput lightpathIptablesJumpChainArgs),
        on_ip6tables (DeleteRule ipt6 TableNAT ChainPrerouting lightpathIptablesJumpChainArgs),
        on_ip6tables (DeleteRule ipt6 TableNAT ChainOutput lightpathIptablesJumpChainArgs),
        on_iptables (DeleteChain ipt TableNAT iptablesLightpathChainName),
        on_ip6tables (DeleteChain ipt6 TableNAT iptablesLightpathChainName)] (ir, None)"

definition IptablesRedirect_impl ::
    "not_found \<Rightarrow> 'st iptables_Interface \<Rightarrow> 'st iptables_Interface \<Rightarrow> 'st IptablesRedirect Redirect" where
  "IptablesRedirect_impl IsNotFoundError ipt ipt6 =
     \<lparr>Prereqs = ipt_Prereqs ipt ipt6,
      AddIP = ipt_AddIP ipt ipt6,
      RemoveIP = ipt_RemoveIP IsNotFoundError ipt ipt6,
      Cleanup = ipt_Cleanup IsNotFoundError ipt ipt6\<rparr>"

section \<open>The contract of iptables\<close>

text \<open>
  The documented behaviour of the interface, for tables on which the commands run without
  failing (\<open>works\<close>). \<open>EnsureChain\<close> creates a chain that is missing, \<open>EnsureRule\<close> adds a rule
  to an existing chain unless it is there, and \<open>DeleteRule\<close> deletes a rule of an existing
  chain if it is there; no other rule changes. Arguments that are no rule of the family are
  rejected with an error, and change nothing.
\<close>

locale iptables =
  fixes ipt :: "'st iptables_Interface"
    and chain_set :: "'st \<Rightarrow> (string \<times> string) set"
    and rules :: "'st \<Rightarrow> string \<times> string \<Rightarrow> string list set"
    and works :: "'st \<Rightarrow> bool"
    and valid_args :: "string list \<Rightarrow> bool"
  assumes EnsureChain_creates: "works st \<Longrightarrow>
      \<exists>st' b. EnsureChain ipt t c st = (st', b, None) \<and> works st' \<and>
        chain_set st' = insert (t, c) (chain_set st) \<and> rules st' = rules st"
    and EnsureRule_adds: "works st \<Longrightarrow> (t, c) \<in> chain_set st \<Longrightarrow> valid_args args \<Longrightarrow>
      \<exists>st' b. EnsureRule ipt pos t c args st = (st', b, None) \<and> works st' \<and>
        chain_set st' = chain_set st \<and> rules st' = (rules st)((t, c) := insert args (rules st (t, c)))"
    and EnsureRule_rejects: "works st \<Longrightarrow> \<not> valid_args args \<Longrightarrow>
      \<exists>st' b err. EnsureRule ipt pos t c args st = (st', b, Some err) \<and> works st' \<and>
        chain_set st' = chain_set st \<and> rules st' = rules st"
    and DeleteRule_deletes: "works st \<Longrightarrow> (t, c) \<in> chain_set st \<Longrightarrow> valid_args args \<Longrightarrow>
      \<exists>st'. DeleteRule ipt t c args st = (st', None) \<and> works st' \<and>
        chain_set st' = chain_set st \<and> rules st' = (rules st)((t, c) := rules st (t, c) - {args})"
    and DeleteRule_rejects: "works st \<Longrightarrow> \<not> valid_args args \<Longrightarrow>
      \<exists>st' err. DeleteRule ipt t c args st = (st', Some err) \<and> works st' \<and>
        chain_set st' = chain_set st \<and> rules st' = rules st"

text \<open>
  Both families, and the error test, which answers for every error. Nothing is said of nil: the
  documentation has the test parse the text of the error, and nil has none. \<open>RemoveIP\<close> applies the
  test to the nil error of a deletion that succeeded, too; \<open>nil_panic\<close> is what happens then. The
  jump is a rule of both families, the redirect of an IPv4 address one of \<open>iptables\<close> and that of
  an IPv6 address one of \<open>ip6tables\<close>; a redirect with the text \<open><nil>\<close> for its destination is no
  rule.
\<close>

definition nil_panic :: "not_found \<Rightarrow> panic option" where
  "nil_panic IsNotFoundError = (case IsNotFoundError None of Inl p \<Rightarrow> Some p | Inr _ \<Rightarrow> None)"

locale iptables_pair =
  v4: iptables ipt chain_set rules works valid4 + v6: iptables ipt6 chain_set rules works valid6
  for ipt :: "'st iptables_Interface" and ipt6 :: "'st iptables_Interface"
    and chain_set :: "'st \<Rightarrow> (string \<times> string) set"
    and rules :: "'st \<Rightarrow> string \<times> string \<Rightarrow> string list set"
    and works :: "'st \<Rightarrow> bool"
    and valid4 :: "string list \<Rightarrow> bool"
    and valid6 :: "string list \<Rightarrow> bool" +
  fixes IsNotFoundError :: not_found
    and port :: int
  assumes error_test: "\<exists>b. IsNotFoundError (Some err) = Inr b"
    and jump_args: "valid4 lightpathIptablesJumpChainArgs" "valid6 lightpathIptablesJumpChainArgs"
    and v4_address: "To4 ip \<noteq> [] \<Longrightarrow> valid4 (redirArgs port comment ip)"
    and v6_address: "length ip = 16 \<Longrightarrow> To4 ip = [] \<Longrightarrow> valid6 (redirArgs port comment ip)"
    and nil_address: "\<not> valid6 (redirArgs port comment [])"

text \<open>The rule of an address: its family and its arguments.\<close>

definition ip_rule :: "int \<Rightarrow> string \<Rightarrow> IP \<Rightarrow> bool \<times> string list" where
  "ip_rule port comment ip = (To4 ip \<noteq> [], redirArgs port comment ip)"

abbreviation svc_chain :: "string \<times> string" where
  "svc_chain \<equiv> (TableNAT, iptablesLightpathChainName)"

definition installed_rules ::
    "('st \<Rightarrow> string \<times> string \<Rightarrow> string list set) \<Rightarrow> 'st IptablesRedirect \<Rightarrow> (bool \<times> string list) set" where
  "installed_rules rules ir =
     Pair True ` rules (ir_iptables ir) svc_chain \<union> Pair False ` rules (ir_ip6tables ir) svc_chain"

definition ir_working ::
    "('st \<Rightarrow> (string \<times> string) set) \<Rightarrow> ('st \<Rightarrow> bool) \<Rightarrow> int \<Rightarrow> 'st IptablesRedirect \<Rightarrow> bool" where
  "ir_working chain_set works port ir \<longleftrightarrow>
     works (ir_iptables ir) \<and> works (ir_ip6tables ir) \<and>
     svc_chain \<in> chain_set (ir_iptables ir) \<and> svc_chain \<in> chain_set (ir_ip6tables ir) \<and>
     envoyPort ir = port"

lemma installed_v4:
  "rules st' = (rules (ir_iptables ir))(svc_chain := S) \<Longrightarrow>
     installed_rules rules (ir\<lparr>ir_iptables := st'\<rparr>) =
     Pair True ` S \<union> Pair False ` rules (ir_ip6tables ir) svc_chain"
  by (simp add: installed_rules_def)

lemma installed_v6:
  "rules st' = (rules (ir_ip6tables ir))(svc_chain := S) \<Longrightarrow>
     installed_rules rules (ir\<lparr>ir_ip6tables := st'\<rparr>) =
     Pair True ` rules (ir_iptables ir) svc_chain \<union> Pair False ` S"
  by (simp add: installed_rules_def)

context iptables_pair
begin

lemma AddIP_adds_rule:
  assumes "ir_working chain_set works port ir" "length ip = 16"
  shows "\<exists>ir'. ipt_AddIP ipt ipt6 c ip ir = Inr (ir', None) \<and> ir_working chain_set works port ir' \<and>
    installed_rules rules ir' = insert (ip_rule port c ip) (installed_rules rules ir)"
proof (cases "To4 ip = []")
  case True
  let ?a = "redirArgs port c ip"
  obtain st b where st: "EnsureRule ipt6 Append TableNAT iptablesLightpathChainName ?a (ir_ip6tables ir) = (st, b, None)"
    "works st" "chain_set st = chain_set (ir_ip6tables ir)"
    "rules st = (rules (ir_ip6tables ir))(svc_chain := insert ?a (rules (ir_ip6tables ir) svc_chain))"
    using v6.EnsureRule_adds v6_address [OF assms(2) True] assms(1) unfolding ir_working_def by blast
  then show ?thesis
    using True assms installed_v6 [OF st(4)]
    by (simp add: ipt_AddIP_def on_ip6tables_def ir_working_def ip_rule_def installed_rules_def)
next
  case False
  let ?a = "redirArgs port c ip"
  obtain st b where st: "EnsureRule ipt Append TableNAT iptablesLightpathChainName ?a (ir_iptables ir) = (st, b, None)"
    "works st" "chain_set st = chain_set (ir_iptables ir)"
    "rules st = (rules (ir_iptables ir))(svc_chain := insert ?a (rules (ir_iptables ir) svc_chain))"
    using v4.EnsureRule_adds v4_address [OF False] assms(1) unfolding ir_working_def by blast
  then show ?thesis
    using False assms installed_v4 [OF st(4)]
    by (simp add: ipt_AddIP_def on_iptables_def ir_working_def ip_rule_def installed_rules_def)
qed

lemma DeleteRule_redirect:
  assumes "ir_working chain_set works port ir" "length ip = 16"
  obtains ir' where "(if To4 ip \<noteq> []
      then on_iptables (DeleteRule ipt TableNAT iptablesLightpathChainName (redirArgs port c ip)) ir
      else on_ip6tables (DeleteRule ipt6 TableNAT iptablesLightpathChainName (redirArgs port c ip)) ir) = (ir', None)"
    "ir_working chain_set works port ir'"
    "installed_rules rules ir' = installed_rules rules ir - {ip_rule port c ip}"
proof (cases "To4 ip = []")
  case True
  let ?a = "redirArgs port c ip"
  obtain st where st: "DeleteRule ipt6 TableNAT iptablesLightpathChainName ?a (ir_ip6tables ir) = (st, None)"
    "works st" "chain_set st = chain_set (ir_ip6tables ir)"
    "rules st = (rules (ir_ip6tables ir))(svc_chain := rules (ir_ip6tables ir) svc_chain - {?a})"
    using v6.DeleteRule_deletes v6_address [OF assms(2) True] assms(1) unfolding ir_working_def by blast
  show ?thesis
    by (rule that [of "ir\<lparr>ir_ip6tables := st\<rparr>"])
      (use True assms st installed_v6 [OF st(4)] in
        \<open>auto simp: on_ip6tables_def ir_working_def ip_rule_def installed_rules_def\<close>)
next
  case False
  let ?a = "redirArgs port c ip"
  obtain st where st: "DeleteRule ipt TableNAT iptablesLightpathChainName ?a (ir_iptables ir) = (st, None)"
    "works st" "chain_set st = chain_set (ir_iptables ir)"
    "rules st = (rules (ir_iptables ir))(svc_chain := rules (ir_iptables ir) svc_chain - {?a})"
    using v4.DeleteRule_deletes v4_address [OF False] assms(1) unfolding ir_working_def by blast
  show ?thesis
    by (rule that [of "ir\<lparr>ir_iptables := st\<rparr>"])
      (use False assms st installed_v4 [OF st(4)] in
        \<open>auto simp: on_iptables_def ir_working_def ip_rule_def installed_rules_def\<close>)
qed

lemma RemoveIP_deletes_rule:
  assumes "nil_panic IsNotFoundError = None" "ir_working chain_set works port ir" "length ip = 16"
  shows "\<exists>ir'. ipt_RemoveIP IsNotFoundError ipt ipt6 c ip ir = Inr (ir', None) \<and>
    ir_working chain_set works port ir' \<and>
    installed_rules rules ir' = installed_rules rules ir - {ip_rule port c ip}"
proof -
  have port: "envoyPort ir = port" using assms(2) by (simp add: ir_working_def)
  obtain b where b: "IsNotFoundError None = Inr b"
    using assms(1) by (auto simp: nil_panic_def split: sum.splits)
  obtain ir' where ir': "(if To4 ip \<noteq> []
      then on_iptables (DeleteRule ipt TableNAT iptablesLightpathChainName (redirArgs port c ip)) ir
      else on_ip6tables (DeleteRule ipt6 TableNAT iptablesLightpathChainName (redirArgs port c ip)) ir) = (ir', None)"
    "ir_working chain_set works port ir'"
    "installed_rules rules ir' = installed_rules rules ir - {ip_rule port c ip}"
    using DeleteRule_redirect [OF assms(2,3)] .
  show ?thesis unfolding ipt_RemoveIP_def Let_def port ir'(1) using ir'(2,3) b by simp
qed

lemma RemoveIP_nil_test_panics:
  assumes "nil_panic IsNotFoundError = Some p" "ir_working chain_set works port ir" "length ip = 16"
  shows "ipt_RemoveIP IsNotFoundError ipt ipt6 c ip ir = Inl p"
proof -
  have port: "envoyPort ir = port" using assms(2) by (simp add: ir_working_def)
  have nil: "IsNotFoundError None = Inl p"
    using assms(1) by (auto simp: nil_panic_def split: sum.splits)
  obtain ir' where ir': "(if To4 ip \<noteq> []
      then on_iptables (DeleteRule ipt TableNAT iptablesLightpathChainName (redirArgs port c ip)) ir
      else on_ip6tables (DeleteRule ipt6 TableNAT iptablesLightpathChainName (redirArgs port c ip)) ir) = (ir', None)"
    using DeleteRule_redirect [OF assms(2,3)] .
  show ?thesis unfolding ipt_RemoveIP_def Let_def port ir' using nil by simp
qed

lemma AddIP_nil_fails:
  assumes "ir_working chain_set works port ir"
  shows "\<exists>ir' err. ipt_AddIP ipt ipt6 c [] ir = Inr (ir', Some err) \<and> ir_working chain_set works port ir' \<and>
    installed_rules rules ir' = installed_rules rules ir"
proof -
  obtain st b err where "EnsureRule ipt6 Append TableNAT iptablesLightpathChainName (redirArgs port c [])
      (ir_ip6tables ir) = (st, b, Some err)"
    "works st" "chain_set st = chain_set (ir_ip6tables ir)" "rules st = rules (ir_ip6tables ir)"
    using v6.EnsureRule_rejects nil_address assms unfolding ir_working_def by blast
  then show ?thesis
    using assms by (simp add: ipt_AddIP_def To4_Nil on_ip6tables_def ir_working_def installed_rules_def)
qed

lemma RemoveIP_nil_fails:
  assumes "ir_working chain_set works port ir"
  shows "\<exists>ir' err. ipt_RemoveIP IsNotFoundError ipt ipt6 c [] ir = Inr (ir', err) \<and>
    ir_working chain_set works port ir' \<and> installed_rules rules ir' = installed_rules rules ir"
proof -
  obtain st err where "DeleteRule ipt6 TableNAT iptablesLightpathChainName (redirArgs port c [])
      (ir_ip6tables ir) = (st, Some err)"
    "works st" "chain_set st = chain_set (ir_ip6tables ir)" "rules st = rules (ir_ip6tables ir)"
    using v6.DeleteRule_rejects nil_address assms unfolding ir_working_def by blast
  moreover obtain b where "IsNotFoundError (Some err) = Inr b" using error_test by blast
  ultimately show ?thesis
    using assms by (simp add: ipt_RemoveIP_def To4_Nil on_ip6tables_def ir_working_def installed_rules_def)
qed

end

text \<open>So the redirect by iptables is a redirect in the sense of the handlers.\<close>

sublocale iptables_pair \<subseteq> nat: redirect_comments "IptablesRedirect_impl IsNotFoundError ipt ipt6" "ip_rule port"
  "installed_rules rules" "ir_working chain_set works port" "nil_panic IsNotFoundError"
proof
  show "\<exists>st'. AddIP (IptablesRedirect_impl IsNotFoundError ipt ipt6) c ip st = Inr (st', None) \<and>
      ir_working chain_set works port st' \<and>
      installed_rules rules st' = insert (ip_rule port c ip) (installed_rules rules st)"
    if "ir_working chain_set works port st" "length ip = 16" for st c ip
    using AddIP_adds_rule [OF that] by (simp add: IptablesRedirect_impl_def)
  show "\<exists>st' err. AddIP (IptablesRedirect_impl IsNotFoundError ipt ipt6) c [] st = Inr (st', Some err) \<and>
      ir_working chain_set works port st' \<and> installed_rules rules st' = installed_rules rules st"
    if "ir_working chain_set works port st" for st c
    using AddIP_nil_fails [OF that] by (simp add: IptablesRedirect_impl_def)
  show "\<exists>st'. RemoveIP (IptablesRedirect_impl IsNotFoundError ipt ipt6) c ip st = Inr (st', None) \<and>
      ir_working chain_set works port st' \<and>
      installed_rules rules st' = installed_rules rules st - {ip_rule port c ip}"
    if "nil_panic IsNotFoundError = None" "ir_working chain_set works port st" "length ip = 16" for st c ip
    using RemoveIP_deletes_rule [OF that] by (simp add: IptablesRedirect_impl_def)
  show "RemoveIP (IptablesRedirect_impl IsNotFoundError ipt ipt6) c ip st = Inl p"
    if "nil_panic IsNotFoundError = Some p" "ir_working chain_set works port st" "length ip = 16" for p st c ip
    using RemoveIP_nil_test_panics [OF that] by (simp add: IptablesRedirect_impl_def)
  show "\<exists>st' err. RemoveIP (IptablesRedirect_impl IsNotFoundError ipt ipt6) c [] st = Inr (st', err) \<and>
      ir_working chain_set works port st' \<and> installed_rules rules st' = installed_rules rules st"
    if "ir_working chain_set works port st" for st c
    using RemoveIP_nil_fails [OF that] by (simp add: IptablesRedirect_impl_def)
  show "c = c'" if "ip_rule port c ip = ip_rule port c' ip'" for c ip c' ip'
    using that by (simp add: ip_rule_def redirArgs_def)
qed

section \<open>A reference NAT table\<close>

text \<open>
  Tables that meet the contract: a map from table and chain to the list of its rules. As the
  manual of iptables says, a rule of a missing chain is an error, and so is the deletion of a
  chain that still has rules. The destination of a rule has to be an address.
\<close>

fun option_value :: "string \<Rightarrow> string list \<Rightarrow> string option" where
  "option_value k (opt # v # args) = (if opt = k then Some v else option_value k args)"
| "option_value k args = None"

definition ref_valid_args :: "string list \<Rightarrow> bool" where
  "ref_valid_args args \<longleftrightarrow> option_value ''-d'' args \<noteq> Some ''<nil>''"

abbreviation no_host_error :: go_error where
  "no_host_error \<equiv> ''host/network not found''"

type_synonym nat_tables = "(string \<times> string, string list list) gomap"

abbreviation no_chain_error :: go_error where
  "no_chain_error \<equiv> ''No chain/target/match by that name''"

definition ref_EnsureChain :: "string \<Rightarrow> string \<Rightarrow> nat_tables \<Rightarrow> nat_tables \<times> bool \<times> go_error option" where
  "ref_EnsureChain t c st =
     (case gomap_get st (t, c) of
        None \<Rightarrow> (gomap_put (t, c) [] st, False, None)
      | Some _ \<Rightarrow> (st, True, None))"

definition ref_EnsureRule ::
    "RulePosition \<Rightarrow> string \<Rightarrow> string \<Rightarrow> string list \<Rightarrow> nat_tables \<Rightarrow> nat_tables \<times> bool \<times> go_error option" where
  "ref_EnsureRule pos t c args st =
     (if \<not> ref_valid_args args then (st, False, Some no_host_error)
      else case gomap_get st (t, c) of
        None \<Rightarrow> (st, False, Some no_chain_error)
      | Some rs \<Rightarrow>
          if args \<in> set rs then (st, True, None)
          else (gomap_put (t, c) (case pos of Prepend \<Rightarrow> args # rs | Append \<Rightarrow> rs @ [args]) st, False, None))"

definition ref_DeleteRule ::
    "string \<Rightarrow> string \<Rightarrow> string list \<Rightarrow> nat_tables \<Rightarrow> nat_tables \<times> go_error option" where
  "ref_DeleteRule t c args st =
     (if \<not> ref_valid_args args then (st, Some no_host_error)
      else case gomap_get st (t, c) of
        None \<Rightarrow> (st, Some no_chain_error)
      | Some rs \<Rightarrow> (gomap_put (t, c) (removeAll args rs) st, None))"

definition ref_DeleteChain :: "string \<Rightarrow> string \<Rightarrow> nat_tables \<Rightarrow> nat_tables \<times> go_error option" where
  "ref_DeleteChain t c st =
     (case gomap_get st (t, c) of
        None \<Rightarrow> (st, Some no_chain_error)
      | Some rs \<Rightarrow> if rs \<noteq> [] then (st, Some ''Directory not empty'') else (gomap_del (t, c) st, None))"

definition ref_iptables :: "nat_tables iptables_Interface" where
  "ref_iptables =
     \<lparr>EnsureChain = ref_EnsureChain, EnsureRule = ref_EnsureRule,
      DeleteRule = ref_DeleteRule, DeleteChain = ref_DeleteChain\<rparr>"

definition ref_IsNotFoundError :: not_found where
  "ref_IsNotFoundError err =
     (case err of None \<Rightarrow> Inl (PanicErr ''nil pointer dereference'') | Some e \<Rightarrow> Inr (e = no_chain_error))"

definition ref_chains :: "nat_tables \<Rightarrow> (string \<times> string) set" where
  "ref_chains st = {k. gomap_get st k \<noteq> None}"

definition ref_rules :: "nat_tables \<Rightarrow> string \<times> string \<Rightarrow> string list set" where
  "ref_rules st k = (case gomap_get st k of None \<Rightarrow> {} | Some rs \<Rightarrow> set rs)"

lemma ref_valid_redirArgs: "ref_valid_args (redirArgs port comment ip) \<longleftrightarrow> IP_String ip \<noteq> ''<nil>''"
  by (simp add: ref_valid_args_def redirArgs_def)

lemma ref_valid_jump: "ref_valid_args lightpathIptablesJumpChainArgs"
  by (simp add: ref_valid_args_def lightpathIptablesJumpChainArgs_def)

interpretation ref_tables: iptables ref_iptables ref_chains ref_rules "\<lambda>_. True" ref_valid_args
proof (unfold_locales, goal_cases)
  case (1 st t c)
  then show ?case
    by (auto simp: ref_iptables_def ref_EnsureChain_def ref_chains_def ref_rules_def fun_eq_iff
        split: option.split)
next
  case (2 st t c args pos)
  then show ?case
    by (auto simp: ref_iptables_def ref_EnsureRule_def ref_chains_def ref_rules_def fun_eq_iff
        split: option.splits RulePosition.split)
next
  case (3 st args pos t c)
  then show ?case by (auto simp: ref_iptables_def ref_EnsureRule_def)
next
  case (4 st t c args)
  then show ?case
    by (auto simp: ref_iptables_def ref_DeleteRule_def ref_chains_def ref_rules_def fun_eq_iff
        split: option.splits)
next
  case (5 st args t c)
  then show ?case by (simp add: ref_iptables_def ref_DeleteRule_def)
qed

interpretation ref: iptables_pair ref_iptables ref_iptables ref_chains ref_rules "\<lambda>_. True"
  ref_valid_args ref_valid_args ref_IsNotFoundError port for port
  by unfold_locales
    (simp_all add: ref_valid_redirArgs ref_valid_jump IP_String_not_nil ref_IsNotFoundError_def IP_String_def [of "[]"])

section \<open>Properties\<close>

context iptables_pair
begin

lemma is_redirect:
  "redirect_comments (IptablesRedirect_impl IsNotFoundError ipt ipt6) (ip_rule port)
     (installed_rules rules) (ir_working chain_set works port) (nil_panic IsNotFoundError)"
  by (rule nat.redirect_comments_axioms)

lemma Prereqs_steps:
  assumes "works (ir_iptables ir)" "works (ir_ip6tables ir)"
    and "{(TableNAT, ChainPrerouting), (TableNAT, ChainOutput)} \<subseteq> chain_set (ir_iptables ir)"
    and "{(TableNAT, ChainPrerouting), (TableNAT, ChainOutput)} \<subseteq> chain_set (ir_ip6tables ir)"
  shows "\<exists>ir'. ipt_Prereqs ipt ipt6 ir = Inr (ir', None) \<and>
    ir_working chain_set works (envoyPort ir) ir' \<and>
    lightpathIptablesJumpChainArgs \<in> rules (ir_iptables ir') (TableNAT, ChainPrerouting) \<and>
    lightpathIptablesJumpChainArgs \<in> rules (ir_iptables ir') (TableNAT, ChainOutput) \<and>
    lightpathIptablesJumpChainArgs \<in> rules (ir_ip6tables ir') (TableNAT, ChainPrerouting) \<and>
    lightpathIptablesJumpChainArgs \<in> rules (ir_ip6tables ir') (TableNAT, ChainOutput)"
proof -
  let ?j = "lightpathIptablesJumpChainArgs" and ?c = iptablesLightpathChainName
  obtain a ba where a: "EnsureChain ipt TableNAT ?c (ir_iptables ir) = (a, ba, None)" "works a"
    "chain_set a = insert svc_chain (chain_set (ir_iptables ir))"
    using v4.EnsureChain_creates [OF assms(1)] by blast
  obtain b bb where b: "EnsureChain ipt6 TableNAT ?c (ir_ip6tables ir) = (b, bb, None)" "works b"
    "chain_set b = insert svc_chain (chain_set (ir_ip6tables ir))"
    using v6.EnsureChain_creates [OF assms(2)] by blast
  have m: "(TableNAT, ChainPrerouting) \<in> chain_set a" "(TableNAT, ChainOutput) \<in> chain_set a"
    "(TableNAT, ChainPrerouting) \<in> chain_set b" "(TableNAT, ChainOutput) \<in> chain_set b"
    using a(3) b(3) assms(3,4) by simp_all
  obtain c bc where c: "EnsureRule ipt Prepend TableNAT ChainPrerouting ?j a = (c, bc, None)" "works c"
    "chain_set c = chain_set a"
    "rules c = (rules a)((TableNAT, ChainPrerouting) := insert ?j (rules a (TableNAT, ChainPrerouting)))"
    using v4.EnsureRule_adds [OF a(2) m(1) jump_args(1)] by blast
  obtain d bd where d: "EnsureRule ipt Prepend TableNAT ChainOutput ?j c = (d, bd, None)" "works d"
    "chain_set d = chain_set a"
    "rules d = (rules c)((TableNAT, ChainOutput) := insert ?j (rules c (TableNAT, ChainOutput)))"
    using v4.EnsureRule_adds [OF c(2) m(2) [folded c(3)] jump_args(1), of Prepend] c(3) by auto
  obtain e be where e: "EnsureRule ipt6 Prepend TableNAT ChainPrerouting ?j b = (e, be, None)" "works e"
    "chain_set e = chain_set b"
    "rules e = (rules b)((TableNAT, ChainPrerouting) := insert ?j (rules b (TableNAT, ChainPrerouting)))"
    using v6.EnsureRule_adds [OF b(2) m(3) jump_args(2)] by blast
  obtain f bf where f: "EnsureRule ipt6 Prepend TableNAT ChainOutput ?j e = (f, bf, None)" "works f"
    "chain_set f = chain_set b"
    "rules f = (rules e)((TableNAT, ChainOutput) := insert ?j (rules e (TableNAT, ChainOutput)))"
    using v6.EnsureRule_adds [OF e(2) m(4) [folded e(3)] jump_args(2), of Prepend] e(3) by auto
  show ?thesis
    using a b c d e f
    by (simp add: ipt_Prereqs_def on_iptables_def on_ip6tables_def ir_working_def)
qed

end

lemma cleanup_step_err:
  assumes "cleanup_step nf f (s, err) = Inr (s', Some e)" "err = Some e \<Longrightarrow> nf (Some e) = Inr True"
  shows "nf (Some e) = Inr True"
  using assms by (auto simp: cleanup_step_def go_bind_Inr_iff split: prod.splits if_splits)

lemma cleanup_fold_err:
  assumes "go_fold (cleanup_step nf) fs (s, err) = Inr (s', Some e)"
    and "\<And>e. err = Some e \<Longrightarrow> nf (Some e) = Inr True"
  shows "nf (Some e) = Inr True"
  using assms
proof (induction fs arbitrary: s err)
  case Nil
  then show ?case by simp
next
  case (Cons f fs)
  then obtain s1 err1 where step: "cleanup_step nf f (s, err) = Inr (s1, err1)"
    and rest: "go_fold (cleanup_step nf) fs (s1, err1) = Inr (s', Some e)"
    by (auto simp: go_bind_Inr_iff)
  have "nf (Some e') = Inr True" if "err1 = Some e'" for e'
    using cleanup_step_err [of nf f s err s1 e'] step that Cons.prems(2) by auto
  then show ?case using Cons.IH [OF rest] by blast
qed

text \<open>Both tables of a fresh host: the built-in chains without rules.\<close>

definition ex_tables :: nat_tables where
  "ex_tables = [((TableNAT, ChainPrerouting), []), ((TableNAT, ChainOutput), [])]"

definition ex_chain_tables :: nat_tables where
  "ex_chain_tables = (svc_chain, []) # ex_tables"

definition ex_ir :: "nat_tables IptablesRedirect" where
  "ex_ir = NewIptablesRedirect ex_chain_tables ex_chain_tables 1666"

lemma ex_ir_ok: "ir_working ref_chains (\<lambda>_. True) 1666 ex_ir" "installed_rules ref_rules ex_ir = {}"
  by (simp_all add: ex_ir_def NewIptablesRedirect_def ir_working_def ref_chains_def installed_rules_def
      ref_rules_def ex_chain_tables_def gomap_get_def)

text \<open>
  C7. The installed redirect rules follow the services, up to the first address that is taken away.
  The tables work, the chain is empty at first, and no update replaces a text of an address by
  another text of the same address. If the error test panics on nil and some event takes an
  address away (a deletion of a service with an address, or an update without an old one), the
  handlers panic; otherwise the rules of the chain are in the end exactly those of the addresses of
  the services that exist. Texts that are no addresses, such as the \<open>None\<close> of a headless service, have
  no rule.
\<close>

theorem redirect_tracks_services:
  assumes "iptables_pair ipt ipt6 chain_set rules works valid4 valid6 IsNotFoundError port"
    and "ir_working chain_set works port ir" "installed_rules rules ir = {}"
    and "events_ok (ip_rule port) (\<lambda>_. None) es"
  shows "case nil_panic IsNotFoundError of
      Some p \<Rightarrow> if \<exists>e \<in> set es. removes_address e
        then go_fold (handle_informer_event (IptablesRedirect_impl IsNotFoundError ipt ipt6)) es ir = Inl p
        else \<exists>ir'. go_fold (handle_informer_event (IptablesRedirect_impl IsNotFoundError ipt ipt6)) es ir = Inr ir' \<and>
          ir_working chain_set works port ir' \<and>
          installed_rules rules ir' = store_rules (ip_rule port) (fold store_event es (\<lambda>_. None))
    | None \<Rightarrow> \<exists>ir'. go_fold (handle_informer_event (IptablesRedirect_impl IsNotFoundError ipt ipt6)) es ir = Inr ir' \<and>
        ir_working chain_set works port ir' \<and>
        installed_rules rules ir' = store_rules (ip_rule port) (fold store_event es (\<lambda>_. None))"
  by (rule redirect_comments.events_track [OF iptables_pair.is_redirect [OF assms(1)] assms(2) _ assms(4)])
    (simp_all add: assms(3) store_ok_def store_rules_def ran_def)

definition ex_moved_service :: Service where
  "ex_moved_service = ex_service\<lparr>Spec := Spec ex_service\<lparr>ClusterIPs := [''10.0.0.2'']\<rparr>\<rparr>"

lemma ex_nil_panic: "nil_panic ref_IsNotFoundError = Some (PanicErr ''nil pointer dereference'')"
  by (simp add: nil_panic_def ref_IsNotFoundError_def)

lemma ex_usable: "''10.0.0.1'' \<in> usable_ips ex_service"
  by (simp add: usable_ips_def svc_ips_def ex_service_def ex_parse_v4 v4InV6Prefix_def)

theorem redirect_tracks_services_witness:
  "(\<exists>ir'. go_fold (handle_informer_event (IptablesRedirect_impl ref_IsNotFoundError ref_iptables ref_iptables))
      [EvAdd ex_service] ex_ir = Inr ir' \<and>
    ir_working ref_chains (\<lambda>_. True) 1666 ir' \<and>
    installed_rules ref_rules ir' = store_rules (ip_rule 1666) (fold store_event [EvAdd ex_service] (\<lambda>_. None))) \<and>
   go_fold (handle_informer_event (IptablesRedirect_impl ref_IsNotFoundError ref_iptables ref_iptables))
      [EvAdd ex_service, EvDelete ex_service, EvAdd ex_moved_service] ex_ir =
      Inl (PanicErr ''nil pointer dereference'')"
proof
  have "events_ok (ip_rule 1666) (\<lambda>_. None) [EvAdd ex_service]"
    by (simp add: slash_free_def ex_service_def)
  from redirect_tracks_services [OF ref.iptables_pair_axioms ex_ir_ok this]
  show "\<exists>ir'. go_fold (handle_informer_event (IptablesRedirect_impl ref_IsNotFoundError ref_iptables ref_iptables))
      [EvAdd ex_service] ex_ir = Inr ir' \<and>
    ir_working ref_chains (\<lambda>_. True) 1666 ir' \<and>
    installed_rules ref_rules ir' = store_rules (ip_rule 1666) (fold store_event [EvAdd ex_service] (\<lambda>_. None))"
    by (simp add: ex_nil_panic)
  have "events_ok (ip_rule 1666) (\<lambda>_. None) [EvAdd ex_service, EvDelete ex_service, EvAdd ex_moved_service]"
    by (simp add: slash_free_def ex_moved_service_def ex_service_def)
  from redirect_tracks_services [OF ref.iptables_pair_axioms ex_ir_ok this]
  show "go_fold (handle_informer_event (IptablesRedirect_impl ref_IsNotFoundError ref_iptables ref_iptables))
      [EvAdd ex_service, EvDelete ex_service, EvAdd ex_moved_service] ex_ir =
      Inl (PanicErr ''nil pointer dereference'')"
    using ex_usable by (auto simp: ex_nil_panic split: if_splits)
qed

text \<open>
  C31. When an update replaces a text of an address by another text of the same address, the rule
  of the address is gone afterwards: it is added, and then removed under its old text. If the error
  test panics on nil, the handler panics after that.
\<close>

theorem update_same_address_loses_rule:
  assumes "iptables_pair ipt ipt6 chain_set rules works valid4 valid6 IsNotFoundError port"
    and "ir_working chain_set works port ir" "valid_order ord"
    and "a \<in> set (svc_ips old) - set (svc_ips new)" "b \<in> set (svc_ips new)" "ParseIP a = ParseIP b"
    and "ParseIP b \<noteq> []"
  shows "case nil_panic IsNotFoundError of
      Some p \<Rightarrow> UpdateFunc ord (IptablesRedirect_impl IsNotFoundError ipt ipt6) (ServiceObject old)
        (ServiceObject new) ir = Inl p
    | None \<Rightarrow> \<exists>ir'. UpdateFunc ord (IptablesRedirect_impl IsNotFoundError ipt ipt6) (ServiceObject old)
        (ServiceObject new) ir = Inr ir' \<and>
        ip_rule port (getComment new) (ParseIP b) \<notin> installed_rules rules ir'"
proof -
  have "redirect (IptablesRedirect_impl IsNotFoundError ipt ipt6) (ip_rule port)
     (installed_rules rules) (ir_working chain_set works port) (nil_panic IsNotFoundError)"
    using iptables_pair.is_redirect [OF assms(1)] by (rule redirect_comments.axioms)
  note red = redirect.UpdateFunc_diff [OF this assms(2,3)] redirect.UpdateFunc_panics [OF this assms(2,3)]
  have a: "a \<in> usable_ips old - usable_ips new" using assms(4,6,7) by (auto simp: usable_ips_def)
  show ?thesis
  proof (cases "nil_panic IsNotFoundError")
    case None
    then show ?thesis using red(1) [of old new] a assms(6) by fastforce
  next
    case (Some p)
    then show ?thesis using red(2) [of old new] a by auto
  qed
qed

definition ex_external :: "string \<Rightarrow> Service" where
  "ex_external ip = ex_service\<lparr>Spec := Spec ex_service\<lparr>ExternalIPs := [ip]\<rparr>\<rparr>"

lemma ex_same_address: "ParseIP ''::1'' = ParseIP ''0::1''" "ParseIP ''0::1'' \<noteq> []"
  by (simp_all add: ParseIP_def parseIPv6_def parse6_loop.simps xtoi_def hex_val_def expand_ellipsis_def)
    (simp add: eval_nat_numeral)

text \<open>An error test that answers on nil.\<close>

definition ex_total_not_found :: not_found where
  "ex_total_not_found err = Inr (err = Some no_chain_error)"

interpretation total: iptables_pair ref_iptables ref_iptables ref_chains ref_rules "\<lambda>_. True"
  ref_valid_args ref_valid_args ex_total_not_found port for port
  by unfold_locales
    (simp_all add: ref_valid_redirArgs ref_valid_jump IP_String_not_nil ex_total_not_found_def IP_String_def [of "[]"])

theorem update_same_address_loses_rule_witness:
  "(\<exists>ir'. UpdateFunc rev_order (IptablesRedirect_impl ex_total_not_found ref_iptables ref_iptables)
      (ServiceObject (ex_external ''::1'')) (ServiceObject (ex_external ''0::1'')) ex_ir = Inr ir' \<and>
    ip_rule 1666 (getComment (ex_external ''0::1'')) (ParseIP ''0::1'') \<notin> installed_rules ref_rules ir') \<and>
   UpdateFunc rev_order (IptablesRedirect_impl ref_IsNotFoundError ref_iptables ref_iptables)
      (ServiceObject (ex_external ''::1'')) (ServiceObject (ex_external ''0::1'')) ex_ir =
      Inl (PanicErr ''nil pointer dereference'')"
proof -
  have ips: "''::1'' \<in> set (svc_ips (ex_external ''::1'')) - set (svc_ips (ex_external ''0::1''))"
    "''0::1'' \<in> set (svc_ips (ex_external ''0::1''))"
    by (simp_all add: svc_ips_def ex_external_def ex_service_def)
  have "nil_panic ex_total_not_found = None" by (simp add: nil_panic_def ex_total_not_found_def)
  then show ?thesis
    using update_same_address_loses_rule [OF total.iptables_pair_axioms ex_ir_ok(1) valid_rev_order ips ex_same_address]
      update_same_address_loses_rule [OF ref.iptables_pair_axioms ex_ir_ok(1) valid_rev_order ips ex_same_address]
    by (simp add: ex_nil_panic)
qed

text \<open>
  When no call fails, \<open>Prereqs\<close> creates the chain of the redirect rules in both families and
  the jumps to it from the prerouting and the output chain.
\<close>

theorem Prereqs_installs_jumps:
  assumes "iptables_pair ipt ipt6 chain_set rules works valid4 valid6 IsNotFoundError port"
    and "works (ir_iptables ir)" "works (ir_ip6tables ir)"
    and "{(TableNAT, ChainPrerouting), (TableNAT, ChainOutput)} \<subseteq> chain_set (ir_iptables ir)"
    and "{(TableNAT, ChainPrerouting), (TableNAT, ChainOutput)} \<subseteq> chain_set (ir_ip6tables ir)"
  shows "\<exists>ir'. ipt_Prereqs ipt ipt6 ir = Inr (ir', None) \<and>
    ir_working chain_set works (envoyPort ir) ir' \<and>
    lightpathIptablesJumpChainArgs \<in> rules (ir_iptables ir') (TableNAT, ChainPrerouting) \<and>
    lightpathIptablesJumpChainArgs \<in> rules (ir_iptables ir') (TableNAT, ChainOutput) \<and>
    lightpathIptablesJumpChainArgs \<in> rules (ir_ip6tables ir') (TableNAT, ChainPrerouting) \<and>
    lightpathIptablesJumpChainArgs \<in> rules (ir_ip6tables ir') (TableNAT, ChainOutput)"
  by (rule iptables_pair.Prereqs_steps [OF assms])

theorem Prereqs_installs_jumps_witness:
  "\<exists>ir'. ipt_Prereqs ref_iptables ref_iptables (NewIptablesRedirect ex_tables ex_tables 1666) = Inr (ir', None) \<and>
    ir_working ref_chains (\<lambda>_. True) (envoyPort (NewIptablesRedirect ex_tables ex_tables 1666)) ir' \<and>
    lightpathIptablesJumpChainArgs \<in> ref_rules (ir_iptables ir') (TableNAT, ChainPrerouting) \<and>
    lightpathIptablesJumpChainArgs \<in> ref_rules (ir_iptables ir') (TableNAT, ChainOutput) \<and>
    lightpathIptablesJumpChainArgs \<in> ref_rules (ir_ip6tables ir') (TableNAT, ChainPrerouting) \<and>
    lightpathIptablesJumpChainArgs \<in> ref_rules (ir_ip6tables ir') (TableNAT, ChainOutput)"
  by (rule Prereqs_installs_jumps [OF ref.iptables_pair_axioms])
    (simp_all add: NewIptablesRedirect_def ex_tables_def ref_chains_def gomap_get_def)

text \<open>
  C32. The only errors that \<open>Cleanup\<close> reports are \<^emph>\<open>not found\<close> errors; every other failure of a
  deletion is dropped.
\<close>

theorem Cleanup_reports_only_not_found:
  assumes "ipt_Cleanup IsNotFoundError ipt ipt6 ir = Inr (ir', Some e)"
  shows "IsNotFoundError (Some e) = Inr True"
  using assms unfolding ipt_Cleanup_def by (rule cleanup_fold_err) simp

theorem Cleanup_reports_only_not_found_witness:
  "ref_IsNotFoundError (Some no_chain_error) = Inr True"
  by (rule Cleanup_reports_only_not_found [of _ ref_iptables ref_iptables
        "NewIptablesRedirect ex_tables ex_tables 1666" "NewIptablesRedirect ex_tables ex_tables 1666"])
    (simp add: ipt_Cleanup_def cleanup_step_def ref_iptables_def ref_DeleteRule_def ref_DeleteChain_def
      ref_IsNotFoundError_def NewIptablesRedirect_def on_iptables_def on_ip6tables_def ex_tables_def
      gomap_get_def gomap_put_def iptablesLightpathChainName_def)

lemma DeleteFunc_other_object: "DeleteFunc impl OtherObject st = Inl TypeAssertion"
  by (simp add: DeleteFunc_def)

text \<open>
  Two services whose addresses have no colon never have two texts of one address: the parser
  accepts one text for every IPv4 address, so different texts give different rules.
\<close>

theorem ipv4_addresses_have_no_alias:
  assumes "\<forall>ip \<in> set (svc_ips old) \<union> set (svc_ips new).
    \<not> strings_Contains_char ip CHR '':''"
  shows "no_alias (ip_rule port) old new"
  unfolding no_alias_def
proof (intro ballI impI)
  fix a b
  assume ab: "a \<in> usable_ips old" "b \<in> usable_ips new"
    and eq: "ip_rule port (getComment new) (ParseIP a) = ip_rule port (getComment new) (ParseIP b)"
  then have "IP_String (ParseIP a) = IP_String (ParseIP b)"
    by (simp add: ip_rule_def redirArgs_def)
  moreover have "\<not> strings_Contains_char a CHR '':''" "ParseIP a \<noteq> []"
    "\<not> strings_Contains_char b CHR '':''" "ParseIP b \<noteq> []"
    using bspec [OF assms, of a] bspec [OF assms, of b] ab by (simp_all add: usable_ips_def)
  ultimately show "a = b" by (metis ParseIP_v4_inject)
qed

theorem ipv4_addresses_have_no_alias_witness: "no_alias (ip_rule 1666) ex_service ex_moved_service"
  by (rule ipv4_addresses_have_no_alias)
    (simp add: svc_ips_def ex_moved_service_def ex_service_def strings_Contains_char_def)

text \<open>
  C21. The arguments of a rule say what the rule is for: read back, the destination is the address,
  of either family, the port is that of the proxy and the comment is the comment of the service.
  So the rules of different addresses, ports or comments differ.
\<close>

theorem redirArgs_roundtrip:
  assumes "length ip = 16" "- (2 ^ 63) \<le> port" "port < 2 ^ 63"
  shows "map_option ParseIP (option_value ''-d'' (redirArgs port comment ip)) = Some ip \<and>
    map_option ParseInt (option_value ''--to-port'' (redirArgs port comment ip)) = Some (Inr port) \<and>
    option_value ''--comment'' (redirArgs port comment ip) = Some comment"
  using ParseIP_String [OF assms(1)] ParseInt_fmt_int [OF assms(2,3)] by (simp add: redirArgs_def)

theorem redirArgs_roundtrip_witness:
  "map_option ParseIP (option_value ''-d'' (redirArgs 1666 ''lightpath:default/whoami'' (ParseIP ''0::1''))) =
     Some (ParseIP ''0::1'') \<and>
   map_option ParseInt (option_value ''--to-port'' (redirArgs 1666 ''lightpath:default/whoami'' (ParseIP ''0::1''))) =
     Some (Inr 1666) \<and>
   option_value ''--comment'' (redirArgs 1666 ''lightpath:default/whoami'' (ParseIP ''0::1'')) =
     Some ''lightpath:default/whoami''"
  by (rule redirArgs_roundtrip) (use ParseIP_length ex_same_address(2) in auto)

text \<open>
  So two texts have one rule exactly if they are texts of one address: the condition of the handlers
  on updates is about addresses, not about rules.
\<close>

lemma ip_rule_inject:
  assumes "length ip = 16" "length ip' = 16"
  shows "ip_rule port c ip = ip_rule port c' ip' \<longleftrightarrow> c = c' \<and> ip = ip'"
  using assms by (auto simp: ip_rule_def redirArgs_def IP_String_inject)

lemma no_alias_iff:
  "no_alias (ip_rule port) old new \<longleftrightarrow>
    (\<forall>a \<in> usable_ips old. \<forall>b \<in> usable_ips new. ParseIP a = ParseIP b \<longrightarrow> a = b)"
proof -
  have "length (ParseIP a) = 16" if "a \<in> usable_ips svc" for a svc
    using that ParseIP_length [of a] by (auto simp: usable_ips_def)
  then show ?thesis by (auto simp: no_alias_def ip_rule_inject)
qed

text \<open>
  \<open>RemoveIP\<close> asks whether the error of the deletion is a \<^emph>\<open>not found\<close> error also when there is
  none: if that question panics on nil, every removal that succeeds panics.
\<close>

theorem RemoveIP_panics_on_success:
  assumes "snd (DeleteRule (if To4 ip \<noteq> [] then ipt else ipt6) TableNAT iptablesLightpathChainName
      (redirArgs (envoyPort ir) comment ip)
      (if To4 ip \<noteq> [] then ir_iptables ir else ir_ip6tables ir)) = None"
    and "IsNotFoundError None = Inl p"
  shows "ipt_RemoveIP IsNotFoundError ipt ipt6 comment ip ir = Inl p"
  using assms
  by (auto simp: ipt_RemoveIP_def on_iptables_def on_ip6tables_def Let_def split: prod.splits if_splits)

theorem RemoveIP_panics_on_success_witness:
  "ipt_RemoveIP ref_IsNotFoundError ref_iptables ref_iptables ''lightpath:default/whoami''
     (v4InV6Prefix @ [10, 0, 0, 1]) ex_ir =
     Inl (PanicErr ''nil pointer dereference'')"
  by (rule RemoveIP_panics_on_success)
    (simp_all add: ref_IsNotFoundError_def To4_def v4InV6Prefix_def ref_iptables_def ref_DeleteRule_def ex_ir_def
      NewIptablesRedirect_def ex_chain_tables_def gomap_get_def ref_valid_redirArgs IP_String_not_nil)

end
