(* ===== verification/Redirect_Cmd.thy ===== *)
theory Redirect_Cmd
  imports Redirect_Iptables Startup
begin

text \<open>
  \<open>cmd/redirect/redirect.go\<close>: the life of the redirect daemon. The Kubernetes client libraries
  are parameters, and so is what the informer of services does: it calls the handlers with the
  events \<open>env_before\<close> while \<open>run\<close> waits for the synchronisation, reports which informers
  synchronised, and calls the handlers with \<open>env_after\<close> until the context is done.
\<close>

definition redirect_RESYNC_INTERVAL :: int64 where
  "redirect_RESYNC_INTERVAL = 4 * time_Second"

record informer_run =
  env_synced :: "(string \<times> bool) list"
  env_before :: "informer_event list"
  env_after :: "informer_event list"

fun first_unsynced :: "(string \<times> bool) list \<Rightarrow> string option" where
  "first_unsynced [] = None"
| "first_unsynced ((informerType, ok) # rest) =
     (if \<not> ok then Some informerType else first_unsynced rest)"

text \<open>The informers run on the factory that was built, so their behaviour depends on it.\<close>

definition redirect_run ::
    "('config, 'client, 'events) client_libraries \<Rightarrow> ('req, 'sel, 'text) labels_package \<Rightarrow>
     (('client, 'text) informer_factory \<Rightarrow> informer_run) \<Rightarrow> 'st Redirect \<Rightarrow> 'k redirect_vars \<Rightarrow>
     'st redirect_op" where
  "redirect_run clients lp informers iptablesRedirect vars st =
     (case CreateClients clients (rvar_kubeconfig vars) of
        Inl err \<Rightarrow> Inr (st, Some err)
      | Inr (client, _) \<Rightarrow>
          (case redirect_selector lp of
             Inl err \<Rightarrow> Inr (st, Some err)
           | Inr labelSelector \<Rightarrow>
               let env = informers
                     \<lparr>factory_client = client, factory_resync = redirect_RESYNC_INTERVAL,
                      factory_tweak = tweakListOptions lp labelSelector\<rparr>
               in if redirectMode vars \<noteq> LightpathRedirectIptables
                  then Inr (st, Some (''invalid redirect mode: '' @ redirectMode vars))
                  else go_bind (Prereqs iptablesRedirect st) (\<lambda>(st, _).
                       go_bind (go_fold (handle_informer_event iptablesRedirect) (env_before env) st) (\<lambda>st.
                       case first_unsynced (env_synced env) of
                         Some informerType \<Rightarrow> Inr (st, Some (''failed to sync cache for '' @ informerType))
                       | None \<Rightarrow>
                           go_bind (go_fold (handle_informer_event iptablesRedirect) (env_after env) st)
                             (Cleanup iptablesRedirect)))))"

lemma handlers_ignore_Prereqs:
  "handle_informer_event (impl\<lparr>Prereqs := p\<rparr>) = handle_informer_event impl"
proof
  fix e
  show "handle_informer_event (impl\<lparr>Prereqs := p\<rparr>) e = handle_informer_event impl e"
    by (cases e; intro ext) (simp_all add: AddFunc_def UpdateFunc_def DeleteFunc_def)
qed

section \<open>Properties\<close>

text \<open>
  The daemon ignores the error of \<open>Prereqs\<close>: its run is the same as if the error had been
  nil. In particular it installs rules in a chain that nothing jumps to.
\<close>

theorem redirect_run_ignores_Prereqs_error:
  "redirect_run clients lp informers impl vars st =
   redirect_run clients lp informers
     (impl\<lparr>Prereqs := (\<lambda>st. go_bind (Prereqs impl st) (\<lambda>(st, err). Inr (st, None)))\<rparr>) vars st"
proof (cases "Prereqs impl st")
  case (Inl p)
  then show ?thesis by (auto simp: redirect_run_def Let_def split: sum.split)
next
  case (Inr r)
  then show ?thesis
    by (cases r) (auto simp: redirect_run_def Let_def handlers_ignore_Prereqs split: sum.split cong: option.case_cong)
qed

text \<open>
  A run that is not configured for iptables, or whose set-up fails, returns an error and
  leaves the tables as they were.
\<close>

lemma redirect_run_fails:
  "redirectMode vars \<noteq> LightpathRedirectIptables \<Longrightarrow>
    \<exists>err. redirect_run clients lp informers impl vars st = Inr (st, Some err)"
  by (auto simp: redirect_run_def Let_def split: sum.split)

theorem redirect_run_rejects:
  assumes "redirectMode vars \<noteq> LightpathRedirectIptables \<or>
    (\<exists>err. CreateClients clients (rvar_kubeconfig vars) = Inl err) \<or> (\<exists>err. redirect_selector lp = Inl err)"
  shows "\<exists>err. redirect_run clients lp informers impl vars st = Inr (st, Some err)"
  using assms by (auto simp: redirect_run_def Let_def split: sum.split)

definition ex_informers :: "(unit, ref_requirement list) informer_factory \<Rightarrow> informer_run" where
  "ex_informers f = \<lparr>env_synced = [(''*v1.Service'', True)], env_before = [], env_after = []\<rparr>"

definition ex_redirect_clients :: "(unit, unit, unit) client_libraries" where
  "ex_redirect_clients =
     \<lparr>InClusterConfig = Inr (), ClientConfig = (\<lambda>_. Inr ()), NewForConfig = (\<lambda>_. Inr ()), CoreV1 = (\<lambda>_. ())\<rparr>"

theorem redirect_run_rejects_witness:
  "\<exists>err. redirect_run ex_redirect_clients ref_labels ex_informers
     (IptablesRedirect_impl ref_IsNotFoundError ref_iptables ref_iptables)
     ((redirect_defaults ())\<lparr>redirectMode := ''ebpf''\<rparr>) ex_ir = Inr (ex_ir, Some err)"
  by (rule redirect_run_rejects) (simp add: LightpathRedirectIptables_def)

text \<open>
  C33. A redirect daemon that cannot start reports success: for a mode other than \<open>iptables\<close> the command
  line is accepted, \<open>run\<close> fails without touching the tables, and the process exits with
  status 0 after logging the error.
\<close>

theorem invalid_mode_exits_with_success:
  assumes "redirect_init klogFlags = Inr formal" "mode \<noteq> LightpathRedirectIptables"
  shows "\<exists>err. redirect_run clients lp informers impl ((redirect_defaults k)\<lparr>redirectMode := mode\<rparr>) st = Inr (st, Some err) \<and>
    exit_status (redirect_main klogFlags k info [''-mode='' @ mode] sigs
      (\<lambda>vars _. map_sum id snd (redirect_run clients lp informers impl vars st))) = 0 \<and>
    ErrorEntry err ''exited with error'' \<in> set (main_log (redirect_main klogFlags k info [''-mode='' @ mode] sigs
      (\<lambda>vars _. map_sum id snd (redirect_run clients lp informers impl vars st))))"
proof -
  let ?vars = "(redirect_defaults k)\<lparr>redirectMode := mode\<rparr>"
  obtain err where err: "redirect_run clients lp informers impl ?vars st = Inr (st, Some err)"
    using redirect_run_fails [of ?vars clients lp informers impl st] assms(2) by auto
  have "gomap_get formal ''mode'' = Some (StringVar ''mode'' (\<lambda>s v. v\<lparr>redirectMode := s\<rparr>))"
    using defined_flags [OF assms(1) [unfolded redirect_init_def]]
    by (simp add: redirect_flag_list_def StringVar_def)
  then have "flag_parse formal [''-mode='' @ mode] (redirect_defaults k) = Parsed ?vars []"
    using flag_parse_value [of "''mode''" formal _ mode "redirect_defaults k" _ "''-''" "[]"]
    by (simp add: flag_name_ok_def StringVar_def)
  from redirect_main_runs [OF assms(1) this] err show ?thesis
    by (simp add: main_after_error)
qed

lemma ex_redirect_init: "\<exists>formal. redirect_init ex_klog = Inr formal"
  by (simp add: redirect_init_def redirect_flag_list_def ex_klog_def lift_flag_def flag_Var_def StringVar_def)

theorem invalid_mode_exits_with_success_witness:
  "exit_status (redirect_main ex_klog 0 \<lparr>commit = ''c'', date = ''d'', tag = ''t''\<rparr> [''-mode=ebpf''] []
      (\<lambda>vars _. map_sum id snd (redirect_run ex_redirect_clients ref_labels ex_informers
        (IptablesRedirect_impl ref_IsNotFoundError ref_iptables ref_iptables) vars ex_ir))) = 0"
proof -
  obtain formal where f: "redirect_init ex_klog = Inr formal" using ex_redirect_init by blast
  have m: "''ebpf'' \<noteq> LightpathRedirectIptables" by (simp add: LightpathRedirectIptables_def)
  from invalid_mode_exits_with_success [OF f m, of ex_redirect_clients ref_labels ex_informers
      "IptablesRedirect_impl ref_IsNotFoundError ref_iptables ref_iptables" 0 ex_ir
      "\<lparr>commit = ''c'', date = ''d'', tag = ''t''\<rparr>" "[]"]
  show ?thesis by auto
qed

end
