(* ===== verification/Webhook.thy ===== *)
theory Webhook
  imports Label_Selection "HOL-Library.AList"
begin

text \<open>
  \<open>deploy/webhook/rego/labelinject.rego\<close>: the admission policy that labels new services, so that
  they are selected by the daemons. The input document is a JSON value. A reference of Rego
  that does not exist is undefined (\<^term>\<open>None\<close>), an expression holds when it is defined and not
  false, and \<open>not\<close> holds otherwise. The built-ins for the encoding of the answer are parameters.
\<close>

datatype json =
    JNull
  | JBool bool
  | JNum int
  | JStr string
  | JArr "json list"
  | JObj "(string \<times> json) list"

fun rego_ref :: "json \<Rightarrow> json \<Rightarrow> json option" where
  "rego_ref (JObj fs) (JStr k) = map_of fs k"
| "rego_ref (JArr xs) (JNum i) = (if 0 \<le> i \<and> nat i < length xs then Some (xs ! nat i) else None)"
| "rego_ref _ _ = None"

fun rego_path :: "json \<Rightarrow> string list \<Rightarrow> json option" where
  "rego_path x [] = Some x"
| "rego_path x (k # ks) = (case rego_ref x (JStr k) of None \<Rightarrow> None | Some y \<Rightarrow> rego_path y ks)"

definition rego_holds :: "json option \<Rightarrow> bool" where
  "rego_holds x \<longleftrightarrow> x \<noteq> None \<and> x \<noteq> Some (JBool False)"

fun rego_elements :: "json option \<Rightarrow> json list" where
  "rego_elements (Some (JArr xs)) = xs"
| "rego_elements (Some (JObj fs)) = map snd fs"
| "rego_elements _ = []"

section \<open>The policy\<close>

definition req_uid :: "json \<Rightarrow> json option" where
  "req_uid input = rego_path input [''request'', ''uid'']"

definition request_labels :: "json \<Rightarrow> json option" where
  "request_labels input = rego_path input [''request'', ''object'', ''metadata'', ''labels'']"

definition well_known_exclusions :: json where
  "well_known_exclusions = JArr [JStr ''lightpath-system'', JStr ''kube-system'', JStr ''cert-manager'']"

definition patch_conditions :: "json \<Rightarrow> bool" where
  "patch_conditions input \<longleftrightarrow>
     rego_path input [''request'', ''operation''] = Some (JStr ''CREATE'') \<and>
     (\<exists>port \<in> set (rego_elements (rego_path input [''request'', ''object'', ''spec'', ''ports''])).
        \<not> (\<exists>p. rego_ref port (JStr ''protocol'') = Some p \<and> p \<noteq> JStr ''TCP'')) \<and>
     \<not> rego_holds (Option.bind (request_labels input)
         (\<lambda>l. rego_ref l (JStr ''service.kubernetes.io/service-proxy-name''))) \<and>
     Option.bind (request_labels input) (\<lambda>l. rego_ref l (JStr ''lightpath.cloud/proxy'')) \<noteq>
       Some (JStr ''disabled'') \<and>
     \<not> rego_holds (Option.bind (rego_path input [''object'', ''metadata'', ''namespace''])
         (\<lambda>n. rego_ref n well_known_exclusions))"

definition patch_op :: "string \<Rightarrow> json \<Rightarrow> json" where
  "patch_op path v = JObj [(''op'', JStr ''add''), (''path'', JStr path), (''value'', v)]"

definition add_label :: json where
  "add_label = patch_op ''/metadata/labels/service.kubernetes.io~1service-proxy-name''
     (JStr ''lightpath.cloud'')"

definition add_labels :: json where
  "add_labels = patch_op ''/metadata/labels''
     (JObj [(''service.kubernetes.io/service-proxy-name'', JStr ''lightpath.cloud'')])"

definition patch :: "json \<Rightarrow> json list" where
  "patch input =
     (if rego_holds (request_labels input) \<and> patch_conditions input then [add_label] else []) @
     (if \<not> rego_holds (request_labels input) \<and> patch_conditions input then [add_labels] else [])"

definition deny :: "json \<Rightarrow> string list" where
  "deny input =
     (if rego_path input [''request'', ''kind'', ''kind''] \<noteq> Some (JStr ''Service'')
      then [''kind is not supported (requiring Service)''] else []) @
     (if rego_path input [''request'', ''kind'', ''version''] \<noteq> Some (JStr ''v1'')
      then [''version is not supported (requiring v1)''] else [])"

fun concat_sep :: "string \<Rightarrow> string list \<Rightarrow> string" where
  "concat_sep sep [] = []"
| "concat_sep sep [x] = x"
| "concat_sep sep (x # xs) = x @ sep @ concat_sep sep xs"

text \<open>The answer; it is undefined when the request has no identifier.\<close>

definition mutate :: "(string \<Rightarrow> string) \<Rightarrow> (json \<Rightarrow> string) \<Rightarrow> json \<Rightarrow> json option" where
  "mutate base64_encode json_marshal input =
     (case req_uid input of
        None \<Rightarrow> None
      | Some uid \<Rightarrow> Some (JObj
          [(''apiVersion'', JStr ''admission.k8s.io/v1''),
           (''kind'', JStr ''AdmissionReview''),
           (''response'', JObj
             [(''allowed'', JBool (deny input = [])),
              (''uid'', uid),
              (''patchType'', JStr ''JSONPatch''),
              (''status'', JObj [(''message'', JStr (concat_sep '', '' (deny input)))]),
              (''patch'', JStr (base64_encode (json_marshal (JArr (patch input)))))])]))"

section \<open>The API server\<close>

text \<open>
  The API server applies the patch to the object (JSON Patch, RFC 6902, with the pointers of
  RFC 6901, where \<open>~1\<close> stands for a slash and \<open>~0\<close> for a tilde).
\<close>

fun escape :: "string \<Rightarrow> string" where
  "escape [] = []"
| "escape (c # s) = (if c = CHR ''~'' then ''~0'' else if c = CHR ''/'' then ''~1'' else [c]) @ escape s"

abbreviation labels_of :: "json \<Rightarrow> json option" where
  "labels_of doc \<equiv> rego_path doc [''metadata'', ''labels'']"

locale json_patch =
  fixes apply_patch :: "json list \<Rightarrow> json \<Rightarrow> json option"
  assumes apply_nothing: "apply_patch [] doc = Some doc"
    and add_label_member: "labels_of doc = Some (JObj ls) \<Longrightarrow>
      \<exists>doc'. apply_patch [patch_op (''/metadata/labels/'' @ escape k) v] doc = Some doc' \<and>
        labels_of doc' = Some (JObj (AList.update k v ls))"
    and add_labels_member: "rego_path doc [''metadata''] = Some (JObj m) \<Longrightarrow>
      \<exists>doc'. apply_patch [patch_op ''/metadata/labels'' v] doc = Some doc' \<and> labels_of doc' = Some v"

text \<open>The labels of an object as the daemons read them.\<close>

fun string_fields :: "(string \<times> json) list \<Rightarrow> label_set" where
  "string_fields [] = []"
| "string_fields ((k, JStr v) # fs) = (k, v) # string_fields fs"
| "string_fields (_ # fs) = string_fields fs"

definition label_set_of :: "json \<Rightarrow> label_set" where
  "label_set_of doc = (case labels_of doc of Some (JObj fs) \<Rightarrow> string_fields fs | _ \<Rightarrow> [])"

lemma string_fields_update:
  "gomap_get (string_fields (AList.update k (JStr v) fs)) j =
     (if j = k then Some v else gomap_get (string_fields fs) j)"
proof (induction fs)
  case Nil
  then show ?case by (simp add: gomap_get_def)
next
  case (Cons f fs)
  obtain i x where "f = (i, x)" by (cases f)
  with Cons show ?case by (cases x) (auto simp: gomap_get_def)
qed

lemma add_label_escaped: "add_label =
    patch_op (''/metadata/labels/'' @ escape LabelServiceProxyName) (JStr ''lightpath.cloud'')"
  by (simp add: add_label_def)

context json_patch
begin

lemma patched_labels:
  assumes "rego_path input [''request'', ''object''] = Some doc" "patch_conditions input"
    and "rego_path doc [''metadata''] = Some (JObj m)"
    and "labels_of doc = None \<or> (\<exists>ls. labels_of doc = Some (JObj ls))"
  shows "\<exists>doc'. apply_patch (patch input) doc = Some doc' \<and>
    (\<forall>j. gomap_get (label_set_of doc') j =
      (if j = LabelServiceProxyName then Some ''lightpath.cloud'' else gomap_get (label_set_of doc) j))"
proof -
  have lab: "request_labels input = labels_of doc"
    using assms(1) by (auto simp: request_labels_def split: option.splits)
  show ?thesis
  proof (cases "labels_of doc")
    case None
    then have "patch input = [add_labels]" using assms(2) lab by (simp add: patch_def rego_holds_def)
    then show ?thesis
      using add_labels_member [OF assms(3), of "JObj [(LabelServiceProxyName, JStr ''lightpath.cloud'')]"] None
      by (auto simp: add_labels_def label_set_of_def gomap_get_def)
  next
    case (Some l)
    then obtain ls where ls: "labels_of doc = Some (JObj ls)" using assms(4) by auto
    then have "patch input = [add_label]" using assms(2) lab by (simp add: patch_def rego_holds_def)
    then show ?thesis
      using add_label_member [OF ls, of LabelServiceProxyName "JStr ''lightpath.cloud''"] ls
      by (auto simp: add_label_escaped label_set_of_def string_fields_update simp del: escape.simps)
  qed
qed

end

section \<open>A reference patch\<close>

fun unescape :: "string \<Rightarrow> string" where
  "unescape (c # d # s) =
     (if c = CHR ''~'' \<and> d = CHR ''0'' then CHR ''~'' # unescape s
      else if c = CHR ''~'' \<and> d = CHR ''1'' then CHR ''/'' # unescape s
      else c # unescape (d # s))"
| "unescape s = s"

fun split_slash :: "string \<Rightarrow> string list" where
  "split_slash [] = [[]]"
| "split_slash (c # s) =
     (if c = CHR ''/'' then [] # split_slash s
      else case split_slash s of [] \<Rightarrow> [[c]] | t # ts \<Rightarrow> (c # t) # ts)"

fun json_add :: "string list \<Rightarrow> json \<Rightarrow> json \<Rightarrow> json option" where
  "json_add [k] v (JObj fs) = Some (JObj (AList.update k v fs))"
| "json_add (k # ks) v (JObj fs) =
     (case map_of fs k of
        None \<Rightarrow> None
      | Some x \<Rightarrow> map_option (\<lambda>y. JObj (AList.update k y fs)) (json_add ks v x))"
| "json_add _ _ _ = None"

fun ref_apply :: "json list \<Rightarrow> json \<Rightarrow> json option" where
  "ref_apply [] doc = Some doc"
| "ref_apply (op # ops) doc =
     (case (rego_ref op (JStr ''path''), rego_ref op (JStr ''value'')) of
        (Some (JStr path), Some v) \<Rightarrow>
          Option.bind (json_add (map unescape (tl (split_slash path))) v doc) (ref_apply ops)
      | _ \<Rightarrow> None)"

lemma split_slash_free: "CHR ''/'' \<notin> set s \<Longrightarrow> split_slash s = [s]"
  by (induction s) auto

lemma escape_no_slash: "CHR ''/'' \<notin> set (escape s)"
  by (induction s) auto

lemma unescape_escape: "unescape (escape s) = s"
proof (induction s)
  case Nil
  then show ?case by simp
next
  case (Cons c s)
  then show ?case by (cases "escape s") auto
qed

lemma labels_pointer: "map unescape (tl (split_slash (''/metadata/labels/'' @ escape k))) =
    [''metadata'', ''labels'', k]"
  by (simp add: split_slash_free escape_no_slash unescape_escape)

interpretation ref_patch: json_patch ref_apply
proof (unfold_locales, goal_cases)
  case (1 doc)
  then show ?case by simp
next
  case (2 doc ls k v)
  then obtain fs m where "doc = JObj fs" "map_of fs ''metadata'' = Some (JObj m)" "map_of m ''labels'' = Some (JObj ls)"
    by (cases doc) (auto split: option.splits elim: rego_ref.elims)
  then show ?case using labels_pointer [of k] by (simp add: patch_op_def update_conv)
next
  case (3 doc m v)
  then obtain fs where "doc = JObj fs" "map_of fs ''metadata'' = Some (JObj m)"
    by (cases doc) (auto split: option.splits)
  then show ?case by (simp add: patch_op_def update_conv)
qed

section \<open>Properties\<close>

text \<open>
  C10. From the webhook to the daemons: when the conditions of the policy hold for a new service, then
  the object that the API server stores after applying the patch is selected by both daemons,
  unless it carries the label of headless services.
\<close>

theorem webhook_selects_service:
  assumes "json_patch apply_patch"
    and "rego_path input [''request'', ''object''] = Some doc" "patch_conditions input"
    and "rego_path doc [''metadata''] = Some (JObj m)"
    and "labels_of doc = None \<or> (\<exists>ls. labels_of doc = Some (JObj ls))"
  shows "\<exists>doc'. apply_patch (patch input) doc = Some doc' \<and>
    (selected (label_set_of doc') \<longleftrightarrow> gomap_get (label_set_of doc) IsHeadlessService = None)"
  using json_patch.patched_labels [OF assms]
  by (auto simp: selected_def LightpathProxyName_def)

text \<open>The review of a service in a namespace; an \<open>AdmissionReview\<close> has no field \<open>object\<close> of its own.\<close>

definition service_review :: "string \<Rightarrow> string \<Rightarrow> json option \<Rightarrow> json list \<Rightarrow> json" where
  "service_review operation ns labels ports =
     JObj [(''kind'', JStr ''AdmissionReview''),
       (''request'', JObj
         [(''uid'', JStr ''705ab4f5''),
          (''kind'', JObj [(''kind'', JStr ''Service''), (''version'', JStr ''v1'')]),
          (''namespace'', JStr ns),
          (''operation'', JStr operation),
          (''object'', JObj
            [(''metadata'', JObj ((''namespace'', JStr ns) # map (Pair ''labels'') (as_list labels))),
             (''spec'', JObj [(''ports'', JArr ports)])])])]"

definition tcp_port :: json where
  "tcp_port = JObj [(''port'', JNum 80), (''protocol'', JStr ''TCP'')]"

lemma ex_review_conditions: "patch_conditions (service_review ''CREATE'' ''default'' None [tcp_port])"
  by (simp add: patch_conditions_def service_review_def request_labels_def rego_holds_def as_list_def tcp_port_def)

definition ex_doc :: json where
  "ex_doc = JObj [(''metadata'', JObj [(''namespace'', JStr ''default'')]),
     (''spec'', JObj [(''ports'', JArr [tcp_port])])]"

theorem webhook_selects_service_witness:
  "\<exists>doc'. ref_apply (patch (service_review ''CREATE'' ''default'' None [tcp_port])) ex_doc = Some doc' \<and>
    selected (label_set_of doc')"
proof -
  have "label_set_of ex_doc = []" by (simp add: label_set_of_def ex_doc_def)
  moreover have "\<exists>doc'. ref_apply (patch (service_review ''CREATE'' ''default'' None [tcp_port])) ex_doc = Some doc' \<and>
    (selected (label_set_of doc') \<longleftrightarrow> gomap_get (label_set_of ex_doc) IsHeadlessService = None)"
    by (rule webhook_selects_service [OF ref_patch.json_patch_axioms _ ex_review_conditions])
      (simp_all add: service_review_def as_list_def ex_doc_def)
  ultimately show ?thesis by (simp add: gomap_get_def)
qed

text \<open>
  C30. The exclusion of the system namespaces has no effect: the policy patches a service of
  \<open>kube-system\<close> exactly as one of any other namespace.
\<close>

theorem webhook_ignores_exclusions:
  "patch (service_review operation ''kube-system'' labels ports) = patch (service_review operation ns labels ports)"
  by (cases labels)
    (simp_all add: patch_def patch_conditions_def request_labels_def service_review_def as_list_def cong: conj_cong)

text \<open>A service with a TCP port is patched whatever its other ports are.\<close>

lemma webhook_takes_mixed_services:
  assumes "tcp_port \<in> set ports"
  shows "patch (service_review ''CREATE'' ns None ports) = [add_labels]"
proof -
  have "\<exists>port \<in> set ports. \<not> (\<exists>p. rego_ref port (JStr ''protocol'') = Some p \<and> p \<noteq> JStr ''TCP'')"
    by (rule bexI [OF _ assms]) (simp add: tcp_port_def)
  then show ?thesis
    by (simp add: patch_def patch_conditions_def request_labels_def service_review_def as_list_def rego_holds_def)
qed

text \<open>The webhook is only asked about new services, and never about updates.\<close>

lemma webhook_ignores_updates: "patch (service_review ''UPDATE'' ns labels ports) = []"
  by (simp add: patch_def patch_conditions_def service_review_def)

end
