(* ===== verification/Spec2Isabelle.thy ===== *)
theory Spec2Isabelle
  imports Controlplane_Run Redirect_Cmd Webhook
begin

text \<open>
  \<^bold>\<open>lightpath\<close> is a service proxy for Kubernetes that consists of two daemons. The control plane
  (\<open>src/cmd/controlplane\<close>) watches services and endpoint slices, keeps them in a cache, and
  turns every snapshot of the cache into Envoy configuration that it serves over xDS. The
  redirect (\<open>src/cmd/redirect\<close>) watches services and installs NAT rules that send the traffic of
  their addresses to the proxy on the node. This library models both, file by file, and proves
  what makes them correct; where the code does not do what it means to, it proves that, too.
  Which services both daemons see is decided by a label, and a webhook
  (\<open>src/deploy/webhook\<close>) sets that label on new services.

  \<^bold>\<open>Conventions.\<close> Go structs are records and enumerations datatypes. Machine integers are words
  (\<^typ>\<open>int32\<close>, \<^typ>\<open>uint32\<close>, \<^typ>\<open>int64\<close>). A Go map is an association list with distinct
  keys, and each loop over a map takes its visiting order as an argument of type
  \<^typ>\<open>range_order\<close>; theorems hold for every valid order. A method is a function on the state of
  its receiver; a mutex that covers the whole method makes it one step. Errors are values of
  type \<^typ>\<open>go_error option\<close> or sums, panics are the left summand of \<^typ>\<open>'a go\<close>. Log lines
  have no counterpart, except in the logger itself. Third-party code is a parameter: the
  protobuf marshaller, \<open>cache.NewSnapshot\<close>, the snapshot cache, gRPC, the iptables interface, the
  Kubernetes client libraries, the label package, the logging sink and the flags of klog. What
  the code relies on is a named hypothesis (\<open>marshals\<close>, \<open>stores_send\<close>: the events that client-go
  documents for stores keyed by namespace and name) or a locale
  (\<open>iptables\<close>, \<open>snapshot_cache\<close>, \<open>label_server\<close>, \<open>json_patch\<close>), and each is shown to be
  satisfiable by a reference implementation.

  \<^bold>\<open>Foundations.\<close>
  \<^item> \<open>Prelude\<close>: panics, loops, Go maps (locale \<open>go_map\<close>), iteration orders.
  \<^item> \<open>Go_Strconv\<close>, \<open>Go_Net\<close>: the parts of the standard library that the sources use (decimal
    printing and parsing; \<open>net.ParseIP\<close>, \<open>IP.To4\<close>, \<open>IP.String\<close>). The parser of IPv6
    addresses is total by the number of bytes read; \<open>longest_run\<close> has as fuel the number of
    groups, and every iteration passes at least one group. \<open>Go_Net_Roundtrip\<close> shows that every
    address of sixteen bytes is the address its text parses to. \<open>Go_Flag\<close> is the package
    \<open>flag\<close>: the definition of flags, the parser of the command line, unsigned numbers of all
    bases.
  \<^item> \<open>Kube_Types\<close>, \<open>Envoy_Types\<close>: the API objects, with the fields the sources use.
  \<^item> \<open>Versioned_Store\<close>, \<open>Transition_System\<close>: locales for stores that keep the newest version of
    an object, invariants of step relations, refinement, and phases in which all runs end.

  \<^bold>\<open>\<open>src/pkg/state\<close>.\<close> \<open>State_Service\<close> (\<open>service.go\<close>, \<open>snapshot.go\<close>) and \<open>State_Cache\<close> (\<open>cache.go\<close>)
  model the container of one service and the cache of all. They show an invariant of the cache,
  that every operation implements the obvious operation on an abstract map, that the change
  flag is exact, that snapshots are complete, and that versions never decrease.
  \<open>State_Subscriber\<close> (\<open>subscriber.go\<close>) models the informer handlers, \<open>dispatchEvent\<close> and
  \<open>ReceiveEvent\<close> as steps of interleaved goroutines with the mutex and the unbuffered channel:
  no update is lost, a recorded event is delivered, no handler waits for ever.
  \<open>State_Mailbox\<close> states the contract of the package as a mailbox: a change is posted, then a
  take is due, and a take empties the mailbox atomically. A changed mailbox is announced until it is
  taken. The subscriber refines it: \<open>ReceiveEvent\<close> returns a snapshot when a take is due and nil when
  none is. \<open>State_Informers\<close> puts the informers with their stores in front: a slice
  that comes before its service is lost, and a resync repairs the cache, in whatever order the
  two informers and the objects come. This needs two conditions on the history, which are
  explicit: \<open>names_identify\<close> (a service name occurs in one namespace, a slice keeps its service),
  because the cache is keyed by names, and \<open>versions_ascend\<close> (an update has a version that is greater
  as a string), because the cache compares versions as strings, although they are opaque for
  Kubernetes. Where they do not hold, services evict each other, and an update that is dropped is
  not repaired by any resync; these are theorems, too.

  \<^bold>\<open>\<open>src/pkg/wellknown\<close> and \<open>src/pkg/translations\<close>.\<close> \<open>Wellknown\<close> has all constants, \<open>Helper\<close>
  (\<open>helper.go\<close>) and \<open>Port_Settings\<close> (\<open>portsettings.go\<close>, \<open>types.go\<close>) the settings of a port,
  \<open>Filters\<close> (\<open>filter_tcp.go\<close>, \<open>filter_http.go\<close>) the filter chains, whose contract is the locale
  \<open>filter_chain_generator\<close>, \<open>Mapper_Listener\<close>, \<open>Mapper_Cluster\<close> and \<open>Mapper_Endpoints\<close> the
  three kinds of resources, and \<open>Mapper\<close> (\<open>mapper.go\<close>) the snapshot. They show that names are
  injective, that annotations reach the resources and defaults are as documented, that
  listeners meet their specification, that load assignments partition the endpoints by cluster
  and locality, and that the resources of a snapshot refer to each other (the listeners of a
  Redis port excepted, which have no filter chain).

  \<^bold>\<open>Starting the daemons.\<close> \<open>Cmd_Flags\<close> has the variables and flags of both commands
  (\<open>init\<close> of \<open>cmd/*/cmd.go\<close>) and that the command line sets them; \<open>Label_Selection\<close> the label
  selector that both \<open>run\<close> functions build, and that only selected objects reach the cache;
  \<open>Startup\<close> the clients (\<open>internal/utils\<close>), the version (\<open>internal/version\<close>), the informer factory
  and the \<open>main\<close> functions with their signals and exit status. \<open>Logger\<close> is \<open>src/pkg/logger\<close>.

  \<^bold>\<open>\<open>src/pkg/server\<close> and \<open>src/cmd/controlplane\<close>.\<close> \<open>Controlplane\<close> models the xDS server, one
  update and the update loop, which survives errors but not panics. \<open>Controlplane_Run\<close> models the
  set-up of \<open>run\<close>, down to the registration of the subscriber's methods (\<open>handle_event\<close>) with the
  configurations of services and endpoint slices, and its goroutines as a step relation with two
  parts: \<open>program_step\<close> for the program, and \<open>env_step\<close> for the caller, \<open>Serve\<close>, the gRPC clients, the
  clock and the informers' handlers. \<open>GracefulStop\<close> blocks while RPCs are open, \<open>ReceiveEvent\<close> on the
  lock and in its \<open>select\<close>, and the mapping of a snapshot may panic. Once the context is done, the
  program makes at most ten more steps, and it gets to its end when the RPCs are over and the
  lock is free. Ten is the largest value of the measure: two for the informers, three for \<open>Start\<close>,
  four for the loop, and one for the return.

  \<^bold>\<open>\<open>src/pkg/redirect\<close> and \<open>src/cmd/redirect\<close>.\<close> \<open>Redirect\<close> (\<open>redirect.go\<close>, \<open>kube.go\<close>) states the
  interface as the locale \<open>redirect\<close> and proves in it what the handlers do to the installed
  rules; \<open>Redirect_Iptables\<close> (\<open>iptables.go\<close>) derives the contract for NAT rules from the
  documented behaviour of iptables. \<open>RemoveIP\<close> applies \<open>IsNotFoundError\<close> to the nil error of a
  deletion that succeeded; whether that panics is the parameter \<open>nil_panic\<close> of the contract, and
  the reference implementation panics, as reading the text of a nil error does. So the rules are those
  of the existing services (a text that is no address, such as the \<open>None\<close> of a headless service,
  has no rule) up to the first event that takes an address away, and beyond it only if the test
  accepts nil. A rule reads back as its address; \<open>Redirect_Cmd\<close>
  models the life of the daemon from its command line to its exit status.

  \<^bold>\<open>\<open>src/deploy/webhook\<close>.\<close> \<open>Webhook\<close> models the policy \<open>labelinject.rego\<close> over JSON values, with
  Rego's undefined values as \<open>None\<close>: a service that it patches is one that the daemons select,
  and its list of excluded namespaces has no effect.

  \<^bold>\<open>This theory\<close> composes them: what the xDS server serves agrees with the cache that the informers
  feed, and after a resync, under the two conditions on the history, with the stores of the
  informers, down to the endpoints; the rules that the redirect's handler installs for a service are
  compared with the listeners of the snapshots that the control plane maps.

  \<^bold>\<open>Not modelled.\<close> The libraries themselves: how informers watch the API server, how gRPC serves
  and Envoy reads the snapshots, how klog prints. The intervals of resyncs and time-outs are values
  that are passed on; time does not pass in the models. \<open>src/hack\<close> converts a benchmark topology
  with third-party code, \<open>src/bpf\<close> is C code that nothing loads, and the YAML files of
  \<open>src/deploy\<close> are data.
\<close>

section \<open>From the informers to the xDS server\<close>

definition cached_services :: "serviceStateSubscriber \<Rightarrow> Service multiset" where
  "cached_services st = image_mset obj (mset (map snd (services (clusterState st))))"

lemma snapshot_services:
  assumes "image_mset snap_contents (mset (Services snap)) =
    image_mset container_contents (mset (map snd (services (clusterState st))))"
  shows "image_mset Obj (mset (Services snap)) = cached_services st"
proof -
  have "image_mset fst (image_mset snap_contents (mset (Services snap))) =
      image_mset fst (image_mset container_contents (mset (map snd (services (clusterState st)))))"
    using assms by (rule arg_cong)
  then show ?thesis
    by (simp add: cached_services_def image_mset.compositionality comp_def snap_contents_def
        container_contents_def)
qed

lemma mset_concat_map: "mset (concat (map f xs)) = (\<Sum>x \<in># mset xs. mset (f x))"
  by (induction xs) simp_all

lemma mset_concat_map_image:
  "mset (concat (map (\<lambda>x. f (g x)) xs)) = (\<Sum>y \<in># image_mset g (mset xs). mset (f y))"
  by (simp add: mset_concat_map image_mset.compositionality comp_def)

lemma published_resources:
  assumes "marshals marshal" "\<not> bad_snapshot snap" "snapshot_cache sc GetSnapshot"
    and "received it = Some snap" "updateSnapshot marshal NewSnapshot sc it srv = Inr (srv', None)"
    and objs: "image_mset Obj (mset (Services snap)) = svcs"
  shows "\<exists>res. GetSnapshot (nodeID srv) (xds_cache srv') = Some (fst (NewSnapshot (it_version it) res)) \<and>
    mset (res_clusters res) = (\<Sum>svc \<in># svcs. mset (service_clusters svc)) \<and>
    image_mset listener_view (mset (res_listeners res)) = (\<Sum>svc \<in># svcs. mset (service_listeners svc))"
proof -
  obtain res where res: "resources_of 0 (it_orders it) (Services snap) res"
    and get: "GetSnapshot (nodeID srv) (xds_cache srv') = Some (fst (NewSnapshot (it_version it) res))"
    using snapshot_cache.updateSnapshot_publishes [OF assms(3,1,2,4,5)] by blast
  have "mset (res_clusters res) = (\<Sum>svc \<in># svcs. mset (service_clusters svc))"
    using res by (simp add: resources_of_def mset_concat_map_image objs)
  moreover have "image_mset listener_view (mset (res_listeners res)) =
      (\<Sum>svc \<in># svcs. mset (service_listeners svc))"
  proof -
    have "image_mset listener_view (mset (res_listeners res)) =
        mset (concat (map (\<lambda>s. service_listeners (Obj s)) (Services snap)))"
      using res unfolding resources_of_def mset_map [symmetric] by metis
    then show ?thesis by (simp add: mset_concat_map_image objs)
  qed
  ultimately show ?thesis using get by blast
qed

text \<open>
  C3. End to end: when the control plane has handled the snapshot that \<open>ReceiveEvent\<close> returned last
  without an error, and no event is on its way, then the xDS server serves, for its node, a
  snapshot with exactly the clusters and the listeners of the services in the cache.
\<close>

theorem served_matches_cache:
  assumes "subscriber_reachable st" "\<forall>i. handlers st i = HIdle" "\<not> eventLost st"
    and "receiver st \<noteq> RSnapshot" "returned st = Some snap"
    and "marshals marshal" "\<not> bad_snapshot snap" "snapshot_cache sc GetSnapshot"
    and "received it = Some snap" "updateSnapshot marshal NewSnapshot sc it srv = Inr (srv', None)"
  shows "\<exists>res. GetSnapshot (nodeID srv) (xds_cache srv') = Some (fst (NewSnapshot (it_version it) res)) \<and>
    mset (res_clusters res) = (\<Sum>svc \<in># cached_services st. mset (service_clusters svc)) \<and>
    image_mset listener_view (mset (res_listeners res)) =
      (\<Sum>svc \<in># cached_services st. mset (service_listeners svc))"
  by (rule published_resources [OF assms(6-10)])
    (rule snapshot_services [OF no_lost_update [OF assms(1-5)]])

text \<open>The run of the subscriber in which one service arrives, and the server after it.\<close>

definition ex_run_snapshot :: snap_Snapshot where
  "ex_run_snapshot = cache_Snapshot ex_orders (clusterState ex_run_start)"

lemma one_service_ok:
  assumes "image_mset snap_contents (mset (Services snap)) = {#(svc, slices)#}" "\<forall>es \<in># slices. \<not> has_bad_endpoint es"
  shows "\<not> bad_snapshot snap"
proof -
  have "snap_contents s = (svc, slices)" if "s \<in> set (Services snap)" for s
    using that assms(1) by (metis image_eqI set_image_mset set_mset_mset set_mset_single singletonD
        set_mset_add_mset_insert set_mset_empty)
  then have "set (EndpointSlices s) = set_mset slices" if "s \<in> set (Services snap)" for s
    using that by (metis set_mset_mset snap_contents_def snd_conv)
  then show ?thesis using assms(2) by (auto simp: bad_snapshot_def)
qed

lemma ex_run_snapshot_ok: "\<not> bad_snapshot ex_run_snapshot"
proof (rule one_service_ok)
  show "image_mset snap_contents (mset (Services ex_run_snapshot)) = {#(ex_service, {#})#}"
    using no_lost_update [OF ex_run_end_reachable]
    by (simp add: ex_run_snapshot_def ex_run_end_def ex_run_start_eq container_contents_def
        NewServiceContainer_def)
qed simp

lemma ex_update_succeeds:
  assumes "\<not> bad_snapshot snap"
  shows "\<exists>srv. updateSnapshot (\<lambda>_. None) ex_NewSnapshot map_cache (ex_iteration snap) ex_server =
     Inr (srv, None)"
proof -
  have "marshals (\<lambda>_. None)" by (simp add: marshals_def)
  then obtain res where "mapServices (\<lambda>_. None) (\<lambda>_. ex_ep_orders) snap = Inr res"
    using mapServices_result [OF _ assms] by blast
  then show ?thesis
    by (simp add: updateSnapshot_def ex_iteration_def EnvoySnapshotFromKubeSnapshot_def ex_NewSnapshot_def
        UpdateSnapshot_def map_cache_def)
qed

theorem served_matches_cache_witness:
  "\<exists>(srv :: (unit, (string, string \<times> resources) gomap, unit) xdsServer) res.
    gomap_get (xds_cache srv) ''k8s'' = Some (''v1'', res) \<and>
    mset (res_clusters res) = mset (service_clusters ex_service)"
proof -
  obtain srv where srv: "updateSnapshot (\<lambda>_. None) ex_NewSnapshot map_cache (ex_iteration ex_run_snapshot)
      ex_server = Inr (srv, None)"
    using ex_update_succeeds [OF ex_run_snapshot_ok] by blast
  have m: "marshals (\<lambda>_. None)" by (simp add: marshals_def)
  have "\<exists>res. gomap_get (xds_cache srv) (nodeID ex_server) =
      Some (fst (ex_NewSnapshot (it_version (ex_iteration ex_run_snapshot)) res)) \<and>
    mset (res_clusters res) = (\<Sum>svc \<in># cached_services ex_run_end. mset (service_clusters svc)) \<and>
    image_mset listener_view (mset (res_listeners res)) =
      (\<Sum>svc \<in># cached_services ex_run_end. mset (service_listeners svc))"
    by (rule served_matches_cache [OF ex_run_end_reachable _ _ _ _ m ex_run_snapshot_ok
          map_cache.snapshot_cache_axioms _ srv])
      (simp_all add: ex_run_end_def ex_run_start_eq ex_iteration_def ex_run_snapshot_def)
  moreover have "cached_services ex_run_end = {#ex_service#}"
    by (simp add: cached_services_def ex_run_end_def ex_run_start_eq NewServiceContainer_def)
  ultimately show ?thesis
    by (auto simp: ex_server_def ex_iteration_def ex_NewSnapshot_def)
qed

text \<open>
  C1. From the informers to the proxies: take any history of informer events for the objects in
  the informers' stores, followed by a resync, all of them handled, in whatever interleaving. When
  the last snapshot is published without an error, the xDS server serves for its node a snapshot
  with exactly the clusters and the listeners of the services in the informer's store. The cache
  keys services by their name and compares versions as strings, so the history has to allow that:
  all services of one name are in one namespace and a slice does not change its service
  (\<open>names_identify\<close>), and every update brings a version that is greater as a string
  (\<open>versions_ascend\<close>). Without the first, services evict each other, and without the second,
  updates are dropped.
\<close>

theorem served_matches_stores:
  assumes "subscriber_run (h @ rs) st" "stores_send no_objects h" "names_identify h" "versions_ascend h"
    and "resync (stores_after h) rs"
    and "\<forall>i. handlers st i = HIdle" "\<not> eventLost st" "receiver st \<noteq> RSnapshot" "returned st = Some snap"
    and "marshals marshal" "\<not> bad_snapshot snap" "snapshot_cache sc GetSnapshot"
    and "received it = Some snap" "updateSnapshot marshal NewSnapshot sc it srv = Inr (srv', None)"
  shows "\<exists>res. GetSnapshot (nodeID srv) (xds_cache srv') = Some (fst (NewSnapshot (it_version it) res)) \<and>
    mset (res_clusters res) =
      (\<Sum>svc \<in># mset_set (ran (store_services (stores_after h))). mset (service_clusters svc)) \<and>
    image_mset listener_view (mset (res_listeners res)) =
      (\<Sum>svc \<in># mset_set (ran (store_services (stores_after h))). mset (service_listeners svc))"
proof -
  have contents: "image_mset snap_contents (mset (Services snap)) = store_contents (stores_after h)"
    by (rule snapshot_of_stores [OF assms(1-9)])
  have "image_mset fst (image_mset snap_contents (mset (Services snap))) =
      image_mset fst (store_contents (stores_after h))"
    by (simp only: contents)
  then have "image_mset Obj (mset (Services snap)) = mset_set (ran (store_services (stores_after h)))"
    by (simp add: store_contents_def image_mset.compositionality comp_def snap_contents_def)
  then show ?thesis by (rule published_resources [OF assms(10-14)])
qed

theorem served_matches_stores_witness:
  "\<exists>(srv :: (unit, (string, string \<times> resources) gomap, unit) xdsServer) res.
    gomap_get (xds_cache srv) ''k8s'' = Some (''v1'', res) \<and>
    mset (res_clusters res) = mset (service_clusters ex_service)"
proof -
  obtain srv where srv: "updateSnapshot (\<lambda>_. None) ex_NewSnapshot map_cache (ex_iteration ex_run_snapshot)
      ex_server = Inr (srv, None)"
    using ex_update_succeeds [OF ex_run_snapshot_ok] by blast
  have m: "marshals (\<lambda>_. None)" by (simp add: marshals_def)
  have "\<exists>res. gomap_get (xds_cache srv) (nodeID ex_server) =
      Some (fst (ex_NewSnapshot (it_version (ex_iteration ex_run_snapshot)) res)) \<and>
    mset (res_clusters res) = (\<Sum>svc \<in># mset_set (ran (store_services (stores_after
      [ServiceAdd (Some ex_service)]))). mset (service_clusters svc)) \<and>
    image_mset listener_view (mset (res_listeners res)) = (\<Sum>svc \<in># mset_set (ran (store_services (stores_after
      [ServiceAdd (Some ex_service)]))). mset (service_listeners svc))"
    by (rule served_matches_stores [OF ex_run_end_run ex_run_stores _ _ _ _ m ex_run_snapshot_ok
          map_cache.snapshot_cache_axioms _ srv])
      (simp_all add: ex_run_end_def ex_run_start_eq ex_iteration_def ex_run_snapshot_def)
  then show ?thesis
    by (auto simp: ex_server_def ex_iteration_def ex_NewSnapshot_def)
qed

text \<open>
  C2. The same for endpoints, under the same conditions on the history: take an endpoint in a slice
  of the informer's store whose service, in the slice's namespace, is in the store, too. When the
  service has a TCP port with the number of the slice's port as target port and has the IP family
  of the slice, the endpoint is served: the load assignment of the cluster of this port and
  family lists its address and port in its locality, and the cluster is one that the server
  serves.
\<close>

theorem served_endpoints_match_stores:
  assumes "subscriber_run (h @ rs) st" "stores_send no_objects h" "names_identify h" "versions_ascend h"
    and "resync (stores_after h) rs"
    and "\<forall>i. handlers st i = HIdle" "\<not> eventLost st" "receiver st \<noteq> RSnapshot" "returned st = Some snap"
    and "marshals marshal" "\<not> bad_snapshot snap" "snapshot_cache sc GetSnapshot" "\<forall>i. valid_orders (it_orders it i)"
    and "received it = Some snap" "updateSnapshot marshal NewSnapshot sc it srv = Inr (srv', None)"
    and "svc \<in> ran (store_services (stores_after h))" "es \<in> ran (store_slices (stores_after h))"
    and "slice_service es = Some (Name svc)" "Namespace es = Namespace svc" "ep \<in> set (Endpoints es)" "epPort \<in> set (es_Ports es)"
    and "endpointMeta_of (sliceIPFamily es) epPort ep = Inr meta"
    and "port \<in> set (tcp_ports svc)" "IntVal (TargetPort port) = em_port meta"
    and "sliceIPFamily es \<in> set (IPFamilies (Spec svc))"
  shows "\<exists>res state. GetSnapshot (nodeID srv) (xds_cache srv') = Some (fst (NewSnapshot (it_version it) res)) \<and>
    cluster_name_of svc port (sliceIPFamily es) \<in> cluster_Name ` set (res_clusters res) \<and>
    serves res (cluster_name_of svc port (sliceIPFamily es)) (meta, state)"
proof -
  obtain s where s: "s \<in> set (Services snap)" "Obj s = svc" "es \<in> set (EndpointSlices s)"
    using contents_list_slice [OF snapshot_of_stores [OF assms(1-9)] assms(16-19)] by blast
  obtain res where res: "resources_of 0 (it_orders it) (Services snap) res"
    and get: "GetSnapshot (nodeID srv) (xds_cache srv') = Some (fst (NewSnapshot (it_version it) res))"
    using snapshot_cache.updateSnapshot_publishes [OF assms(12,10,11,14,15)] by blast
  obtain metas where metas: "extractEndpointMetaAndState (EndpointSlices s) = Inr metas"
    using assms(11) s(1) by (auto simp: extract_eq bad_snapshot_def)
  obtain state where "(meta, state) \<in> set metas"
    using extract_mem [OF metas s(3) assms(21,20,22)] by blast
  then have serves: "serves res (metaClusterName svc meta) (meta, state)"
    using resources_serve [OF res assms(13) s(1) metas] s(2) by auto
  have fam: "em_ipFamily meta = sliceIPFamily es"
    using assms(22) by (auto simp: endpointMeta_of_def split: list.splits)
  then have name: "metaClusterName svc meta = cluster_name_of svc port (sliceIPFamily es)"
    using assms(24) by (simp add: metaClusterName_def cluster_name_of_def)
  have "cluster_name_of svc port (sliceIPFamily es) \<in> cluster_Name ` set (service_clusters svc)"
    unfolding service_cluster_names using assms(23,25) by blast
  then have "cluster_name_of svc port (sliceIPFamily es) \<in> cluster_Name ` set (res_clusters res)"
    using res s(1,2) by (auto simp: resources_of_def)
  then show ?thesis using get serves name by auto
qed

text \<open>
  The run in which a slice arrives before its service, and a resync follows; the example's
  endpoint is served in the end.
\<close>

definition ex_full_run :: serviceStateSubscriber where
  "ex_full_run = quiet_returned ex_orders (ex_history @ ex_resync)"

definition ex_full_snapshot :: snap_Snapshot where
  "ex_full_snapshot = cache_Snapshot ex_orders (run_events (ex_history @ ex_resync) NewClusterServiceStateCache)"

lemma ex_full_run: "subscriber_run (ex_history @ ex_resync) ex_full_run"
proof -
  have "snd (handle_event (EndpointSliceAdd (Some ex_slice)) NewClusterServiceStateCache)"
    by (simp add: OnEndpointSliceAdd_def UpdatEndpointSlice_def NewClusterServiceStateCache_def ex_slice_def
        gomap_get_def)
  then have "subscriber_run (ex_history @ ex_resync) (quiet (ex_history @ ex_resync) True)"
    using run_quiet_lost by (simp add: ex_history_def)
  then show ?thesis unfolding ex_full_run_def by (rule quiet_returns [OF _ valid_ex_orders])
qed

lemma ex_full_run_state: "\<forall>i. handlers ex_full_run i = HIdle" "\<not> eventLost ex_full_run"
  "receiver ex_full_run \<noteq> RSnapshot" "returned ex_full_run = Some ex_full_snapshot"
  by (simp_all add: ex_full_run_def quiet_returned_def quiet_def subscriber_New_def ex_full_snapshot_def Let_def)

lemma ex_full_contents: "image_mset snap_contents (mset (Services ex_full_snapshot)) = {#(ex_service, {#ex_slice#})#}"
  using snapshot_of_stores [OF ex_full_run ex_history_sent ex_full_run_state] by (simp only: ex_store_contents)

lemma ex_full_snapshot_ok: "\<not> bad_snapshot ex_full_snapshot"
  by (rule one_service_ok [OF ex_full_contents]) (simp add: has_bad_endpoint_def ex_defs)

lemma ex_slice_served: "hd (Endpoints ex_slice) \<in> set (Endpoints ex_slice)" "hd (es_Ports ex_slice) \<in> set (es_Ports ex_slice)"
    "endpointMeta_of (sliceIPFamily ex_slice) (hd (es_Ports ex_slice)) (hd (Endpoints ex_slice)) =
      Inr (fst (hd ex_metas))"
    "ex_port \<in> set (tcp_ports ex_service)" "IntVal (TargetPort ex_port) = em_port (fst (hd ex_metas))"
    "sliceIPFamily ex_slice \<in> set (IPFamilies (Spec ex_service))"
  by (simp_all add: endpointMeta_of_def sliceIPFamily_def pointer_Deref_def ex_metas_def tcp_ports_def ex_defs)

lemma ex_history_stores: "ex_service \<in> ran (store_services (stores_after ex_history))"
    "ex_slice \<in> ran (store_slices (stores_after ex_history))" "slice_service ex_slice = Some (Name ex_service)"
    "Namespace ex_slice = Namespace ex_service"
  by (simp_all add: ex_history_def) (simp_all add: ex_slice_def ex_service_def gomap_get_def)

theorem served_endpoints_match_stores_witness:
  "\<exists>(srv :: (unit, (string, string \<times> resources) gomap, unit) xdsServer) res state.
    gomap_get (xds_cache srv) ''k8s'' = Some (''v1'', res) \<and>
    cluster_name_of ex_service ex_port ''IPv4'' \<in> cluster_Name ` set (res_clusters res) \<and>
    serves res (cluster_name_of ex_service ex_port ''IPv4'') (fst (hd ex_metas), state)"
proof -
  obtain srv where srv: "updateSnapshot (\<lambda>_. None) ex_NewSnapshot map_cache (ex_iteration ex_full_snapshot)
      ex_server = Inr (srv, None)"
    using ex_update_succeeds [OF ex_full_snapshot_ok] by blast
  have m: "marshals (\<lambda>_. None)" by (simp add: marshals_def)
  have it: "\<forall>i. valid_orders (it_orders (ex_iteration ex_full_snapshot) i)"
    "received (ex_iteration ex_full_snapshot) = Some ex_full_snapshot"
    by (simp_all add: ex_iteration_def)
  have "sliceIPFamily ex_slice = ''IPv4''" by (simp add: sliceIPFamily_def ex_slice_def)
  with served_endpoints_match_stores [OF ex_full_run ex_history_sent ex_full_run_state m ex_full_snapshot_ok
      map_cache.snapshot_cache_axioms it srv ex_history_stores ex_slice_served]
  show ?thesis by (auto simp: ex_server_def ex_iteration_def ex_NewSnapshot_def)
qed

section \<open>The redirect and the listeners\<close>

lemma snapshot_listeners:
  assumes "marshals marshal" "\<not> bad_snapshot snap"
  obtains res where
    "EnvoySnapshotFromKubeSnapshot marshal ords NewSnapshot version snap = Inr (NewSnapshot version res)"
    "listener_view ` set (res_listeners res) = (\<Union>s \<in> set (Services snap). set (service_listeners (Obj s)))"
proof -
  obtain res where res: "mapServices marshal ords snap = Inr res" "resources_of 0 ords (Services snap) res"
    using mapServices_result [OF assms] by blast
  have "map listener_view (res_listeners res) = concat (map (\<lambda>s. service_listeners (Obj s)) (Services snap))"
    using res(2) unfolding resources_of_def by blast
  from arg_cong [OF this, of set]
  have "listener_view ` set (res_listeners res) = (\<Union>s \<in> set (Services snap). set (service_listeners (Obj s)))"
    by simp
  moreover have "EnvoySnapshotFromKubeSnapshot marshal ords NewSnapshot version snap = Inr (NewSnapshot version res)"
    using res(1) by (simp add: EnvoySnapshotFromKubeSnapshot_def)
  ultimately show thesis by (rule that [rotated])
qed

lemma AddFunc_installs_address:
  assumes "iptables_pair ipt ipt6 chain_set rules works valid4 valid6 IsNotFoundError p"
    and "ir_working chain_set works p ir" "ip \<in> set (svc_ips svc)" "ParseIP ip \<noteq> []"
  shows "\<exists>ir'. AddFunc (IptablesRedirect_impl IsNotFoundError ipt ipt6) (ServiceObject svc) ir = Inr ir' \<and>
    insert (ip_rule p (getComment svc) (ParseIP ip)) (installed_rules rules ir) \<subseteq> installed_rules rules ir'"
proof -
  have "ip \<in> usable_ips svc" using assms(3,4) by (simp add: usable_ips_def)
  then show ?thesis
    using redirect.AddFunc_installs [OF redirect_comments.axioms(1) [OF iptables_pair.is_redirect [OF assms(1)]]
        assms(2), of svc]
    by (auto simp: svc_rules_def)
qed

text \<open>
  C17. The two daemons agree on the cluster IPs. When the tables work and a service is added, the
  handler of the redirect returns and has installed, for every cluster IP that is an address, the
  rule that sends its traffic to the proxy; no other rule is gone. And every snapshot that the
  control plane maps has, for each such IP and each TCP port of a service in it, the listener for
  the address and the port, which is not bound to it.
\<close>

theorem cluster_ips_redirected_and_listened:
  assumes "iptables_pair ipt ipt6 chain_set rules works valid4 valid6 IsNotFoundError p"
    and "ir_working chain_set works p ir"
    and "marshals marshal" "\<not> bad_snapshot snap" "s \<in> set (Services snap)"
    and "ip \<in> set (ClusterIPs (Spec (Obj s)))" "ParseIP ip \<noteq> []" "port \<in> set (tcp_ports (Obj s))"
  shows "(\<exists>ir'. AddFunc (IptablesRedirect_impl IsNotFoundError ipt ipt6) (ServiceObject (Obj s)) ir = Inr ir' \<and>
      insert (ip_rule p (getComment (Obj s)) (ParseIP ip)) (installed_rules rules ir) \<subseteq> installed_rules rules ir') \<and>
    (\<exists>res. EnvoySnapshotFromKubeSnapshot marshal ords NewSnapshot version snap = Inr (NewSnapshot version res) \<and>
      (ip, port_Port port, wrapperspb_Bool False) \<in> listener_key ` set (res_listeners res))"
proof
  show "\<exists>ir'. AddFunc (IptablesRedirect_impl IsNotFoundError ipt ipt6) (ServiceObject (Obj s)) ir = Inr ir' \<and>
      insert (ip_rule p (getComment (Obj s)) (ParseIP ip)) (installed_rules rules ir) \<subseteq> installed_rules rules ir'"
    by (rule AddFunc_installs_address [OF assms(1,2) _ assms(7)]) (simp add: svc_ips_def assms(6))
  obtain res where res: "EnvoySnapshotFromKubeSnapshot marshal ords NewSnapshot version snap = Inr (NewSnapshot version res)"
    "listener_view ` set (res_listeners res) = (\<Union>s \<in> set (Services snap). set (service_listeners (Obj s)))"
    by (rule snapshot_listeners [OF assms(3,4)])
  have "ip \<noteq> ''None''" using assms(7) ParseIP_None by blast
  then have "clusterIP_view (Obj s) port ip \<in> set (listeners_spec (Obj s) port)"
    using assms(6) by (simp add: listeners_spec_def)
  then have "clusterIP_view (Obj s) port ip \<in> set (service_listeners (Obj s))"
    using assms(8) by (simp only: service_listeners_def set_concat set_map) blast
  then have "clusterIP_view (Obj s) port ip \<in> listener_view ` set (res_listeners res)"
    using res(2) assms(5) by blast
  then have "(ip, port_Port port, wrapperspb_Bool False) \<in> listener_key ` set (res_listeners res)"
    by (force simp: listener_view_def clusterIP_view_def)
  with res(1) show "\<exists>res. EnvoySnapshotFromKubeSnapshot marshal ords NewSnapshot version snap =
      Inr (NewSnapshot version res) \<and>
      (ip, port_Port port, wrapperspb_Bool False) \<in> listener_key ` set (res_listeners res)"
    by blast
qed

theorem cluster_ips_redirected_and_listened_witness:
  "(\<exists>ir'. AddFunc (IptablesRedirect_impl ref_IsNotFoundError ref_iptables ref_iptables)
        (ServiceObject ex_service) ex_ir = Inr ir' \<and>
      ip_rule 1666 ''lightpath:default/whoami'' (ParseIP ''10.0.0.1'') \<in> installed_rules ref_rules ir') \<and>
    (\<exists>res. EnvoySnapshotFromKubeSnapshot (\<lambda>_. None) (\<lambda>_. ex_ep_orders) ex_NewSnapshot ''v1'' ex_snapshot =
        Inr (ex_NewSnapshot ''v1'' res) \<and>
      (''10.0.0.1'', 80, wrapperspb_Bool False) \<in> listener_key ` set (res_listeners res))"
proof -
  let ?s = "\<lparr>Obj = ex_service, EndpointSlices = [ex_slice]\<rparr>"
  have "?s \<in> set (Services ex_snapshot)" "''10.0.0.1'' \<in> set (ClusterIPs (Spec (Obj ?s)))"
    "ParseIP ''10.0.0.1'' \<noteq> []" "ex_port \<in> set (tcp_ports (Obj ?s))"
    by (simp_all add: ex_snapshot_def ex_service_def ex_port_def tcp_ports_def ex_parse_v4)
  from cluster_ips_redirected_and_listened [OF ref.iptables_pair_axioms ex_ir_ok(1) ex_snapshot_ok(1,2) this,
      of "\<lambda>_. ex_ep_orders" ex_NewSnapshot "''v1''"]
  show ?thesis
    by (auto simp: getComment_def ex_service_def ex_port_def)
qed

text \<open>
  C18. They do not agree on the external IPs. When the tables work and a service is added, the handler
  of the redirect installs the rule for every external IP that is an address. But no listener of
  any snapshot has this address, when no service in the snapshot has it as a cluster IP and it is
  not a wildcard address: the traffic reaches a proxy that does not know it.
\<close>

theorem external_ips_redirected_without_listener:
  assumes "iptables_pair ipt ipt6 chain_set rules works valid4 valid6 IsNotFoundError p"
    and "ir_working chain_set works p ir" "marshals marshal" "\<not> bad_snapshot snap"
    and "ip \<in> set (ExternalIPs (Spec svc))" "ParseIP ip \<noteq> []" "ip \<noteq> ''0.0.0.0''" "ip \<noteq> ''::''"
    and "\<forall>s \<in> set (Services snap). ip \<notin> set (ClusterIPs (Spec (Obj s)))"
  shows "(\<exists>ir'. AddFunc (IptablesRedirect_impl IsNotFoundError ipt ipt6) (ServiceObject svc) ir = Inr ir' \<and>
      insert (ip_rule p (getComment svc) (ParseIP ip)) (installed_rules rules ir) \<subseteq> installed_rules rules ir') \<and>
    (\<exists>res. EnvoySnapshotFromKubeSnapshot marshal ords NewSnapshot version snap = Inr (NewSnapshot version res) \<and>
      ip \<notin> (\<lambda>l. fst (listener_key l)) ` set (res_listeners res))"
proof
  show "\<exists>ir'. AddFunc (IptablesRedirect_impl IsNotFoundError ipt ipt6) (ServiceObject svc) ir = Inr ir' \<and>
      insert (ip_rule p (getComment svc) (ParseIP ip)) (installed_rules rules ir) \<subseteq> installed_rules rules ir'"
    by (rule AddFunc_installs_address [OF assms(1,2) _ assms(6)]) (simp add: svc_ips_def assms(5))
  obtain res where res: "EnvoySnapshotFromKubeSnapshot marshal ords NewSnapshot version snap = Inr (NewSnapshot version res)"
    "listener_view ` set (res_listeners res) = (\<Union>s \<in> set (Services snap). set (service_listeners (Obj s)))"
    by (rule snapshot_listeners [OF assms(3,4)])
  have spec: "fst (fst (snd v)) \<noteq> ip" if "ip \<notin> set (ClusterIPs (Spec svc'))" "v \<in> set (listeners_spec svc' port)" for svc' port v
    using that assms(7,8)
    by (auto simp: listeners_spec_def clusterIP_view_def nodePort_view_def Let_def split: if_splits)
  have "fst (fst (snd (listener_view l))) \<noteq> ip" if "l \<in> set (res_listeners res)" for l
  proof -
    have "listener_view l \<in> (\<Union>s \<in> set (Services snap). set (service_listeners (Obj s)))"
      using that res(2) by blast
    then obtain s port where "s \<in> set (Services snap)" "listener_view l \<in> set (listeners_spec (Obj s) port)"
      by (auto simp: service_listeners_def)
    with assms(9) spec show ?thesis by blast
  qed
  then have "ip \<notin> (\<lambda>l. fst (listener_key l)) ` set (res_listeners res)"
    by (auto simp: listener_view_def)
  with res(1) show "\<exists>res. EnvoySnapshotFromKubeSnapshot marshal ords NewSnapshot version snap =
      Inr (NewSnapshot version res) \<and> ip \<notin> (\<lambda>l. fst (listener_key l)) ` set (res_listeners res)"
    by blast
qed

definition ex_external_snapshot :: snap_Snapshot where
  "ex_external_snapshot = \<lparr>Services = [\<lparr>Obj = ex_external ''192.0.2.1'', EndpointSlices = [ex_slice]\<rparr>]\<rparr>"

theorem external_ips_redirected_without_listener_witness:
  "(\<exists>ir'. AddFunc (IptablesRedirect_impl ref_IsNotFoundError ref_iptables ref_iptables)
        (ServiceObject (ex_external ''192.0.2.1'')) ex_ir = Inr ir' \<and>
      insert (ip_rule 1666 (getComment (ex_external ''192.0.2.1'')) (ParseIP ''192.0.2.1''))
        (installed_rules ref_rules ex_ir) \<subseteq> installed_rules ref_rules ir') \<and>
    (\<exists>res. EnvoySnapshotFromKubeSnapshot (\<lambda>_. None) (\<lambda>_. ex_ep_orders) ex_NewSnapshot ''v1'' ex_external_snapshot =
        Inr (ex_NewSnapshot ''v1'' res) \<and>
      ''192.0.2.1'' \<notin> (\<lambda>l. fst (listener_key l)) ` set (res_listeners res))"
  by (rule external_ips_redirected_without_listener [OF ref.iptables_pair_axioms ex_ir_ok(1)])
    (simp_all add: ex_external_snapshot_def ex_external_def marshals_def bad_snapshot_def has_bad_endpoint_def
      ex_parse_v4 ex_defs)

text \<open>
  A headless service that still reaches the daemons is harmless: the handlers add no rule for it,
  although they try to, and the control plane makes no listener for it.
\<close>

theorem headless_service_has_no_effect:
  assumes "ClusterIPs (Spec svc) = [''None'']" "ExternalIPs (Spec svc) = []" "svc_Type (Spec svc) \<noteq> ''NodePort''"
    and "iptables_pair ipt ipt6 chain_set rules works valid4 valid6 IsNotFoundError p"
    and "ir_working chain_set works p ir" "marshals marshal"
  shows "(\<exists>ir'. AddFunc (IptablesRedirect_impl IsNotFoundError ipt ipt6) (ServiceObject svc) ir = Inr ir' \<and>
      installed_rules rules ir' = installed_rules rules ir) \<and>
    MapServicePortToListeners marshal svc port = Inr []"
proof -
  have "redirect (IptablesRedirect_impl IsNotFoundError ipt ipt6) (ip_rule p)
     (installed_rules rules) (ir_working chain_set works p) (nil_panic IsNotFoundError)"
    using iptables_pair.is_redirect [OF assms(4)] by (rule redirect_comments.axioms)
  from redirect.AddFunc_installs [OF this assms(5), of svc]
  have "\<exists>ir'. AddFunc (IptablesRedirect_impl IsNotFoundError ipt ipt6) (ServiceObject svc) ir = Inr ir' \<and>
      installed_rules rules ir' = installed_rules rules ir"
    using assms(1,2) by (auto simp: svc_rules_def usable_ips_def svc_ips_def ParseIP_None)
  moreover have "listeners_spec svc port = []"
    using assms(1,3) by (simp add: listeners_spec_def)
  then have "MapServicePortToListeners marshal svc port = Inr []"
    using listeners_view [OF assms(6), of svc port] by auto
  ultimately show ?thesis by blast
qed

definition ex_headless :: Service where
  "ex_headless = ex_service\<lparr>Spec := Spec ex_service\<lparr>ClusterIPs := [''None'']\<rparr>\<rparr>"

theorem headless_service_has_no_effect_witness:
  "(\<exists>ir'. AddFunc (IptablesRedirect_impl ref_IsNotFoundError ref_iptables ref_iptables)
        (ServiceObject ex_headless) ex_ir = Inr ir' \<and>
      installed_rules ref_rules ir' = installed_rules ref_rules ex_ir) \<and>
    MapServicePortToListeners (\<lambda>_. None) ex_headless ex_port = Inr []"
  by (rule headless_service_has_no_effect [OF _ _ _ ref.iptables_pair_axioms ex_ir_ok(1)])
    (simp_all add: ex_headless_def ex_service_def marshals_def)

end
